(* ===== verification/Prelude.thy ===== *)
theory Prelude
  imports Main
begin

text \<open>
  The prelude of the development: the errors a service can throw, the outcome of a
  stateful operation (its result or its error, and the state it leaves), and the tables
  of the database with the operations the services call on them.

  A table is the list of its rows in storage order.  \<open>findUnique\<close>, \<open>findMany\<close>,
  \<open>createRow\<close>, \<open>updateRow\<close> and \<open>deleteRow\<close> are the calls of the same
  names that the services make on a table of the database.  The locale \<open>table\<close> states
  what the services rely on; \<open>owned_table\<close> adds the owner of a row and carries the
  frame lemmas that every ownership-guarded operation uses.
\<close>

section \<open>Hint collections\<close>

named_theorems outcome_simps "unfolding an outcome: errors, results and sequencing"

section \<open>Messages and errors\<close>

text \<open>
  A message is a literal text, or the call \<open>i18n.t(key, locale, vars)\<close> with a key of
  the locale files, a locale that may be undefined, and numeric variables.
\<close>

datatype message =
    Text string
  | I18n string "string option" "(string \<times> int) list"

text \<open>
  The exceptions of the program: the HTTP exceptions of the framework, the database
  errors with their code (P2002 unique constraint, P2003 foreign key, P2025 row not
  found, P2034 serialization failure), a rejected database argument, and a plain Error.
\<close>

datatype err =
    BadRequest message
  | Conflict message
  | NotFound message
  | Forbidden message
  | Unauthorized message
  | ServiceUnavailable message
  | PrismaKnown string
  | PrismaValidation
  | PlainError string

abbreviation P2002 :: err where "P2002 \<equiv> PrismaKnown ''P2002''"
abbreviation P2003 :: err where "P2003 \<equiv> PrismaKnown ''P2003''"
abbreviation P2025 :: err where "P2025 \<equiv> PrismaKnown ''P2025''"
abbreviation P2034 :: err where "P2034 \<equiv> PrismaKnown ''P2034''"

section \<open>Members of an update\<close>

text \<open>
  A member of an update request is undefined, null, or a value.  A null column that cannot
  be null is rejected by the database client; undefined leaves a column as it is.
\<close>

datatype 'a patch = Undef | Null | Val 'a

fun patched :: "'a patch \<Rightarrow> 'a \<Rightarrow> 'a" where
  "patched (Val v) _ = v"
| "patched _ old = old"

fun patched_nullable :: "'a patch \<Rightarrow> 'a option \<Rightarrow> 'a option" where
  "patched_nullable (Val v) _ = Some v"
| "patched_nullable Null _ = None"
| "patched_nullable Undef old = old"

section \<open>Outcomes\<close>

text \<open>
  An operation takes a state and gives its outcome: \<open>Inl\<close> of the exception it throws
  or \<open>Inr\<close> of the value it returns, and the state it leaves.  An exception does not
  undo the writes made before it.
\<close>

type_synonym ('w, 'a) outcome = "(err + 'a) \<times> 'w"

definition andThen ::
  "('w, 'a) outcome \<Rightarrow> ('a \<Rightarrow> 'w \<Rightarrow> ('w, 'b) outcome) \<Rightarrow> ('w, 'b) outcome" where
  "andThen r k = (case r of (Inl e, w) \<Rightarrow> (Inl e, w) | (Inr a, w) \<Rightarrow> k a w)"

lemma andThen_Inl [simp, outcome_simps]: "andThen (Inl e, w) k = (Inl e, w)"
  by (simp add: andThen_def)

lemma andThen_Inr [simp, outcome_simps]: "andThen (Inr a, w) k = k a w"
  by (simp add: andThen_def)

lemma andThen_cases:
  assumes "andThen r k = (x, w')"
  obtains (err) e where "r = (Inl e, w')" "x = Inl e"
    | (ok) a w where "r = (Inr a, w)" "k a w = (x, w')"
  using assms by (cases r; cases "fst r") auto

lemma andThen_InrD:
  assumes "andThen r k = (Inr b, w')"
  obtains a w where "r = (Inr a, w)" "k a w = (Inr b, w')"
  using assms by (rule andThen_cases) auto

section \<open>Tables\<close>

definition findUnique :: "('r \<Rightarrow> 'k) \<Rightarrow> 'k \<Rightarrow> 'r list \<Rightarrow> 'r option" where
  "findUnique key k t = find (\<lambda>r. key r = k) t"

definition findMany :: "('r \<Rightarrow> bool) \<Rightarrow> 'r list \<Rightarrow> 'r list" where
  "findMany p t = filter p t"

definition createRow :: "'r \<Rightarrow> 'r list \<Rightarrow> 'r list" where
  "createRow r t = t @ [r]"

definition updateRow :: "('r \<Rightarrow> 'k) \<Rightarrow> 'k \<Rightarrow> ('r \<Rightarrow> 'r) \<Rightarrow> 'r list \<Rightarrow> 'r list" where
  "updateRow key k f t = map (\<lambda>r. if key r = k then f r else r) t"

definition deleteRow :: "('r \<Rightarrow> 'k) \<Rightarrow> 'k \<Rightarrow> 'r list \<Rightarrow> 'r list" where
  "deleteRow key k t = filter (\<lambda>r. key r \<noteq> k) t"

lemma find_SomeD: "find p t = Some r \<Longrightarrow> r \<in> set t \<and> p r"
  by (induction t) (auto split: if_splits)

lemma findUnique_Nil [simp]: "findUnique key k [] = None"
  by (simp add: findUnique_def)

lemma findUnique_Cons [simp]:
  "findUnique key k (r # t) = (if key r = k then Some r else findUnique key k t)"
  by (simp add: findUnique_def)

lemma findUnique_None [simp]: "findUnique key k t = None \<longleftrightarrow> k \<notin> key ` set t"
  by (induction t) auto

lemma findUnique_Some: "findUnique key k t = Some r \<Longrightarrow> r \<in> set t \<and> key r = k"
  by (induction t) (auto split: if_splits)

lemma findUnique_key: "findUnique key k t = Some r \<Longrightarrow> key r = k"
  by (drule findUnique_Some) simp

lemma findUnique_in: "findUnique key k t = Some r \<Longrightarrow> r \<in> set t"
  by (drule findUnique_Some) simp

lemma findUnique_exists: "k \<in> key ` set t \<Longrightarrow> \<exists>r. findUnique key k t = Some r"
  by (metis findUnique_None option.exhaust)

lemma findUnique_distinct:
  "distinct (map key t) \<Longrightarrow> r \<in> set t \<Longrightarrow> findUnique key (key r) t = Some r"
  by (induction t) auto

lemma set_findMany [simp]: "set (findMany p t) = {r \<in> set t. p r}"
  by (simp add: findMany_def)

lemma set_createRow [simp]: "set (createRow r t) = insert r (set t)"
  by (simp add: createRow_def)

lemma map_createRow [simp]: "map f (createRow r t) = map f t @ [f r]"
  by (simp add: createRow_def)

lemma set_deleteRow [simp]: "set (deleteRow key k t) = {r \<in> set t. key r \<noteq> k}"
  by (simp add: deleteRow_def)

lemma distinct_deleteRow: "distinct (map g t) \<Longrightarrow> distinct (map g (deleteRow key k t))"
  by (simp add: deleteRow_def distinct_map_filter)

lemma set_updateRow: "set (updateRow key k f t) = (\<lambda>r. if key r = k then f r else r) ` set t"
  by (simp add: updateRow_def)

lemma length_updateRow [simp]: "length (updateRow key k f t) = length t"
  by (simp add: updateRow_def)

lemma updateRow_noop: "k \<notin> key ` set t \<Longrightarrow> updateRow key k f t = t"
  by (auto simp: updateRow_def intro!: map_idI)

lemma map_updateRow_same:
  "(\<And>r. r \<in> set t \<Longrightarrow> key r = k \<Longrightarrow> g (f r) = g r) \<Longrightarrow> map g (updateRow key k f t) = map g t"
  by (simp add: updateRow_def)

lemma map_updateRow_frame [simp]:
  "(\<And>r. g (f r) = g r) \<Longrightarrow> map g (updateRow key k f t) = map g t"
  by (rule map_updateRow_same)

lemma image_updateRow: "(\<And>r. g (f r) = g r) \<Longrightarrow> g ` set (updateRow key k f t) = g ` set t"
  by (metis image_set map_updateRow_same)

lemma updateRow_mem:
  "r' \<in> set (updateRow key k f t) \<Longrightarrow>
   (\<exists>r \<in> set t. key r = k \<and> r' = f r) \<or> (r' \<in> set t \<and> key r' \<noteq> k)"
  by (auto simp: updateRow_def split: if_splits)

lemma updateRow_keeps:
  "r \<in> set t \<Longrightarrow> (if key r = k then f r else r) \<in> set (updateRow key k f t)"
  by (auto simp: updateRow_def)

lemma findUnique_updateRow:
  assumes "\<And>r. key (f r) = key r"
  shows "findUnique key k' (updateRow key k f t) =
    (if k' = k then map_option f (findUnique key k t) else findUnique key k' t)"
  using assms by (induction t) (auto simp: updateRow_def)

lemma findUnique_createRow:
  "findUnique key k (createRow r t) =
    (case findUnique key k t of None \<Rightarrow> if key r = k then Some r else None | Some r' \<Rightarrow> Some r')"
  by (induction t) (auto simp: createRow_def)

lemma findUnique_deleteRow:
  "findUnique key k' (deleteRow key k t) = (if k' = k then None else findUnique key k' t)"
  by (induction t) (auto simp: deleteRow_def)

section \<open>The interface of a table\<close>

text \<open>
  What a service relies on: rows are found by their key, a new row is found under its key,
  an update changes the row of that key and no other, a delete removes it and no other,
  and keys stay unique.
\<close>

locale table =
  fixes key :: "'r \<Rightarrow> 'k"
    and rows :: "'t \<Rightarrow> 'r list"
    and look :: "'k \<Rightarrow> 't \<Rightarrow> 'r option"
    and ins :: "'r \<Rightarrow> 't \<Rightarrow> 't"
    and upd :: "'k \<Rightarrow> ('r \<Rightarrow> 'r) \<Rightarrow> 't \<Rightarrow> 't"
    and del :: "'k \<Rightarrow> 't \<Rightarrow> 't"
  assumes look_mem: "look k t = Some r \<Longrightarrow> r \<in> set (rows t) \<and> key r = k"
    and look_none: "look k t = None \<Longrightarrow> r \<in> set (rows t) \<Longrightarrow> key r \<noteq> k"
    and rows_ins: "rows (ins r t) = rows t @ [r]"
    and rows_upd: "rows (upd k f t) = map (\<lambda>r. if key r = k then f r else r) (rows t)"
    and rows_del: "rows (del k t) = filter (\<lambda>r. key r \<noteq> k) (rows t)"
begin

definition keys_unique :: "'t \<Rightarrow> bool" where
  "keys_unique t \<longleftrightarrow> distinct (map key (rows t))"

lemma look_some_iff:
  assumes "keys_unique t"
  shows "look k t = Some r \<longleftrightarrow> r \<in> set (rows t) \<and> key r = k"
proof
  assume "r \<in> set (rows t) \<and> key r = k"
  then obtain r' where "look k t = Some r'"
    using look_none by (metis option.exhaust)
  with \<open>r \<in> set (rows t) \<and> key r = k\<close> assms show "look k t = Some r"
    using look_mem inj_onD by (fastforce simp: keys_unique_def distinct_map)
qed (rule look_mem)

lemma keys_unique_ins: "keys_unique t \<Longrightarrow> look (key r) t = None \<Longrightarrow> keys_unique (ins r t)"
  by (auto simp: keys_unique_def rows_ins dest: look_none)

lemma keys_unique_upd:
  assumes "keys_unique t" and "\<And>r. key (f r) = key r"
  shows "keys_unique (upd k f t)"
proof -
  have "map key (rows (upd k f t)) = map key (rows t)"
    by (simp add: rows_upd assms(2))
  with assms(1) show ?thesis by (simp add: keys_unique_def)
qed

lemma keys_unique_del: "keys_unique t \<Longrightarrow> keys_unique (del k t)"
  by (simp add: keys_unique_def rows_del distinct_map_filter)

end

text \<open>
  Rows that belong to a coach.  A write to a row the caller owns leaves the rows of every
  other owner as they were, in content and in order.
\<close>

locale owned_table = table key rows look ins upd del
  for key :: "'r \<Rightarrow> 'k" and rows :: "'t \<Rightarrow> 'r list" and look ins upd del +
  fixes owner :: "'r \<Rightarrow> 'o"
begin

definition foreign :: "'o \<Rightarrow> 't \<Rightarrow> 'r list" where
  "foreign c t = filter (\<lambda>r. owner r \<noteq> c) (rows t)"

lemma foreign_ins: "owner r = c \<Longrightarrow> foreign c (ins r t) = foreign c t"
  by (simp add: foreign_def rows_ins)

lemma foreign_upd:
  assumes "keys_unique t" and "look k t = Some r" and "owner r = c"
    and "\<And>r. owner (f r) = owner r"
  shows "foreign c (upd k f t) = foreign c t"
proof -
  have "owner r' = c" if "r' \<in> set (rows t)" "key r' = k" for r'
  proof -
    from that assms(1) have "look k t = Some r'" by (simp add: look_some_iff)
    with assms(2,3) show ?thesis by simp
  qed
  then have "\<And>xs. set xs \<subseteq> set (rows t) \<Longrightarrow>
      filter (\<lambda>r. owner r \<noteq> c) (map (\<lambda>r. if key r = k then f r else r) xs) =
      filter (\<lambda>r. owner r \<noteq> c) xs"
    subgoal for xs by (induction xs) (auto simp: assms(4))
    done
  then show ?thesis by (simp add: foreign_def rows_upd)
qed

lemma foreign_del:
  assumes "keys_unique t" and "look k t = Some r" and "owner r = c"
  shows "foreign c (del k t) = foreign c t"
proof -
  have "owner r' = c" if "r' \<in> set (rows t)" "key r' = k" for r'
  proof -
    from that assms(1) have "look k t = Some r'" by (simp add: look_some_iff)
    with assms(2,3) show ?thesis by simp
  qed
  then show ?thesis
    by (auto simp: foreign_def rows_del intro!: filter_cong)
qed

end

text \<open>The list operations provide the interface, for every row type, key and owner.\<close>

interpretation rowtab: owned_table key "\<lambda>t. t" "findUnique key" createRow "updateRow key"
    "deleteRow key" owner
  for key :: "'r \<Rightarrow> 'k" and owner :: "'r \<Rightarrow> 'o"
  by unfold_locales
    (auto simp: createRow_def updateRow_def deleteRow_def dest: findUnique_Some)

end
