(* ===== verification/JsDate.thy ===== *)
theory JsDate
  imports Prelude
begin

text \<open>
  What the code uses of the language's dates and strings: the proleptic Gregorian calendar
  (the day number of a civil date, counted from 1970-01-01, and back), the ISO date text of
  \<open>Date.prototype.toISOString\<close>, the parsing of \<open>new Date("...T00:00:00.000Z")\<close>,
  and the order that \<open><\<close> and \<open><=\<close> give on strings.  Instants are milliseconds since the
  epoch, as in \<open>Date.getTime()\<close>.

  The lemmas show that the calendar functions are inverse to each other, that the ISO text
  of a day parses back to it, and that string order on the ISO dates of the years 0 to 9999
  is the order of the days.
\<close>

section \<open>The calendar\<close>

abbreviation ms_per_day :: int where "ms_per_day \<equiv> 86400000"
abbreviation ms_per_min :: int where "ms_per_min \<equiv> 60000"

definition is_leap :: "int \<Rightarrow> bool" where
  "is_leap y \<longleftrightarrow> y mod 4 = 0 \<and> (y mod 100 \<noteq> 0 \<or> y mod 400 = 0)"

text \<open>Days from 0000-01-01 to the first day of the year \<open>y\<close>.\<close>

definition days_before_year :: "int \<Rightarrow> int" where
  "days_before_year y = 365 * y + (y + 3) div 4 - (y + 99) div 100 + (y + 399) div 400"

definition days_before_month :: "bool \<Rightarrow> int \<Rightarrow> int" where
  "days_before_month l m =
    (let k = (if l then 1 else 0) in
     if m \<le> 1 then 0 else if m = 2 then 31 else if m = 3 then 59 + k
     else if m = 4 then 90 + k else if m = 5 then 120 + k else if m = 6 then 151 + k
     else if m = 7 then 181 + k else if m = 8 then 212 + k else if m = 9 then 243 + k
     else if m = 10 then 273 + k else if m = 11 then 304 + k else if m = 12 then 334 + k
     else 365 + k)"

definition month_of_day :: "bool \<Rightarrow> int \<Rightarrow> int" where
  "month_of_day l n =
    (let k = (if l then 1 else 0) in
     if n < 31 then 1 else if n < 59 + k then 2 else if n < 90 + k then 3
     else if n < 120 + k then 4 else if n < 151 + k then 5 else if n < 181 + k then 6
     else if n < 212 + k then 7 else if n < 243 + k then 8 else if n < 273 + k then 9
     else if n < 304 + k then 10 else if n < 334 + k then 11 else 12)"

definition year_of_day :: "int \<Rightarrow> int" where
  "year_of_day n =
    (let g = (400 * n) div 146097 in
     if n < days_before_year g then g - 1
     else if days_before_year (g + 1) \<le> n then g + 1 else g)"

type_synonym civil = "int \<times> int \<times> int"

text \<open>The epoch, 1970-01-01, is day 719528 of year 0's count.\<close>

definition epoch_day :: int where "epoch_day = 719528"

fun day_of_date :: "civil \<Rightarrow> int" where
  "day_of_date (y, m, d) =
     days_before_year y + days_before_month (is_leap y) m + (d - 1) - epoch_day"

definition date_of_day :: "int \<Rightarrow> civil" where
  "date_of_day n =
    (let n' = n + epoch_day; y = year_of_day n'; r = n' - days_before_year y;
         m = month_of_day (is_leap y) r
     in (y, m, r - days_before_month (is_leap y) m + 1))"

fun valid_date :: "civil \<Rightarrow> bool" where
  "valid_date (y, m, d) \<longleftrightarrow> 1 \<le> m \<and> m \<le> 12 \<and> 1 \<le> d \<and>
     d \<le> days_before_month (is_leap y) (m + 1) - days_before_month (is_leap y) m"

lemma ceil_div_Suc:
  fixes x k :: int
  assumes "0 < k" and j: "j = k - 1"
  shows "(x + k) div k = (x + j) div k + (if x mod k = 0 then 1 else 0)"
proof -
  have eq: "x = k * (x div k) + x mod k" by simp
  have r: "0 \<le> x mod k" "x mod k < k" using assms by simp_all
  have "(x + k) div k = x div k + 1"
    using assms div_add_self2 [of k x] by linarith
  moreover have "(x + (k - 1)) div k = (if x mod k = 0 then x div k else x div k + 1)"
  proof (cases "x mod k = 0")
    case True
    then show ?thesis using assms eq
      by (auto intro!: int_div_pos_eq [where r = "k - 1"])
  next
    case False
    with r have "0 \<le> x mod k - 1" "x mod k - 1 < k" by linarith+
    moreover have "x + (k - 1) = k * (x div k + 1) + (x mod k - 1)"
      using eq by (simp add: algebra_simps)
    ultimately have "(x + (k - 1)) div k = x div k + 1"
      using int_div_pos_eq by blast
    with False show ?thesis by simp
  qed
  ultimately show ?thesis by (simp add: j)
qed

lemma div_bounds:
  fixes x k :: int
  assumes "0 < k"
  shows "k * (x div k) \<le> x" "x < k * (x div k) + k"
proof -
  have "x = k * (x div k) + x mod k" "0 \<le> x mod k" "x mod k < k" using assms by simp_all
  then show "k * (x div k) \<le> x" "x < k * (x div k) + k" by linarith+
qed

lemma leap_mod_dvd: "(y :: int) mod 400 = 0 \<Longrightarrow> y mod 100 = 0" "(y :: int) mod 100 = 0 \<Longrightarrow> y mod 4 = 0"
  by (auto simp: mod_eq_0_iff_dvd elim: dvd_trans [rotated])

lemma days_before_year_Suc:
  "days_before_year (y + 1) = days_before_year y + (if is_leap y then 366 else 365)"
proof -
  have e: "y + 1 + 3 = y + 4" "y + 1 + 99 = y + 100" "y + 1 + 399 = y + 400" by simp_all
  have c: "(y + 4) div 4 = (y + 3) div 4 + (if y mod 4 = 0 then 1 else 0)"
    "(y + 100) div 100 = (y + 99) div 100 + (if y mod 100 = 0 then 1 else 0)"
    "(y + 400) div 400 = (y + 399) div 400 + (if y mod 400 = 0 then 1 else 0)"
    by (rule ceil_div_Suc; simp)+
  have sum: "\<And>A B C a b c. (C \<longrightarrow> B) \<Longrightarrow> (B \<longrightarrow> A) \<Longrightarrow>
      365 * (y + 1) + (a + (if A then 1 else 0)) - (b + (if B then 1 else 0)) +
        (c + (if C then 1 else 0)) =
      365 * y + a - b + c + (if A \<and> (\<not> B \<or> C) then 366 else 365)"
    subgoal for A B C a b c by (cases A; cases B; cases C; simp)
    done
  show ?thesis
    unfolding days_before_year_def is_leap_def e c
    by (rule sum [of "y mod 400 = 0" "y mod 100 = 0" "y mod 4 = 0"])
      (simp_all add: leap_mod_dvd del: mod_eq_0_iff_dvd)
qed

lemma days_before_year_bounds:
  "146097 * y - 699 \<le> 400 * days_before_year y"
  "400 * days_before_year y \<le> 146097 * y + 699"
proof -
  have q: "\<And>a b c :: int. 4 * a \<le> y + 3 \<Longrightarrow> y + 3 < 4 * a + 4 \<Longrightarrow> 100 * b \<le> y + 99 \<Longrightarrow>
      y + 99 < 100 * b + 100 \<Longrightarrow> 400 * c \<le> y + 399 \<Longrightarrow> y + 399 < 400 * c + 400 \<Longrightarrow>
      146097 * y - 699 \<le> 400 * (365 * y + a - b + c) \<and>
      400 * (365 * y + a - b + c) \<le> 146097 * y + 699"
    by (simp add: algebra_simps)
  have "146097 * y - 699 \<le> 400 * days_before_year y \<and>
      400 * days_before_year y \<le> 146097 * y + 699"
    unfolding days_before_year_def by (rule q; rule div_bounds; simp)
  then show "146097 * y - 699 \<le> 400 * days_before_year y"
    "400 * days_before_year y \<le> 146097 * y + 699" by simp_all
qed

lemma year_of_day_bounds:
  "days_before_year (year_of_day n) \<le> n \<and> n < days_before_year (year_of_day n + 1)"
proof -
  obtain g where gdef: "g = (400 * n) div 146097" by blast
  have g: "146097 * g \<le> 400 * n" "400 * n < 146097 * g + 146097"
    using div_bounds [of 146097 "400 * n"] by (simp_all add: gdef)
  have "days_before_year (g - 1) \<le> n"
    using days_before_year_bounds(2) [of "g - 1"] g(1) by simp
  moreover have "n < days_before_year (g + 1 + 1)"
    using days_before_year_bounds(1) [of "g + 1 + 1"] g(2) by simp
  ultimately show ?thesis
    by (auto simp: year_of_day_def gdef [symmetric] Let_def)
qed

lemma days_before_year_less: "y < y' \<Longrightarrow> days_before_year y + 365 \<le> days_before_year y'"
proof (induction "nat (y' - y)" arbitrary: y')
  case 0
  then show ?case by simp
next
  case (Suc k)
  show ?case
  proof (cases "y' = y + 1")
    case True
    then show ?thesis by (simp add: days_before_year_Suc)
  next
    case False
    with Suc have "days_before_year y + 365 \<le> days_before_year (y' - 1)" by simp
    then show ?thesis using days_before_year_Suc [of "y' - 1"] by (simp split: if_splits)
  qed
qed

lemma year_of_day_unique:
  assumes "days_before_year y \<le> n" and "n < days_before_year (y + 1)"
  shows "year_of_day n = y"
proof (rule ccontr)
  assume "year_of_day n \<noteq> y"
  then consider "year_of_day n + 1 \<le> y" | "y + 1 \<le> year_of_day n" by linarith
  then show False
  proof cases
    case 1
    with days_before_year_less [of "year_of_day n + 1" y] year_of_day_bounds [of n] assms
    show ?thesis by (cases "year_of_day n + 1 = y") auto
  next
    case 2
    with days_before_year_less [of "y + 1" "year_of_day n"] year_of_day_bounds [of n] assms
    show ?thesis by (cases "y + 1 = year_of_day n") auto
  qed
qed

lemma month_of_day_bounds:
  assumes "0 \<le> n" and "n < (if l then 366 else 365)"
  shows "1 \<le> month_of_day l n" "month_of_day l n \<le> 12"
    "days_before_month l (month_of_day l n) \<le> n"
    "n < days_before_month l (month_of_day l n + 1)"
  using assms by (cases l; simp add: month_of_day_def days_before_month_def Let_def)+

lemma month_of_day_unique:
  assumes "1 \<le> m" "m \<le> 12" "days_before_month l m \<le> n" "n < days_before_month l (m + 1)"
  shows "month_of_day l n = m"
proof -
  have "m = 1 \<or> m = 2 \<or> m = 3 \<or> m = 4 \<or> m = 5 \<or> m = 6 \<or> m = 7 \<or> m = 8 \<or> m = 9 \<or>
      m = 10 \<or> m = 11 \<or> m = 12"
    using assms(1,2) by presburger
  with assms(3,4) show ?thesis
    by (elim disjE; cases l; simp add: month_of_day_def days_before_month_def)
qed

lemma days_before_month_range:
  assumes "1 \<le> m" "m \<le> 12"
  shows "0 \<le> days_before_month l m"
    "days_before_month l (m + 1) \<le> (if l then 366 else 365)"
  using assms by (simp_all add: days_before_month_def Let_def)

lemma valid_date_of_day: "valid_date (date_of_day n)"
proof -
  let ?n = "n + epoch_day" and ?y = "year_of_day (n + epoch_day)"
  have r: "0 \<le> ?n - days_before_year ?y"
    "?n - days_before_year ?y < (if is_leap ?y then 366 else 365)"
    using year_of_day_bounds [of ?n] days_before_year_Suc [of ?y] by auto
  from month_of_day_bounds [OF r] show ?thesis
    by (simp add: date_of_day_def Let_def)
qed

lemma day_of_date_of_day [simp]: "day_of_date (date_of_day n) = n"
  by (simp add: date_of_day_def Let_def)

lemma date_of_day_of_date:
  assumes "valid_date c"
  shows "date_of_day (day_of_date c) = c"
proof -
  obtain y m d where c: "c = (y, m, d)" by (cases c) auto
  let ?l = "is_leap y" and ?n = "day_of_date c + epoch_day"
  let ?r = "days_before_month ?l m + (d - 1)"
  have m: "1 \<le> m" "m \<le> 12" and d: "days_before_month ?l m \<le> ?r" "?r < days_before_month ?l (m + 1)"
    using assms by (auto simp: c)
  have n: "?n = days_before_year y + ?r" by (simp add: c)
  have "year_of_day ?n = y"
    using days_before_month_range [OF m, of ?l] d n days_before_year_Suc [of y]
    by (intro year_of_day_unique) (auto split: if_splits)
  moreover have "month_of_day ?l ?r = m"
    using month_of_day_unique [OF m d] .
  ultimately show ?thesis using n
    by (simp add: date_of_day_def Let_def c)
qed

lemma date_of_day_inject [simp]: "date_of_day a = date_of_day b \<longleftrightarrow> a = b"
  by (metis day_of_date_of_day)

text \<open>Later days have later dates, compared by year, then month, then day of the month.\<close>

fun civil_less :: "civil \<Rightarrow> civil \<Rightarrow> bool" where
  "civil_less (y, m, d) (y', m', d') \<longleftrightarrow>
     y < y' \<or> y = y' \<and> (m < m' \<or> m = m' \<and> d < d')"

lemma days_before_month_step: "days_before_month l m \<le> days_before_month l (m + 1)"
  by (simp add: days_before_month_def Let_def)

lemma days_before_month_mono:
  assumes "m + 1 \<le> m'"
  shows "days_before_month l (m + 1) \<le> days_before_month l m'"
  using assms
  by (induction m' rule: int_ge_induct) (auto intro: order_trans days_before_month_step)

lemma civil_less_day_less:
  assumes "valid_date c" "valid_date c'" "civil_less c c'"
  shows "day_of_date c < day_of_date c'"
proof -
  obtain y m d y' m' d' where c: "c = (y, m, d)" "c' = (y', m', d')"
    by (cases c; cases c') auto
  have m: "1 \<le> m" "m \<le> 12" "1 \<le> m'" "m' \<le> 12" using assms by (auto simp: c)
  have d: "days_before_month (is_leap y) m + d \<le> days_before_month (is_leap y) (m + 1)" "1 \<le> d'"
    using assms by (auto simp: c)
  from assms(3) consider "y < y'" | "y = y'" "m < m'" | "y = y'" "m = m'" "d < d'"
    by (auto simp: c)
  then show ?thesis
  proof cases
    case 1
    have "days_before_year (y + 1) \<le> days_before_year y'"
      using 1 days_before_year_less [of "y + 1" y'] by (cases "y' = y + 1") auto
    moreover have "days_before_year y + days_before_month (is_leap y) (m + 1) \<le> days_before_year (y + 1)"
      using days_before_month_range [OF m(1,2), of "is_leap y"] days_before_year_Suc [of y] by simp
    ultimately show ?thesis
      using d days_before_month_range(1) [OF m(3,4), of "is_leap y'"] by (simp add: c)
  next
    case 2
    then show ?thesis
      using d days_before_month_mono [of m m' "is_leap y"] m by (simp add: c)
  next
    case 3
    then show ?thesis by (simp add: c)
  qed
qed

lemma civil_less_iff: "civil_less (date_of_day a) (date_of_day b) \<longleftrightarrow> a < b"
proof
  assume "civil_less (date_of_day a) (date_of_day b)"
  from civil_less_day_less [OF valid_date_of_day valid_date_of_day this] show "a < b" by simp
next
  assume ab: "a < b"
  show "civil_less (date_of_day a) (date_of_day b)"
  proof (rule ccontr)
    assume "\<not> civil_less (date_of_day a) (date_of_day b)"
    then have "civil_less (date_of_day b) (date_of_day a) \<or> date_of_day a = date_of_day b"
      by (cases "date_of_day a"; cases "date_of_day b") auto
    then show False
      using ab civil_less_day_less [OF valid_date_of_day valid_date_of_day, of b a] by auto
  qed
qed

text \<open>ISO weekday: 1 = Monday, ..., 7 = Sunday; day 0, 1970-01-01, was a Thursday.\<close>

definition iso_weekday :: "int \<Rightarrow> int" where
  "iso_weekday n = (n + 3) mod 7 + 1"

lemma iso_weekday_range: "1 \<le> iso_weekday n \<and> iso_weekday n \<le> 7"
  using pos_mod_bound [of 7 "n + 3"] pos_mod_sign [of 7 "n + 3"] by (simp add: iso_weekday_def)

section \<open>String order\<close>

text \<open>The relational operators on strings compare code units, from the left.\<close>

fun str_less :: "string \<Rightarrow> string \<Rightarrow> bool" where
  "str_less xs [] = False"
| "str_less [] (y # ys) = True"
| "str_less (x # xs) (y # ys) =
     ((of_char x :: nat) < of_char y \<or> x = y \<and> str_less xs ys)"

definition str_le :: "string \<Rightarrow> string \<Rightarrow> bool" where
  "str_le a b \<longleftrightarrow> \<not> str_less b a"

lemma str_less_irrefl [simp]: "\<not> str_less a a"
  by (induction a) auto

lemma str_less_append:
  "length xs = length ys \<Longrightarrow>
   str_less (xs @ us) (ys @ vs) \<longleftrightarrow> str_less xs ys \<or> xs = ys \<and> str_less us vs"
  by (induction xs ys rule: list_induct2) auto

section \<open>Decimal digits\<close>

definition digit :: "nat \<Rightarrow> char" where "digit n = char_of (48 + n)"

fun pad :: "nat \<Rightarrow> nat \<Rightarrow> string" where
  "pad 0 n = []"
| "pad (Suc k) n = pad k (n div 10) @ [digit (n mod 10)]"

lemma length_pad [simp]: "length (pad k n) = k"
  by (induction k arbitrary: n) auto

lemma of_char_digit: "n < 10 \<Longrightarrow> (of_char (digit n) :: nat) = 48 + n"
  by (simp add: digit_def)

lemma digit_inject: "m < 10 \<Longrightarrow> n < 10 \<Longrightarrow> digit m = digit n \<longleftrightarrow> m = n"
  by (metis of_char_digit add_left_cancel)

lemma pad_inject: "a < 10 ^ k \<Longrightarrow> b < 10 ^ k \<Longrightarrow> pad k a = pad k b \<longleftrightarrow> a = b"
proof (induction k arbitrary: a b)
  case 0
  then show ?case by simp
next
  case (Suc k)
  have "pad k (a div 10) = pad k (b div 10) \<longleftrightarrow> a div 10 = b div 10"
    using Suc by (intro Suc.IH) auto
  moreover have "digit (a mod 10) = digit (b mod 10) \<longleftrightarrow> a mod 10 = b mod 10"
    by (simp add: digit_inject)
  ultimately show ?case
    by (metis append1_eq_conv pad.simps(2) mult_div_mod_eq)
qed

lemma lex_decimal:
  fixes q r :: nat
  assumes "r < 10" "r' < 10"
  shows "q < q' \<or> q = q' \<and> r < r' \<longleftrightarrow> 10 * q + r < 10 * q' + r'"
  using assms by linarith

lemma pad_less: "a < 10 ^ k \<Longrightarrow> b < 10 ^ k \<Longrightarrow> str_less (pad k a) (pad k b) \<longleftrightarrow> a < b"
proof (induction k arbitrary: a b)
  case 0
  then show ?case by simp
next
  case (Suc k)
  have q: "a div 10 < 10 ^ k" "b div 10 < 10 ^ k" using Suc.prems by auto
  have "str_less (pad (Suc k) a) (pad (Suc k) b) \<longleftrightarrow>
      a div 10 < b div 10 \<or> a div 10 = b div 10 \<and> a mod 10 < b mod 10"
    using Suc.IH [OF q] pad_inject [OF q] by (simp add: str_less_append of_char_digit)
  also have "\<dots> \<longleftrightarrow> 10 * (a div 10) + a mod 10 < 10 * (b div 10) + b mod 10"
    by (rule lex_decimal) simp_all
  finally show ?case by simp
qed

section \<open>ISO dates\<close>

text \<open>
  The year has four digits from 0 to 9999, and a sign and six digits otherwise.
\<close>

definition iso_year :: "int \<Rightarrow> string" where
  "iso_year y =
    (if 0 \<le> y \<and> y \<le> 9999 then pad 4 (nat y)
     else (if y < 0 then CHR ''-'' else CHR ''+'') # pad 6 (nat \<bar>y\<bar>))"

fun iso_civil :: "civil \<Rightarrow> string" where
  "iso_civil (y, m, d) = iso_year y @ ''-'' @ pad 2 (nat m) @ ''-'' @ pad 2 (nat d)"

definition iso_date :: "int \<Rightarrow> string" where
  "iso_date n = iso_civil (date_of_day n)"

text \<open>The days whose year has four digits: 0000-01-01 to 9999-12-31.\<close>

definition four_digit_day :: "int \<Rightarrow> bool" where
  "four_digit_day n \<longleftrightarrow> - 719528 \<le> n \<and> n \<le> 2932896"

lemma year_of_day_mono: "a \<le> b \<Longrightarrow> fst (date_of_day a) \<le> fst (date_of_day b)"
  using civil_less_iff [of a b]
  by (cases "date_of_day a"; cases "date_of_day b"; cases "a = b") auto

lemma four_digit_year:
  assumes "four_digit_day n"
  shows "0 \<le> fst (date_of_day n) \<and> fst (date_of_day n) \<le> 9999"
proof -
  have "date_of_day (- 719528) = (0, 1, 1)" by code_simp
  moreover have "date_of_day 2932896 = (9999, 12, 31)" by code_simp
  ultimately show ?thesis
    using assms year_of_day_mono [of "- 719528" n] year_of_day_mono [of n 2932896]
    by (simp add: four_digit_day_def)
qed

lemma iso_date_parts:
  assumes "four_digit_day n" and "date_of_day n = (y, m, d)"
  shows "iso_date n = pad 4 (nat y) @ ''-'' @ pad 2 (nat m) @ ''-'' @ pad 2 (nat d)"
    and "nat y < 10 ^ 4" and "nat m < 10 ^ 2" and "nat d < 10 ^ 2"
    and "0 \<le> y" and "1 \<le> m" and "1 \<le> d"
proof -
  have v: "valid_date (y, m, d)" using valid_date_of_day [of n] assms(2) by simp
  have y: "0 \<le> y" "y \<le> 9999" using four_digit_year [OF assms(1)] assms(2) by simp_all
  have "d \<le> 31" using v
    by (cases "is_leap y") (auto simp: days_before_month_def split: if_splits)
  then show "nat d < 10 ^ 2" by simp
  show "nat y < 10 ^ 4" "nat m < 10 ^ 2" "0 \<le> y" "1 \<le> m" "1 \<le> d" using v y by auto
  show "iso_date n = pad 4 (nat y) @ ''-'' @ pad 2 (nat m) @ ''-'' @ pad 2 (nat d)"
    using y by (simp add: iso_date_def assms(2) iso_year_def)
qed

lemma length_iso_date: "four_digit_day n \<Longrightarrow> length (iso_date n) = 10"
  by (cases "date_of_day n") (simp add: iso_date_parts(1) del: pad.simps)

lemma iso_date_less:
  assumes "four_digit_day a" "four_digit_day b"
  shows "str_less (iso_date a) (iso_date b) \<longleftrightarrow> a < b"
proof -
  obtain y m d y' m' d' where c: "date_of_day a = (y, m, d)" "date_of_day b = (y', m', d')"
    by (cases "date_of_day a"; cases "date_of_day b") auto
  note A = iso_date_parts [OF assms(1) c(1)] and B = iso_date_parts [OF assms(2) c(2)]
  have "str_less (iso_date a) (iso_date b) \<longleftrightarrow>
      nat y < nat y' \<or> nat y = nat y' \<and> (nat m < nat m' \<or> nat m = nat m' \<and> nat d < nat d')"
    unfolding A(1) B(1) using A(2-4) B(2-4)
    by (simp add: str_less_append pad_less pad_inject del: pad.simps)
  also have "\<dots> \<longleftrightarrow> civil_less (date_of_day a) (date_of_day b)"
    using A(5-7) B(5-7) by (simp add: c; linarith)
  finally show ?thesis by (simp add: civil_less_iff)
qed

lemma iso_date_le:
  "four_digit_day a \<Longrightarrow> four_digit_day b \<Longrightarrow> str_le (iso_date a) (iso_date b) \<longleftrightarrow> a \<le> b"
  by (auto simp: str_le_def iso_date_less)

lemma iso_date_inject:
  "four_digit_day a \<Longrightarrow> four_digit_day b \<Longrightarrow> iso_date a = iso_date b \<longleftrightarrow> a = b"
  by (metis iso_date_less str_less_irrefl linorder_neq_iff)

section \<open>Date objects\<close>

text \<open>
  \<open>Date.prototype.toISOString\<close>: the UTC date, the time to the millisecond, and a Z.
\<close>

definition toISOString :: "int \<Rightarrow> string" where
  "toISOString ms =
    (let t = ms mod ms_per_day in
     iso_date (ms div ms_per_day) @ ''T'' @ pad 2 (nat (t div 3600000)) @ '':'' @
     pad 2 (nat (t div 60000 mod 60)) @ '':'' @ pad 2 (nat (t div 1000 mod 60)) @ ''.'' @
     pad 3 (nat (t mod 1000)) @ ''Z'')"

text \<open>
  The date part of the language's date-time format: a year of four digits, or of a sign and
  six digits (not minus zero), then optionally a month, then optionally a day.
\<close>

definition digit_value :: "char \<Rightarrow> int option" where
  "digit_value c =
    (let n = (of_char c :: nat) in if 48 \<le> n \<and> n \<le> 57 then Some (int n - 48) else None)"

fun digits_value :: "string \<Rightarrow> int option" where
  "digits_value [] = Some 0"
| "digits_value (c # cs) =
     (case (digit_value c, digits_value cs) of
        (Some d, Some n) \<Rightarrow> Some (d * 10 ^ length cs + n) | _ \<Rightarrow> None)"

definition month_day_part :: "string \<Rightarrow> (int \<times> int) option" where
  "month_day_part s =
    (if s = [] then Some (1, 1)
     else if take 1 s \<noteq> ''-'' then None
     else if length s = 3 then map_option (\<lambda>m. (m, 1)) (digits_value (drop 1 s))
     else if length s = 6 \<and> s ! 3 = CHR ''-'' then
       (case (digits_value (take 2 (drop 1 s)), digits_value (drop 4 s)) of
          (Some m, Some d) \<Rightarrow> Some (m, d) | _ \<Rightarrow> None)
     else None)"

definition year_part :: "string \<Rightarrow> (int \<times> string) option" where
  "year_part s =
    (if take 1 s = ''+'' \<and> 7 \<le> length s then
       map_option (\<lambda>y. (y, drop 7 s)) (digits_value (take 6 (drop 1 s)))
     else if take 1 s = ''-'' \<and> 7 \<le> length s then
       (case digits_value (take 6 (drop 1 s)) of
          Some y \<Rightarrow> if y = 0 then None else Some (- y, drop 7 s) | None \<Rightarrow> None)
     else if 4 \<le> length s then map_option (\<lambda>y. (y, drop 4 s)) (digits_value (take 4 s))
     else None)"

definition parse_date :: "string \<Rightarrow> civil option" where
  "parse_date s =
    (case year_part s of None \<Rightarrow> None
     | Some (y, rest) \<Rightarrow> map_option (\<lambda>(m, d). (y, m, d)) (month_day_part rest))"

text \<open>
  \<open>new Date(`${s}T00:00:00.000Z`)\<close>: \<open>None\<close> is the Invalid Date, for a text outside the
  format, a month or day out of range, and an instant beyond 100 million days.
\<close>

definition utc_midnight :: "string \<Rightarrow> int option" where
  "utc_midnight s =
    (case parse_date s of None \<Rightarrow> None
     | Some c \<Rightarrow>
         if valid_date c \<and> \<bar>day_of_date c\<bar> \<le> 100000000 then Some (day_of_date c * ms_per_day)
         else None)"

lemma digit_value_digit [simp]: "n < 10 \<Longrightarrow> digit_value (digit n) = Some (int n)"
  by (simp add: digit_value_def of_char_digit)

lemma digits_value_snoc:
  "digits_value (cs @ [c]) =
     (case (digits_value cs, digit_value c) of
        (Some n, Some d) \<Rightarrow> Some (10 * n + d) | _ \<Rightarrow> None)"
  by (induction cs) (auto simp: algebra_simps split: option.splits)

lemma digits_value_pad: "n < 10 ^ k \<Longrightarrow> digits_value (pad k n) = Some (int n)"
proof (induction k arbitrary: n)
  case 0
  then show ?case by simp
next
  case (Suc k)
  then have "digits_value (pad k (n div 10)) = Some (int (n div 10))" by simp
  moreover have "10 * int (n div 10) + int (n mod 10) = int n"
    by (metis mult_div_mod_eq of_nat_add of_nat_mult of_nat_numeral)
  ultimately show ?case by (simp add: digits_value_snoc)
qed

lemma digit_not_sign: "n < 10 \<Longrightarrow> digit n \<noteq> CHR ''+'' \<and> digit n \<noteq> CHR ''-''"
  using of_char_digit [of n] by auto

lemma take_pad: "\<exists>e < 10. take 1 (pad (Suc k) n) = [digit e]"
proof (induction k arbitrary: n)
  case 0
  show ?case by (rule exI [of _ "n mod 10"]) simp
next
  case (Suc k)
  from Suc [of "n div 10"] obtain e where
    e: "e < 10" "take 1 (pad (Suc k) (n div 10)) = [digit e]" by blast
  have "take 1 (pad (Suc (Suc k)) n) = take 1 (pad (Suc k) (n div 10))"
    by (subst pad.simps(2)) (simp del: pad.simps)
  with e show ?case by metis
qed

lemma pad2: "pad 2 n = [digit (n div 10 mod 10), digit (n mod 10)]"
  by (simp add: numeral_2_eq_2)

lemma parse_iso_date:
  assumes "four_digit_day n"
  shows "parse_date (iso_date n) = Some (date_of_day n)"
proof -
  obtain y m d where c: "date_of_day n = (y, m, d)" by (cases "date_of_day n") auto
  note I = iso_date_parts [OF assms c]
  define md where "md = ''-'' @ pad 2 (nat m) @ ''-'' @ pad 2 (nat d)"
  have i: "iso_date n = pad 4 (nat y) @ md" by (simp add: I(1) md_def del: pad.simps)
  obtain e where "e < 10" "take 1 (pad (Suc 3) (nat y)) = [digit e]"
    using take_pad by blast
  then have "take 1 (iso_date n) \<noteq> ''+''" "take 1 (iso_date n) \<noteq> ''-''"
    using digit_not_sign [of e] by (simp_all add: i del: pad.simps)
  then have yp: "year_part (iso_date n) = Some (y, md)"
    using I(2,5) by (simp add: year_part_def i digits_value_pad del: pad.simps)
  have "md ! 3 = CHR ''-''" "take 2 (drop 1 md) = pad 2 (nat m)" "drop 4 md = pad 2 (nat d)"
    "length md = 6" "md \<noteq> []" "take 1 md = ''-''"
    by (simp_all add: md_def pad2)
  then have "month_day_part md = Some (m, d)"
    using digits_value_pad [OF I(3)] digits_value_pad [OF I(4)] I(6,7)
    by (simp add: month_day_part_def del: pad.simps)
  with yp show ?thesis by (simp add: parse_date_def c)
qed

lemma utc_midnight_iso_date:
  assumes "four_digit_day n"
  shows "utc_midnight (iso_date n) = Some (n * ms_per_day)"
  using assms by (simp add: utc_midnight_def parse_iso_date valid_date_of_day four_digit_day_def abs_le_iff)

lemma iso_string_prefix:
  "four_digit_day (ms div ms_per_day) \<Longrightarrow> take 10 (toISOString ms) = iso_date (ms div ms_per_day)"
  by (simp add: toISOString_def Let_def length_iso_date del: pad.simps)

lemma iso_string_midnight:
  "four_digit_day n \<Longrightarrow> take 10 (toISOString (n * ms_per_day)) = iso_date n"
  by (simp add: iso_string_prefix)

end
