(* ===== verification/Luxon.thy ===== *)
theory Luxon
  imports Complex_Main JsDate
begin

text \<open>
  The date-time library the services call.  Its code is not part of the repository, so it
  is a parameter: the record \<open>luxon\<close> holds one function per call the code makes, over
  instants in milliseconds and zone names.  The predicates \<open>luxon_instants\<close>,
  \<open>luxon_zone\<close> and \<open>regular_day\<close> state the documented behaviour the properties rely on.

  \<open>zone_clock\<close> is one concrete library, for a zone with a single change of its offset; it
  satisfies the predicates and serves as the instance at which the properties are applied.
\<close>

record luxon =
  lx_fromISO :: "string \<Rightarrow> string \<Rightarrow> int option"  \<comment> \<open>fromISO(text, {zone}); None is invalid\<close>
  lx_fromISOSetZone :: "string \<Rightarrow> int option"     \<comment> \<open>fromISO(text, {setZone: true})\<close>
  lx_startOfDay :: "string \<Rightarrow> int \<Rightarrow> int"          \<comment> \<open>startOf('day') in a zone\<close>
  lx_plusDays :: "string \<Rightarrow> int \<Rightarrow> int \<Rightarrow> int"     \<comment> \<open>plus({days}) in a zone\<close>
  lx_plusHours :: "int \<Rightarrow> int \<Rightarrow> int"
  lx_plusMinutes :: "int \<Rightarrow> rat \<Rightarrow> int"
  lx_diffMinutes :: "int \<Rightarrow> int \<Rightarrow> rat"           \<comment> \<open>a.diff(b, 'minutes').minutes\<close>
  lx_diffDays :: "string \<Rightarrow> int \<Rightarrow> int \<Rightarrow> rat"    \<comment> \<open>a.diff(b, 'days').days in a zone\<close>
  lx_setTime :: "string \<Rightarrow> int \<Rightarrow> int \<Rightarrow> int \<Rightarrow> int" \<comment> \<open>set({hour, minute, second: 0, millisecond: 0})\<close>
  lx_hour :: "string \<Rightarrow> int \<Rightarrow> int"
  lx_minute :: "string \<Rightarrow> int \<Rightarrow> int"
  lx_weekday :: "string \<Rightarrow> int \<Rightarrow> int"
  lx_toISODate :: "string \<Rightarrow> int \<Rightarrow> string"
  lx_toUTCISO :: "int \<Rightarrow> string"                  \<comment> \<open>toUTC().toISO()\<close>

section \<open>Documented behaviour\<close>

text \<open>
  Hours and minutes are exact spans of time, a difference in minutes is the elapsed time,
  and the UTC text of an instant reads back as that instant.
\<close>

definition luxon_instants :: "luxon \<Rightarrow> bool" where
  "luxon_instants lx \<longleftrightarrow>
     (\<forall>t k. lx_plusHours lx t k = t + k * 3600000) \<and>
     (\<forall>t k. lx_plusMinutes lx t (of_int k) = t + k * ms_per_min) \<and>
     (\<forall>a b. lx_diffMinutes lx a b = of_int (a - b) / 60000) \<and>
     (\<forall>t. four_digit_day (t div ms_per_day) \<longrightarrow>
        lx_fromISOSetZone lx (lx_toUTCISO lx t) = Some t)"

text \<open>
  A zone divides time into local days: \<open>mid d\<close> is the instant at which the local day of
  number \<open>d\<close> begins.  The functions on local dates follow that division, for the days of
  the years 0 to 9999.
\<close>

definition luxon_zone :: "luxon \<Rightarrow> string \<Rightarrow> (int \<Rightarrow> int) \<Rightarrow> bool" where
  "luxon_zone lx tz mid \<longleftrightarrow>
     (\<forall>d. four_digit_day d \<longrightarrow> mid d < mid (d + 1)) \<and>
     (\<forall>d t. four_digit_day d \<and> mid d \<le> t \<and> t < mid (d + 1) \<longrightarrow>
        lx_startOfDay lx tz t = mid d \<and> lx_toISODate lx tz t = iso_date d \<and>
        lx_weekday lx tz t = iso_weekday d) \<and>
     (\<forall>d. four_digit_day d \<longrightarrow> lx_plusDays lx tz (mid d) 1 = mid (d + 1)) \<and>
     (\<forall>d. four_digit_day d \<longrightarrow> lx_fromISO lx (iso_date d) tz = Some (mid d)) \<and>
     (\<forall>a b. four_digit_day a \<and> four_digit_day b \<longrightarrow>
        lx_diffDays lx tz (mid a) (mid b) = of_int (a - b))"

text \<open>
  A regular day of the zone has 24 hours and no change of the offset, so that the wall
  clock shows the time elapsed since midnight.
\<close>

definition regular_day :: "luxon \<Rightarrow> string \<Rightarrow> (int \<Rightarrow> int) \<Rightarrow> int \<Rightarrow> bool" where
  "regular_day lx tz mid d \<longleftrightarrow>
     mid (d + 1) = mid d + ms_per_day \<and>
     (\<forall>h m. 0 \<le> h \<and> h < 24 \<and> 0 \<le> m \<and> m < 60 \<longrightarrow>
        lx_setTime lx tz (mid d) h m = mid d + (h * 60 + m) * ms_per_min) \<and>
     (\<forall>t. mid d \<le> t \<and> t < mid (d + 1) \<longrightarrow>
        lx_hour lx tz t * 60 + lx_minute lx tz t = (t - mid d) div ms_per_min)"

lemma luxon_instantsD:
  assumes "luxon_instants lx"
  shows "lx_plusHours lx t k = t + k * 3600000"
    and "lx_plusMinutes lx t (of_int k) = t + k * ms_per_min"
    and "lx_diffMinutes lx a b = of_int (a - b) / 60000"
    and "four_digit_day (t div ms_per_day) \<Longrightarrow> lx_fromISOSetZone lx (lx_toUTCISO lx t) = Some t"
  using assms by (simp_all add: luxon_instants_def)

lemma luxon_zoneD:
  assumes "luxon_zone lx tz mid" and "four_digit_day d"
  shows "mid d < mid (d + 1)"
    and "mid d \<le> t \<Longrightarrow> t < mid (d + 1) \<Longrightarrow> lx_startOfDay lx tz t = mid d"
    and "mid d \<le> t \<Longrightarrow> t < mid (d + 1) \<Longrightarrow> lx_toISODate lx tz t = iso_date d"
    and "mid d \<le> t \<Longrightarrow> t < mid (d + 1) \<Longrightarrow> lx_weekday lx tz t = iso_weekday d"
    and "lx_plusDays lx tz (mid d) 1 = mid (d + 1)"
    and "lx_fromISO lx (iso_date d) tz = Some (mid d)"
    and "four_digit_day b \<Longrightarrow> lx_diffDays lx tz (mid d) (mid b) = of_int (d - b)"
  using assms by (auto simp: luxon_zone_def)

lemma luxon_zone_midnight:
  assumes "luxon_zone lx tz mid" and "four_digit_day d"
  shows "lx_startOfDay lx tz (mid d) = mid d" "lx_toISODate lx tz (mid d) = iso_date d"
    "lx_weekday lx tz (mid d) = iso_weekday d"
  using luxon_zoneD [OF assms] by simp_all

lemma luxon_zone_mono:
  assumes "luxon_zone lx tz mid" and "a \<le> b" and "four_digit_day a" and "four_digit_day b"
  shows "mid a \<le> mid b"
  using assms(2-)
proof (induction b rule: int_ge_induct)
  case base
  then show ?case by simp
next
  case (step i)
  then have "four_digit_day i" by (simp add: four_digit_day_def)
  with step luxon_zoneD(1) [OF assms(1)] show ?case by (meson less_imp_le order_trans)
qed

lemma luxon_zone_less_iff:
  assumes "luxon_zone lx tz mid" and "four_digit_day a" and "four_digit_day b"
  shows "mid a < mid b \<longleftrightarrow> a < b"
proof
  assume "mid a < mid b"
  then show "a < b"
    using luxon_zone_mono [OF assms(1) _ assms(3,2)] by (meson not_less)
next
  assume "a < b"
  then have "four_digit_day (a + 1)" "a + 1 \<le> b"
    using assms(2,3) by (simp_all add: four_digit_day_def)
  then show "mid a < mid b"
    using luxon_zone_mono [OF assms(1), of "a + 1" b] assms(2,3) luxon_zoneD(1) [OF assms(1,2)]
    by (meson less_le_trans)
qed

lemma luxon_zone_le_iff:
  assumes "luxon_zone lx tz mid" and "four_digit_day a" and "four_digit_day b"
  shows "mid a \<le> mid b \<longleftrightarrow> a \<le> b"
  using luxon_zone_less_iff [OF assms(1,3,2)] by (meson not_less)

section \<open>A zone with one change of its offset\<close>

text \<open>
  Before the instant \<open>T\<close> the local time is \<open>p\<close> milliseconds ahead of UTC, from then on
  \<open>q\<close>.  A local time that the change skips is read with the offset before it.
\<close>

definition to_local :: "int \<Rightarrow> int \<Rightarrow> int \<Rightarrow> int \<Rightarrow> int" where
  "to_local T p q t = t + (if t < T then p else q)"

definition of_local :: "int \<Rightarrow> int \<Rightarrow> int \<Rightarrow> int \<Rightarrow> int" where
  "of_local T p q l = (if l - p < T \<or> l - q < T then l - p else l - q)"

definition local_midnight :: "int \<Rightarrow> int \<Rightarrow> int \<Rightarrow> int \<Rightarrow> int" where
  "local_midnight T p q d = of_local T p q (d * ms_per_day)"

text \<open>The reading of a text of the form of \<open>toISOString\<close>, and of a date.\<close>

definition read_instant :: "string \<Rightarrow> int option" where
  "read_instant s =
    (case (utc_midnight (take 10 s), digits_value (take 2 (drop 11 s)),
           digits_value (take 2 (drop 14 s)), digits_value (take 2 (drop 17 s)),
           digits_value (take 3 (drop 20 s))) of
       (Some n, Some h, Some m, Some sec, Some ms) \<Rightarrow>
         Some (n + h * 3600000 + m * 60000 + sec * 1000 + ms)
     | _ \<Rightarrow> None)"

definition zone_clock :: "int \<Rightarrow> int \<Rightarrow> int \<Rightarrow> luxon" where
  "zone_clock T p q =
    \<lparr> lx_fromISO = (\<lambda>s tz. map_option (\<lambda>n. of_local T p q n) (utc_midnight s)),
      lx_fromISOSetZone = read_instant,
      lx_startOfDay = (\<lambda>tz t. local_midnight T p q (to_local T p q t div ms_per_day)),
      lx_plusDays = (\<lambda>tz t n. of_local T p q (to_local T p q t + n * ms_per_day)),
      lx_plusHours = (\<lambda>t n. t + n * 3600000),
      lx_plusMinutes = (\<lambda>t r. t + \<lfloor>r * 60000\<rfloor>),
      lx_diffMinutes = (\<lambda>a b. of_int (a - b) / 60000),
      lx_diffDays = (\<lambda>tz a b. of_int (to_local T p q a - to_local T p q b) / 86400000),
      lx_setTime = (\<lambda>tz t h m. of_local T p q
        (to_local T p q t div ms_per_day * ms_per_day + (h * 60 + m) * ms_per_min)),
      lx_hour = (\<lambda>tz t. to_local T p q t mod ms_per_day div 3600000),
      lx_minute = (\<lambda>tz t. to_local T p q t mod 3600000 div ms_per_min),
      lx_weekday = (\<lambda>tz t. iso_weekday (to_local T p q t div ms_per_day)),
      lx_toISODate = (\<lambda>tz t. iso_date (to_local T p q t div ms_per_day)),
      lx_toUTCISO = toISOString \<rparr>"

text \<open>No midnight falls into the local times that the change skips or repeats.\<close>

definition midnight_clear :: "int \<Rightarrow> int \<Rightarrow> int \<Rightarrow> bool" where
  "midnight_clear T p q \<longleftrightarrow>
     (\<forall>d. \<not> (T + min p q \<le> d * ms_per_day \<and> d * ms_per_day < T + max p q))"

lemma midnight_clear_fixed [simp]: "midnight_clear T p p"
  by (simp add: midnight_clear_def)

lemma local_midnight_cases:
  assumes "midnight_clear T p q"
  shows "local_midnight T p q d =
    (if d * ms_per_day < T + p then d * ms_per_day - p else d * ms_per_day - q)"
    and "d * ms_per_day < T + p \<longleftrightarrow> d * ms_per_day < T + q"
proof -
  have "\<not> (T + min p q \<le> d * ms_per_day \<and> d * ms_per_day < T + max p q)"
    using assms by (simp add: midnight_clear_def)
  then show iff: "d * ms_per_day < T + p \<longleftrightarrow> d * ms_per_day < T + q"
    by (auto simp: min_def max_def split: if_splits)
  then show "local_midnight T p q d =
      (if d * ms_per_day < T + p then d * ms_per_day - p else d * ms_per_day - q)"
    by (auto simp: local_midnight_def of_local_def)
qed

lemma to_local_midnight:
  assumes "midnight_clear T p q"
  shows "to_local T p q (local_midnight T p q d) = d * ms_per_day"
  using local_midnight_cases [OF assms, of d] by (auto simp: to_local_def)

lemma local_day:
  assumes "midnight_clear T p q"
    and "local_midnight T p q d \<le> t" and "t < local_midnight T p q (d + 1)"
  shows "to_local T p q t div ms_per_day = d"
proof -
  have "d * ms_per_day \<le> to_local T p q t \<and> to_local T p q t < (d + 1) * ms_per_day"
    using local_midnight_cases [OF assms(1), of d] local_midnight_cases [OF assms(1), of "d + 1"]
      assms(2,3)
    by (auto simp: to_local_def split: if_splits)
  then show ?thesis
    by (intro int_div_pos_eq [where r = "to_local T p q t - d * ms_per_day"])
      (auto simp: algebra_simps)
qed

lemma of_local_shift:
  assumes "midnight_clear T p q"
  shows "of_local T p q (to_local T p q (local_midnight T p q d) + n * ms_per_day) =
    local_midnight T p q (d + n)"
  by (simp only: to_local_midnight [OF assms]) (simp only: local_midnight_def distrib_right)

lemma local_midnight_less:
  assumes "midnight_clear T p q" "\<bar>p - q\<bar> < ms_per_day"
  shows "local_midnight T p q d < local_midnight T p q (d + 1)"
  using local_midnight_cases [OF assms(1), of d] local_midnight_cases [OF assms(1), of "d + 1"]
    assms(2)
  by (auto simp: algebra_simps split: if_splits)

lemma zone_clock_zone:
  assumes "midnight_clear T p q" "\<bar>p - q\<bar> < ms_per_day"
  shows "luxon_zone (zone_clock T p q) tz (local_midnight T p q)"
proof -
  have "lx_diffDays (zone_clock T p q) tz (local_midnight T p q a) (local_midnight T p q b) =
      of_int (a - b)" for a b
  proof -
    have "(of_int (a * ms_per_day - b * ms_per_day) :: rat) = of_int (a - b) * 86400000"
      by (simp add: algebra_simps)
    then show ?thesis by (simp add: zone_clock_def to_local_midnight [OF assms(1)])
  qed
  then show ?thesis
    using local_midnight_less [OF assms] local_day [OF assms(1)] of_local_shift [OF assms(1), of _ 1]
    by (auto simp: luxon_zone_def zone_clock_def utc_midnight_iso_date local_midnight_def)
qed

lemma minutes_of_ms:
  fixes r :: int
  shows "r div 3600000 * 60 + r mod 3600000 div ms_per_min = r div ms_per_min"
proof -
  have "r = r mod 3600000 + (r div 3600000 * 60) * ms_per_min"
    using div_mult_mod_eq [of r 3600000] by linarith
  then have "r div ms_per_min = (r mod 3600000 + (r div 3600000 * 60) * ms_per_min) div ms_per_min"
    by (rule arg_cong)
  also have "\<dots> = r div 3600000 * 60 + r mod 3600000 div ms_per_min"
    by (subst div_mult_self1) simp_all
  finally show ?thesis ..
qed

text \<open>Every day that the change does not touch is regular.\<close>

lemma zone_clock_regular:
  assumes "midnight_clear T p q"
    and "(d + 1) * ms_per_day \<le> T + p \<or> T + p \<le> d * ms_per_day"
    and "(d + 1) * ms_per_day \<le> T + q \<or> T + q \<le> d * ms_per_day"
    and "(d + 1) * ms_per_day < T + p \<or> T + q \<le> d * ms_per_day"
  shows "regular_day (zone_clock T p q) tz (local_midnight T p q) d"
proof -
  let ?m = "local_midnight T p q"
  define o' where "o' = (if d * ms_per_day < T + p then p else q)"
  have m: "?m d = d * ms_per_day - o'"
    using local_midnight_cases(1) [OF assms(1), of d] by (simp add: o'_def)
  have m': "?m (d + 1) = (d + 1) * ms_per_day - o'"
    using local_midnight_cases [OF assms(1), of "d + 1"] local_midnight_cases(2) [OF assms(1), of d]
      assms(2-4) by (auto simp: o'_def)
  have loc: "to_local T p q t = t + o'" if "?m d \<le> t" "t < ?m (d + 1)" for t
    using that m m' local_midnight_cases(2) [OF assms(1), of d] assms(2-4)
    by (auto simp: to_local_def o'_def split: if_splits)
  have set: "of_local T p q (d * ms_per_day + k) = d * ms_per_day + k - o'"
    if "0 \<le> k" "k < ms_per_day" for k
    using that local_midnight_cases(2) [OF assms(1), of d] assms(2-4)
    by (auto simp: of_local_def o'_def algebra_simps split: if_splits)
  have lt: "(h * 60 + m) * ms_per_min < ms_per_day" if "h < 24" "m < 60" for h m :: int
    using that by simp
  have hm: "x mod ms_per_day div 3600000 * 60 + x mod 3600000 div ms_per_min =
      (x - d * ms_per_day) div ms_per_min"
    if "d * ms_per_day \<le> x" "x < (d + 1) * ms_per_day" for x
  proof -
    obtain r where x: "x = r + d * ms_per_day" by (metis diff_add_cancel)
    with that have r: "0 \<le> r" "r < ms_per_day" by (simp_all add: algebra_simps)
    have "x mod ms_per_day = r" unfolding x using r by (subst mod_mult_self1) simp
    moreover have "x mod 3600000 = r mod 3600000"
      using mod_mult_self1 [of r "d * 24" 3600000] by (simp add: x mult.commute)
    ultimately show ?thesis by (simp only: minutes_of_ms) (simp add: x)
  qed
  have "to_local T p q (?m d) div ms_per_day = d"
    by (simp add: to_local_midnight [OF assms(1)])
  then have "lx_setTime (zone_clock T p q) tz (?m d) h n = ?m d + (h * 60 + n) * ms_per_min"
    if "0 \<le> h" "h < 24" "0 \<le> n" "n < 60" for h n
    using set [of "(h * 60 + n) * ms_per_min"] that lt [of h n] m by (simp add: zone_clock_def)
  moreover have "lx_hour (zone_clock T p q) tz t * 60 + lx_minute (zone_clock T p q) tz t =
      (t - ?m d) div ms_per_min" if t: "?m d \<le> t" "t < ?m (d + 1)" for t
  proof -
    have "d * ms_per_day \<le> t + o'" "t + o' < (d + 1) * ms_per_day" using t m m' by linarith+
    from hm [OF this] have "(t + o') mod ms_per_day div 3600000 * 60 +
        (t + o') mod 3600000 div ms_per_min = (t - ?m d) div ms_per_min"
      by (simp only: m diff_diff_eq2 add.commute)
    then show ?thesis by (simp only: zone_clock_def luxon.select_convs loc [OF t])
  qed
  moreover have "?m (d + 1) = ?m d + ms_per_day" using m m' by (simp add: algebra_simps)
  ultimately show ?thesis unfolding regular_day_def by blast
qed

lemma digits_value_pad_int:
  "0 \<le> n \<Longrightarrow> n < 10 ^ k \<Longrightarrow> digits_value (pad k (nat n)) = Some n"
  using digits_value_pad [of "nat n" k] by (simp add: nat_less_iff)

lemma ms_split:
  fixes r :: int
  shows "r div 3600000 * 3600000 + r div 60000 mod 60 * 60000 + r div 1000 mod 60 * 1000 + r mod 1000 = r"
proof -
  have "r div 60000 = r div 3600000 * 60 + r div 60000 mod 60"
    using div_mult_mod_eq [of "r div 60000" 60] zdiv_zmult2_eq [of 60 r 60000] by simp
  moreover have "r div 1000 = r div 60000 * 60 + r div 1000 mod 60"
    using div_mult_mod_eq [of "r div 1000" 60] zdiv_zmult2_eq [of 60 r 1000] by simp
  ultimately show ?thesis using div_mult_mod_eq [of r 1000] by linarith
qed

lemma read_instant_iso:
  assumes "four_digit_day (t div ms_per_day)"
  shows "read_instant (toISOString t) = Some t"
proof -
  define r where "r = t mod ms_per_day"
  define h m sec where "h = nat (r div 3600000)" and "m = nat (r div 60000 mod 60)"
    and "sec = nat (r div 1000 mod 60)"
  have r: "0 \<le> r" "r < ms_per_day" by (simp_all add: r_def)
  have "r div 3600000 < 24" "0 \<le> r div 3600000"
    using r by (simp_all add: pos_imp_zdiv_nonneg_iff)
  then have v: "digits_value (pad 2 (nat (r div 3600000))) = Some (r div 3600000)"
    "digits_value (pad 2 (nat (r div 60000 mod 60))) = Some (r div 60000 mod 60)"
    "digits_value (pad 2 (nat (r div 1000 mod 60))) = Some (r div 1000 mod 60)"
    "digits_value (pad 3 (nat (r mod 1000))) = Some (r mod 1000)"
    by (intro digits_value_pad_int; simp add: order.strict_trans2 [OF pos_mod_bound])+
  have s: "toISOString t = iso_date (t div ms_per_day) @ ''T'' @ pad 2 (nat (r div 3600000)) @
      '':'' @ pad 2 (nat (r div 60000 mod 60)) @ '':'' @ pad 2 (nat (r div 1000 mod 60)) @ ''.'' @
      pad 3 (nat (r mod 1000)) @ ''Z''"
    by (simp add: toISOString_def Let_def r_def del: pad.simps)
  have "take 10 (toISOString t) = iso_date (t div ms_per_day)"
    "take 2 (drop 11 (toISOString t)) = pad 2 (nat (r div 3600000))"
    "take 2 (drop 14 (toISOString t)) = pad 2 (nat (r div 60000 mod 60))"
    "take 2 (drop 17 (toISOString t)) = pad 2 (nat (r div 1000 mod 60))"
    "take 3 (drop 20 (toISOString t)) = pad 3 (nat (r mod 1000))"
    unfolding s by (simp_all add: length_iso_date [OF assms] del: pad.simps)
  then have "read_instant (toISOString t) = Some (t div ms_per_day * ms_per_day +
      r div 3600000 * 3600000 + r div 60000 mod 60 * 60000 + r div 1000 mod 60 * 1000 + r mod 1000)"
    by (simp only: read_instant_def utc_midnight_iso_date [OF assms] v option.case prod.case)
  also have "\<dots> = Some (t div ms_per_day * ms_per_day + (r div 3600000 * 3600000 +
      r div 60000 mod 60 * 60000 + r div 1000 mod 60 * 1000 + r mod 1000))"
    by (simp only: add.assoc)
  also have "\<dots> = Some t"
    by (simp only: ms_split) (simp only: r_def div_mult_mod_eq)
  finally show ?thesis .
qed

lemma zone_clock_instants: "luxon_instants (zone_clock T p q)"
proof -
  have "\<lfloor>(of_int k :: rat) * 60000\<rfloor> = k * ms_per_min" for k
    using floor_of_int [of "k * 60000", where 'a = rat] by simp
  then show ?thesis
    by (simp add: luxon_instants_def zone_clock_def read_instant_iso)
qed

end
