(* ===== verification/Schema.thy ===== *)
theory Schema
  imports Prelude
begin

text \<open>
  The data model of \<open>prisma/schema.prisma\<close>: the enums, one record per model with the
  columns the code reads or writes, and the state \<open>world\<close> that holds the tables, the queue
  of notification jobs and the log of calls to outside services.  The columns \<open>createdAt\<close>
  and \<open>updatedAt\<close>, which the database fills itself, are kept only where the code reads
  them.

  The writes that can break a constraint of the schema (a unique column, a foreign key)
  are the definitions \<open>..._create\<close>, \<open>..._update\<close> and \<open>..._delete\<close>; they give
  the database error in that case.  \<open>constraints_ok\<close> is the conjunction of the constraints,
  and each of these writes is shown to keep it.
\<close>

section \<open>JSON values\<close>

text \<open>The values of response bodies and of Json columns, with \<open>undefined\<close> and dates.\<close>

datatype json =
    JUndefined
  | JNull
  | JBool bool
  | JNum int
  | JStr string
  | JDate int
  | JArr "json list"
  | JObj "(string \<times> json) list"

section \<open>Enums and models\<close>

datatype locationType = IN_PERSON | GOOGLE_MEET | PHONE
datatype bookingStatus = CONFIRMED | CANCELLED
datatype cancelledBy = CLIENT | BY_COACH
datatype coachRole = ADMIN | COACH

record coach =
  c_id :: string
  c_email :: string
  c_passwordHash :: string
  c_name :: string
  c_preferredLocale :: string
  c_role :: coachRole
  c_sessionsRevokedAt :: "int option"
  c_frontendUrl :: "string option"

record eventType =
  et_id :: string
  et_coachId :: string
  et_title :: string
  et_description :: "string option"
  et_durationMinutes :: int
  et_locations :: "locationType list"
  et_price :: "int option"
  et_position :: int
  et_isActive :: bool

record weeklyAvailability =
  w_id :: string
  w_coachId :: string
  w_weekday :: int
  w_startMinute :: int
  w_endMinute :: int

record availabilityOverride =
  o_id :: string
  o_coachId :: string
  o_date :: int
  o_isUnavailable :: bool
  o_startMinute :: "int option"
  o_endMinute :: "int option"

record booking =
  b_id :: string
  b_eventTypeId :: string
  b_coachId :: string
  b_startAt :: int
  b_endAt :: int
  b_location :: locationType
  b_clientName :: string
  b_clientEmail :: string
  b_clientPhone :: string
  b_clientNote :: "string option"
  b_locale :: string
  b_status :: bookingStatus
  b_cancelledBy :: "cancelledBy option"
  b_cancellationReason :: "string option"
  b_manageToken :: string
  b_googleEventId :: "string option"
  b_meetLink :: "string option"
  b_originUrl :: "string option"

record settings =
  s_coachId :: string
  s_businessAddress :: string
  s_cancellationNoticeHours :: int
  s_businessTimezone :: string
  s_emailFrom :: "string option"
  s_brandName :: "string option"
  s_brandTagline :: "string option"
  s_emailBrandPalette :: "json option"

record googleIntegration =
  g_coachId :: string
  g_refreshTokenEncrypted :: string
  g_connectedEmail :: string
  g_connectedAt :: int

record allowedOrigin =
  ao_id :: string
  ao_origin :: string
  ao_label :: "string option"
  ao_createdAt :: int

section \<open>Jobs, outside calls, and the state\<close>

datatype notificationKind = Confirmed | Cancelled | Rescheduled

record job =
  j_bookingId :: string
  j_coachId :: string
  j_kind :: notificationKind

record mail =
  m_from :: "string option"  \<comment> \<open>a sender of the coach's own domain; None is the shared sender\<close>
  m_to :: string
  m_subject :: string
  m_html :: string
  m_attachment :: "(string \<times> string) option"

record calendarEvent =
  ce_summary :: string
  ce_description :: "string option"
  ce_start :: string
  ce_end :: string
  ce_attendees :: "string list"
  ce_requestId :: string

datatype external =
    CalendarInsert string string calendarEvent  \<comment> \<open>coach, the id of the event created, its content\<close>
  | CalendarDelete string string  \<comment> \<open>coach, the event whose deletion was asked for\<close>
  | MailSent mail

record world =
  coaches :: "coach list"
  eventTypes :: "eventType list"
  weeklies :: "weeklyAvailability list"
  overrides :: "availabilityOverride list"
  bookings :: "booking list"
  settingsRows :: "settings list"
  googleIntegrations :: "googleIntegration list"
  allowedOrigins :: "allowedOrigin list"
  jobs :: "job list"
  externals :: "external list"

definition empty_world :: world where
  "empty_world = \<lparr> coaches = [], eventTypes = [], weeklies = [], overrides = [], bookings = [],
     settingsRows = [], googleIntegrations = [], allowedOrigins = [], jobs = [], externals = [] \<rparr>"

section \<open>Writes under the constraints of the schema\<close>

definition coach_exists :: "string \<Rightarrow> world \<Rightarrow> bool" where
  "coach_exists k w \<longleftrightarrow> k \<in> c_id ` set (coaches w)"

text \<open>Coach: id, email and frontendUrl are unique; a null frontendUrl never clashes.\<close>

definition coach_clash :: "coach \<Rightarrow> coach \<Rightarrow> bool" where
  "coach_clash c c' \<longleftrightarrow> c_email c = c_email c' \<or>
     (c_frontendUrl c \<noteq> None \<and> c_frontendUrl c = c_frontendUrl c')"

definition coach_create :: "coach \<Rightarrow> world \<Rightarrow> (world, coach) outcome" where
  "coach_create c w =
    (if \<exists>c' \<in> set (coaches w). c_id c' = c_id c \<or> coach_clash c' c then (Inl P2002, w)
     else (Inr c, w\<lparr>coaches := createRow c (coaches w)\<rparr>))"

definition coach_update :: "string \<Rightarrow> (coach \<Rightarrow> coach) \<Rightarrow> world \<Rightarrow> (world, coach) outcome" where
  "coach_update k f w =
    (case findUnique c_id k (coaches w) of
       None \<Rightarrow> (Inl P2025, w)
     | Some c \<Rightarrow>
         if \<exists>c' \<in> set (coaches w). c_id c' \<noteq> k \<and> coach_clash c' (f c) then (Inl P2002, w)
         else (Inr (f c), w\<lparr>coaches := updateRow c_id k f (coaches w)\<rparr>))"

text \<open>EventType: its coach exists; deleting it is refused while a booking refers to it.\<close>

definition eventType_create :: "eventType \<Rightarrow> world \<Rightarrow> (world, eventType) outcome" where
  "eventType_create e w =
    (if et_id e \<in> et_id ` set (eventTypes w) then (Inl P2002, w)
     else if \<not> coach_exists (et_coachId e) w then (Inl P2003, w)
     else (Inr e, w\<lparr>eventTypes := createRow e (eventTypes w)\<rparr>))"

definition eventType_update ::
  "string \<Rightarrow> (eventType \<Rightarrow> eventType) \<Rightarrow> world \<Rightarrow> (world, eventType) outcome" where
  "eventType_update k f w =
    (case findUnique et_id k (eventTypes w) of
       None \<Rightarrow> (Inl P2025, w)
     | Some e \<Rightarrow> (Inr (f e), w\<lparr>eventTypes := updateRow et_id k f (eventTypes w)\<rparr>))"

definition eventType_delete :: "string \<Rightarrow> world \<Rightarrow> (world, eventType) outcome" where
  "eventType_delete k w =
    (case findUnique et_id k (eventTypes w) of
       None \<Rightarrow> (Inl P2025, w)
     | Some e \<Rightarrow>
         if k \<in> b_eventTypeId ` set (bookings w) then (Inl P2003, w)
         else (Inr e, w\<lparr>eventTypes := deleteRow et_id k (eventTypes w)\<rparr>))"

text \<open>WeeklyAvailability and AvailabilityOverride: their coach exists.\<close>

definition weekly_create ::
  "weeklyAvailability \<Rightarrow> world \<Rightarrow> (world, weeklyAvailability) outcome" where
  "weekly_create r w =
    (if w_id r \<in> w_id ` set (weeklies w) then (Inl P2002, w)
     else if \<not> coach_exists (w_coachId r) w then (Inl P2003, w)
     else (Inr r, w\<lparr>weeklies := createRow r (weeklies w)\<rparr>))"

definition weekly_update ::
  "string \<Rightarrow> (weeklyAvailability \<Rightarrow> weeklyAvailability) \<Rightarrow> world \<Rightarrow>
   (world, weeklyAvailability) outcome" where
  "weekly_update k f w =
    (case findUnique w_id k (weeklies w) of
       None \<Rightarrow> (Inl P2025, w)
     | Some r \<Rightarrow> (Inr (f r), w\<lparr>weeklies := updateRow w_id k f (weeklies w)\<rparr>))"

definition weekly_delete :: "string \<Rightarrow> world \<Rightarrow> (world, weeklyAvailability) outcome" where
  "weekly_delete k w =
    (case findUnique w_id k (weeklies w) of
       None \<Rightarrow> (Inl P2025, w)
     | Some r \<Rightarrow> (Inr r, w\<lparr>weeklies := deleteRow w_id k (weeklies w)\<rparr>))"

definition override_create ::
  "availabilityOverride \<Rightarrow> world \<Rightarrow> (world, availabilityOverride) outcome" where
  "override_create r w =
    (if o_id r \<in> o_id ` set (overrides w) then (Inl P2002, w)
     else if \<not> coach_exists (o_coachId r) w then (Inl P2003, w)
     else (Inr r, w\<lparr>overrides := createRow r (overrides w)\<rparr>))"

definition override_update ::
  "string \<Rightarrow> (availabilityOverride \<Rightarrow> availabilityOverride) \<Rightarrow> world \<Rightarrow>
   (world, availabilityOverride) outcome" where
  "override_update k f w =
    (case findUnique o_id k (overrides w) of
       None \<Rightarrow> (Inl P2025, w)
     | Some r \<Rightarrow> (Inr (f r), w\<lparr>overrides := updateRow o_id k f (overrides w)\<rparr>))"

definition override_delete :: "string \<Rightarrow> world \<Rightarrow> (world, availabilityOverride) outcome" where
  "override_delete k w =
    (case findUnique o_id k (overrides w) of
       None \<Rightarrow> (Inl P2025, w)
     | Some r \<Rightarrow> (Inr r, w\<lparr>overrides := deleteRow o_id k (overrides w)\<rparr>))"

text \<open>Booking: id and manageToken are unique; its event type and its coach exist.\<close>

definition booking_create :: "booking \<Rightarrow> world \<Rightarrow> (world, booking) outcome" where
  "booking_create b w =
    (if \<exists>b' \<in> set (bookings w). b_id b' = b_id b \<or> b_manageToken b' = b_manageToken b
     then (Inl P2002, w)
     else if b_eventTypeId b \<notin> et_id ` set (eventTypes w) \<or> \<not> coach_exists (b_coachId b) w
     then (Inl P2003, w)
     else (Inr b, w\<lparr>bookings := createRow b (bookings w)\<rparr>))"

definition booking_update :: "string \<Rightarrow> (booking \<Rightarrow> booking) \<Rightarrow> world \<Rightarrow> (world, booking) outcome" where
  "booking_update k f w =
    (case findUnique b_id k (bookings w) of
       None \<Rightarrow> (Inl P2025, w)
     | Some b \<Rightarrow> (Inr (f b), w\<lparr>bookings := updateRow b_id k f (bookings w)\<rparr>))"

text \<open>AllowedOrigin: id and origin are unique.\<close>

definition origin_create :: "allowedOrigin \<Rightarrow> world \<Rightarrow> (world, allowedOrigin) outcome" where
  "origin_create a w =
    (if \<exists>a' \<in> set (allowedOrigins w). ao_id a' = ao_id a \<or> ao_origin a' = ao_origin a
     then (Inl P2002, w)
     else (Inr a, w\<lparr>allowedOrigins := createRow a (allowedOrigins w)\<rparr>))"

definition origin_delete :: "string \<Rightarrow> world \<Rightarrow> (world, allowedOrigin) outcome" where
  "origin_delete k w =
    (case findUnique ao_id k (allowedOrigins w) of
       None \<Rightarrow> (Inl P2025, w)
     | Some a \<Rightarrow> (Inr a, w\<lparr>allowedOrigins := deleteRow ao_id k (allowedOrigins w)\<rparr>))"

section \<open>The constraints\<close>

text \<open>No two coaches share a site: \<open>frontendUrl\<close> is unique where it is set.\<close>

definition sites_unique :: "coach list \<Rightarrow> bool" where
  "sites_unique cs \<longleftrightarrow> (\<forall>c \<in> set cs. \<forall>c' \<in> set cs.
     c_frontendUrl c \<noteq> None \<and> c_frontendUrl c = c_frontendUrl c' \<longrightarrow> c_id c = c_id c')"

definition constraints_ok :: "world \<Rightarrow> bool" where
  "constraints_ok w \<longleftrightarrow>
     distinct (map c_id (coaches w)) \<and> distinct (map c_email (coaches w)) \<and>
     sites_unique (coaches w) \<and>
     distinct (map et_id (eventTypes w)) \<and> distinct (map w_id (weeklies w)) \<and>
     distinct (map o_id (overrides w)) \<and> distinct (map b_id (bookings w)) \<and>
     distinct (map b_manageToken (bookings w)) \<and>
     distinct (map s_coachId (settingsRows w)) \<and>
     distinct (map g_coachId (googleIntegrations w)) \<and>
     distinct (map ao_id (allowedOrigins w)) \<and> distinct (map ao_origin (allowedOrigins w)) \<and>
     (\<forall>e \<in> set (eventTypes w). coach_exists (et_coachId e) w) \<and>
     (\<forall>r \<in> set (weeklies w). coach_exists (w_coachId r) w) \<and>
     (\<forall>r \<in> set (overrides w). coach_exists (o_coachId r) w) \<and>
     (\<forall>b \<in> set (bookings w). coach_exists (b_coachId b) w \<and>
        b_eventTypeId b \<in> et_id ` set (eventTypes w)) \<and>
     (\<forall>r \<in> set (settingsRows w). coach_exists (s_coachId r) w) \<and>
     (\<forall>r \<in> set (googleIntegrations w). coach_exists (g_coachId r) w)"

text \<open>Each write keeps the constraints.  The bundle unfolds a write and its error branches.\<close>

lemmas write_defs =
  coach_create_def coach_update_def eventType_create_def eventType_update_def
  eventType_delete_def weekly_create_def weekly_update_def weekly_delete_def
  override_create_def override_update_def override_delete_def booking_create_def
  booking_update_def origin_create_def origin_delete_def

lemma coach_exists_createRow:
  "coach_exists k (w\<lparr>coaches := createRow c (coaches w)\<rparr>) \<longleftrightarrow> k = c_id c \<or> coach_exists k w"
  by (auto simp: coach_exists_def)

lemma coach_exists_updateRow:
  "(\<And>c. c_id (f c) = c_id c) \<Longrightarrow>
   coach_exists k (w\<lparr>coaches := updateRow c_id k' f (coaches w)\<rparr>) \<longleftrightarrow> coach_exists k w"
  by (simp add: coach_exists_def image_updateRow)

lemma coach_exists_frame [simp]:
  "coach_exists k (w\<lparr>eventTypes := x1\<rparr>) = coach_exists k w"
  "coach_exists k (w\<lparr>weeklies := x2\<rparr>) = coach_exists k w"
  "coach_exists k (w\<lparr>overrides := x3\<rparr>) = coach_exists k w"
  "coach_exists k (w\<lparr>bookings := x4\<rparr>) = coach_exists k w"
  "coach_exists k (w\<lparr>settingsRows := x5\<rparr>) = coach_exists k w"
  "coach_exists k (w\<lparr>googleIntegrations := x6\<rparr>) = coach_exists k w"
  "coach_exists k (w\<lparr>allowedOrigins := x7\<rparr>) = coach_exists k w"
  "coach_exists k (w\<lparr>jobs := x8\<rparr>) = coach_exists k w"
  "coach_exists k (w\<lparr>externals := x9\<rparr>) = coach_exists k w"
  by (simp_all add: coach_exists_def)

lemma coach_exists_found: "findUnique c_id k (coaches w) = Some c \<Longrightarrow> coach_exists k w"
  by (auto simp: coach_exists_def dest: findUnique_Some)

lemma constraints_frame [simp]:
  "constraints_ok (w\<lparr>jobs := x\<rparr>) = constraints_ok w"
  "constraints_ok (w\<lparr>externals := y\<rparr>) = constraints_ok w"
  by (simp_all add: constraints_ok_def)

lemma constraints_empty: "constraints_ok empty_world"
  by (simp add: constraints_ok_def empty_world_def sites_unique_def)

lemma coach_create_ok:
  assumes "constraints_ok w" "coach_create c w = (x, w')"
  shows "constraints_ok w'"
proof (cases x)
  case (Inl e)
  with assms show ?thesis by (auto simp: coach_create_def split: if_splits)
next
  case (Inr c')
  with assms(2) have n: "\<And>d. d \<in> set (coaches w) \<Longrightarrow> c_id d \<noteq> c_id c \<and> \<not> coach_clash d c"
    and w': "w' = w\<lparr>coaches := createRow c (coaches w)\<rparr>"
    by (auto simp: coach_create_def split: if_splits)
  have "c_id c \<notin> c_id ` set (coaches w)" "c_email c \<notin> c_email ` set (coaches w)"
    using n by (force simp: coach_clash_def)+
  moreover have "sites_unique (createRow c (coaches w))"
    using assms(1) n unfolding constraints_ok_def sites_unique_def coach_clash_def
    by (metis insertE set_createRow)
  ultimately show ?thesis
    using assms(1) unfolding constraints_ok_def w' by (auto simp: coach_exists_createRow)
qed

lemma eventType_create_ok:
  "constraints_ok w \<Longrightarrow> eventType_create e w = (x, w') \<Longrightarrow> constraints_ok w'"
  by (auto simp: eventType_create_def constraints_ok_def split: if_splits)

lemma weekly_create_ok:
  "constraints_ok w \<Longrightarrow> weekly_create r w = (x, w') \<Longrightarrow> constraints_ok w'"
  by (auto simp: weekly_create_def constraints_ok_def split: if_splits)

lemma override_create_ok:
  "constraints_ok w \<Longrightarrow> override_create r w = (x, w') \<Longrightarrow> constraints_ok w'"
  by (auto simp: override_create_def constraints_ok_def split: if_splits)

lemma no_clash_images:
  "\<not> (\<exists>r \<in> set t. f r = f x \<or> g r = g x) \<longleftrightarrow> f x \<notin> f ` set t \<and> g x \<notin> g ` set t"
  by (auto simp: image_iff)

lemma booking_create_ok:
  "constraints_ok w \<Longrightarrow> booking_create b w = (x, w') \<Longrightarrow> constraints_ok w'"
  using no_clash_images [of "bookings w" b_id b b_manageToken]
  by (auto simp: booking_create_def constraints_ok_def split: if_splits)

lemma origin_create_ok:
  "constraints_ok w \<Longrightarrow> origin_create a w = (x, w') \<Longrightarrow> constraints_ok w'"
  using no_clash_images [of "allowedOrigins w" ao_id a ao_origin]
  by (auto simp: origin_create_def constraints_ok_def split: if_splits)

lemma weekly_delete_ok:
  "constraints_ok w \<Longrightarrow> weekly_delete k w = (x, w') \<Longrightarrow> constraints_ok w'"
  by (auto simp: weekly_delete_def constraints_ok_def distinct_deleteRow split: option.splits)

lemma override_delete_ok:
  "constraints_ok w \<Longrightarrow> override_delete k w = (x, w') \<Longrightarrow> constraints_ok w'"
  by (auto simp: override_delete_def constraints_ok_def distinct_deleteRow split: option.splits)

lemma origin_delete_ok:
  "constraints_ok w \<Longrightarrow> origin_delete k w = (x, w') \<Longrightarrow> constraints_ok w'"
  by (auto simp: origin_delete_def constraints_ok_def distinct_deleteRow split: option.splits)

lemma eventType_delete_ok:
  assumes "constraints_ok w" "eventType_delete k w = (x, w')"
  shows "constraints_ok w'"
proof (cases x)
  case (Inl e)
  with assms show ?thesis by (auto simp: eventType_delete_def split: option.splits if_splits)
next
  case (Inr e)
  with assms(2) have w': "w' = w\<lparr>eventTypes := deleteRow et_id k (eventTypes w)\<rparr>"
    and k: "\<And>b. b \<in> set (bookings w) \<Longrightarrow> b_eventTypeId b \<noteq> k"
    by (auto simp: eventType_delete_def split: option.splits if_splits)
  have "b_eventTypeId b \<in> et_id ` set (deleteRow et_id k (eventTypes w))" if "b \<in> set (bookings w)" for b
    using assms(1) k [OF that] that by (fastforce simp: constraints_ok_def)
  with assms(1) show ?thesis
    unfolding constraints_ok_def w' by (auto simp: distinct_deleteRow)
qed

text \<open>An update keeps the constraints when it keeps the constrained columns of its row.\<close>

lemma coach_update_ok:
  assumes "constraints_ok w" "coach_update k f w = (x, w')"
    and f: "\<And>c. c_id (f c) = c_id c"
  shows "constraints_ok w'"
proof (cases x)
  case (Inl e)
  with assms show ?thesis by (auto simp: coach_update_def split: option.splits if_splits)
next
  case (Inr c')
  with assms(2) obtain c where c: "findUnique c_id k (coaches w) = Some c"
    and w': "w' = w\<lparr>coaches := updateRow c_id k f (coaches w)\<rparr>"
    and n: "\<And>d. d \<in> set (coaches w) \<Longrightarrow> c_id d \<noteq> k \<Longrightarrow> \<not> coach_clash d (f c)"
    by (auto simp: coach_update_def split: option.splits if_splits)
  have ids: "distinct (map c_id (coaches w))" "distinct (map c_email (coaches w))"
    and sites: "sites_unique (coaches w)" using assms(1) by (simp_all add: constraints_ok_def)
  have only: "d = c" if "d \<in> set (coaches w)" "c_id d = k" for d
    using findUnique_distinct [OF ids(1) that(1)] that(2) c by simp
  let ?t = "updateRow c_id k f (coaches w)"
  have mem: "d = f c \<or> (d \<in> set (coaches w) \<and> c_id d \<noteq> k)" if "d \<in> set ?t" for d
    using updateRow_mem [OF that] only by auto
  have "distinct (map c_email ?t)"
    unfolding distinct_map
  proof (intro conjI inj_onI)
    show "distinct ?t"
      using ids(1) map_updateRow_same [of "coaches w" c_id k c_id f] f by (metis distinct_map)
  next
    fix d d' assume "d \<in> set ?t" "d' \<in> set ?t" "c_email d = c_email d'"
    with mem [of d] mem [of d'] n show "d = d'"
      using ids(2) by (auto simp: coach_clash_def distinct_map inj_on_def) metis+
  qed
  moreover have "sites_unique ?t"
    unfolding sites_unique_def
  proof (intro ballI impI)
    fix d d' assume "d \<in> set ?t" "d' \<in> set ?t"
      and "c_frontendUrl d \<noteq> None \<and> c_frontendUrl d = c_frontendUrl d'"
    moreover have "c_frontendUrl e \<noteq> c_frontendUrl (f c)"
      if "e \<in> set (coaches w)" "c_id e \<noteq> k" "c_frontendUrl e \<noteq> None" for e
      using n [OF that(1,2)] that(3) by (auto simp: coach_clash_def)
    ultimately show "c_id d = c_id d'"
      using mem [of d] mem [of d'] sites unfolding sites_unique_def by metis
  qed
  moreover have "map c_id ?t = map c_id (coaches w)" by (rule map_updateRow_same) (simp add: f)
  ultimately show ?thesis
    using assms(1) f unfolding constraints_ok_def w' by (simp add: coach_exists_updateRow)
qed

lemma eventType_update_ok:
  assumes "constraints_ok w" "eventType_update k f w = (x, w')"
    and f: "\<And>e. et_id (f e) = et_id e" "\<And>e. et_coachId (f e) = et_coachId e"
  shows "constraints_ok w'"
proof -
  have "map et_id (updateRow et_id k f (eventTypes w)) = map et_id (eventTypes w)"
    and "et_id ` set (updateRow et_id k f (eventTypes w)) = et_id ` set (eventTypes w)"
    by (rule map_updateRow_same image_updateRow; simp add: f)+
  with assms(1,2) show ?thesis
    by (auto simp: eventType_update_def constraints_ok_def set_updateRow f split: option.splits)
qed

lemma weekly_update_ok:
  assumes "constraints_ok w" "weekly_update k f w = (x, w')"
    and f: "\<And>r. w_id (f r) = w_id r" "\<And>r. w_coachId (f r) = w_coachId r"
  shows "constraints_ok w'"
proof -
  have "map w_id (updateRow w_id k f (weeklies w)) = map w_id (weeklies w)"
    by (rule map_updateRow_same; simp add: f)
  with assms(1,2) show ?thesis
    by (auto simp: weekly_update_def constraints_ok_def set_updateRow f split: option.splits)
qed

lemma override_update_ok:
  assumes "constraints_ok w" "override_update k f w = (x, w')"
    and f: "\<And>r. o_id (f r) = o_id r" "\<And>r. o_coachId (f r) = o_coachId r"
  shows "constraints_ok w'"
proof -
  have "map o_id (updateRow o_id k f (overrides w)) = map o_id (overrides w)"
    by (rule map_updateRow_same; simp add: f)
  with assms(1,2) show ?thesis
    by (auto simp: override_update_def constraints_ok_def set_updateRow f split: option.splits)
qed

lemma booking_update_ok:
  assumes "constraints_ok w" "booking_update k f w = (x, w')"
    and f: "\<And>b. b_id (f b) = b_id b" "\<And>b. b_manageToken (f b) = b_manageToken b"
      "\<And>b. b_coachId (f b) = b_coachId b" "\<And>b. b_eventTypeId (f b) = b_eventTypeId b"
  shows "constraints_ok w'"
proof -
  have "map b_id (updateRow b_id k f (bookings w)) = map b_id (bookings w)"
    "map b_manageToken (updateRow b_id k f (bookings w)) = map b_manageToken (bookings w)"
    by (rule map_updateRow_same; simp add: f)+
  with assms(1,2) show ?thesis
    by (auto simp: booking_update_def constraints_ok_def set_updateRow f split: option.splits)
qed

text \<open>A coach that has been updated: her row before, and the table after.\<close>

lemma coach_update_InrD:
  assumes "coach_update k f w = (Inr u, w')"
  obtains c where "findUnique c_id k (coaches w) = Some c" "u = f c"
    "w' = w\<lparr>coaches := updateRow c_id k f (coaches w)\<rparr>"
    "\<And>d. d \<in> set (coaches w) \<Longrightarrow> c_id d \<noteq> k \<Longrightarrow> \<not> coach_clash d (f c)"
  using assms by (auto simp: coach_update_def split: option.splits if_splits)

lemma coach_update_InlD: "coach_update k f w = (Inl e, w') \<Longrightarrow> w' = w \<and> (e = P2025 \<or> e = P2002)"
  by (auto simp: coach_update_def split: option.splits if_splits)

text \<open>An update that keeps the email and the site of a coach cannot fail on a constraint.\<close>

lemma coach_no_clash:
  assumes "constraints_ok w" and "d \<in> set (coaches w)" "r \<in> set (coaches w)" "c_id d \<noteq> c_id r"
  shows "\<not> coach_clash d r"
proof -
  have "inj_on c_email (set (coaches w))" "sites_unique (coaches w)"
    using assms(1) by (simp_all add: constraints_ok_def distinct_map)
  with assms(2-4) show ?thesis unfolding coach_clash_def sites_unique_def inj_on_def by metis
qed

lemma coach_update_same:
  assumes "constraints_ok w" and "findUnique c_id k (coaches w) = Some r"
    and "c_email (f r) = c_email r" "c_frontendUrl (f r) = c_frontendUrl r"
  shows "coach_update k f w = (Inr (f r), w\<lparr>coaches := updateRow c_id k f (coaches w)\<rparr>)"
proof -
  have "\<not> coach_clash d (f r)" if "d \<in> set (coaches w)" "c_id d \<noteq> k" for d
    using coach_no_clash [OF assms(1) that(1) findUnique_in [OF assms(2)]] that(2)
      findUnique_key [OF assms(2)] assms(3,4)
    by (simp add: coach_clash_def)
  then show ?thesis using assms(2) by (auto simp: coach_update_def)
qed

end
