(* ===== verification/Common.thy ===== *)
theory Common
  imports Schema
begin

text \<open>
  The utilities of \<open>src/common\<close>: the ownership checks, the retry loop around serializable
  transactions, the database exception filter, the HTML escaping, the removal of password
  hashes from responses, and the origin of a request.

  The locale \<open>guarded_op\<close> is the contract of an operation behind the ownership check;
  the services interpret it for each of their updates and deletions.
\<close>

section \<open>Ownership (ownership.util.ts)\<close>

definition assertCoachOwnsOrIsAdmin ::
  "('r \<Rightarrow> string) \<Rightarrow> coach \<Rightarrow> 'r option \<Rightarrow> message \<Rightarrow> err + 'r" where
  "assertCoachOwnsOrIsAdmin coachIdOf coach row notFoundMessage =
    (case row of
       None \<Rightarrow> Inl (NotFound notFoundMessage)
     | Some r \<Rightarrow>
         if coachIdOf r \<noteq> c_id coach \<and> c_role coach \<noteq> ADMIN then Inl (NotFound notFoundMessage)
         else Inr r)"

text \<open>An optional string is truthy when it is present and not empty.\<close>

definition truthy :: "string option \<Rightarrow> bool" where
  "truthy s \<longleftrightarrow> s \<noteq> None \<and> s \<noteq> Some []"

definition resolveCoachScope :: "coach \<Rightarrow> string option \<Rightarrow> err + string" where
  "resolveCoachScope coach requested =
    (if c_role coach = ADMIN then Inr (case requested of None \<Rightarrow> c_id coach | Some k \<Rightarrow> k)
     else if truthy requested \<and> requested \<noteq> Some (c_id coach)
     then Inl (Forbidden (Text ''Cannot access another coach's data''))
     else Inr (c_id coach))"

lemma assert_owner_InrD:
  "assertCoachOwnsOrIsAdmin own coach row msg = Inr r \<Longrightarrow>
   row = Some r \<and> (own r = c_id coach \<or> c_role coach = ADMIN)"
  by (auto simp: assertCoachOwnsOrIsAdmin_def split: option.splits if_splits)

lemma assert_owner_InlD:
  "assertCoachOwnsOrIsAdmin own coach row msg = Inl e \<Longrightarrow>
   e = NotFound msg \<and> (\<forall>r. row = Some r \<longrightarrow> own r \<noteq> c_id coach \<and> c_role coach \<noteq> ADMIN)"
  by (auto simp: assertCoachOwnsOrIsAdmin_def split: option.splits if_splits)

lemma assert_owner_allow:
  "own r = c_id coach \<or> c_role coach = ADMIN \<Longrightarrow>
   assertCoachOwnsOrIsAdmin own coach (Some r) msg = Inr r"
  by (auto simp: assertCoachOwnsOrIsAdmin_def)

lemma resolve_scope_coach:
  "c_role coach = COACH \<Longrightarrow> resolveCoachScope coach requested = Inr k \<Longrightarrow> k = c_id coach"
  by (auto simp: resolveCoachScope_def split: if_splits)

text \<open>
  An operation on one row behind the check: it is refused without any effect when the row
  is missing or the caller is neither its owner nor an admin, and otherwise it may change
  only rows of that row's owner.  \<open>others c w\<close> is what belongs to coaches other than \<open>c\<close>.
\<close>

locale guarded_op =
  fixes lookup :: "string \<Rightarrow> 'w \<Rightarrow> 'r option"
    and owner :: "'r \<Rightarrow> string"
    and msg :: "coach \<Rightarrow> message"
    and op :: "coach \<Rightarrow> string \<Rightarrow> 'w \<Rightarrow> ('w, 'a) outcome"
    and inv :: "'w \<Rightarrow> bool"
    and others :: "string \<Rightarrow> 'w \<Rightarrow> 'o"
  assumes refused: "assertCoachOwnsOrIsAdmin owner coach (lookup k w) (msg coach) = Inl e \<Longrightarrow>
      op coach k w = (Inl e, w)"
    and confined: "inv w \<Longrightarrow> lookup k w = Some r \<Longrightarrow> op coach k w = (x, w') \<Longrightarrow>
      others (owner r) w' = others (owner r) w"
begin

lemma missing_refused: "lookup k w = None \<Longrightarrow> op coach k w = (Inl (NotFound (msg coach)), w)"
  by (rule refused) (simp add: assertCoachOwnsOrIsAdmin_def)

lemma foreign_refused:
  assumes "lookup k w = Some r" and "owner r \<noteq> c_id coach" and "c_role coach \<noteq> ADMIN"
  shows "op coach k w = (Inl (NotFound (msg coach)), w)"
  by (rule refused) (simp add: assertCoachOwnsOrIsAdmin_def assms)

text \<open>A row of another coach and a missing row cannot be told apart.\<close>

lemma foreign_like_missing:
  assumes "lookup k w = Some r" and "owner r \<noteq> c_id coach" and "c_role coach \<noteq> ADMIN"
    and "lookup k' w = None"
  shows "op coach k w = op coach k' w"
  by (simp add: foreign_refused [OF assms(1-3)] missing_refused [OF assms(4)])

lemma isolation:
  assumes "inv w" and "c_role coach \<noteq> ADMIN" and "op coach k w = (x, w')"
  shows "others (c_id coach) w' = others (c_id coach) w"
proof (cases "lookup k w")
  case None
  with assms(3) show ?thesis by (simp add: missing_refused)
next
  case (Some r)
  show ?thesis
  proof (cases "owner r = c_id coach")
    case True
    with confined [OF assms(1) Some assms(3)] show ?thesis by simp
  next
    case False
    with foreign_refused [OF Some False assms(2)] assms(3) show ?thesis by simp
  qed
qed

end

text \<open>An operation that answers with the row it has changed: a coach sees her own.\<close>

locale guarded_write = guarded_op +
  fixes result_owner :: "'d \<Rightarrow> string"
  assumes result: "inv w \<Longrightarrow> lookup k w = Some r \<Longrightarrow> op coach k w = (Inr a, w') \<Longrightarrow>
      result_owner a = owner r"
begin

lemma own_result:
  assumes "inv w" and "c_role coach \<noteq> ADMIN" and "op coach k w = (Inr a, w')"
  shows "result_owner a = c_id coach"
proof (cases "lookup k w")
  case None
  with assms(3) show ?thesis by (simp add: missing_refused)
next
  case (Some r)
  show ?thesis
  proof (cases "owner r = c_id coach")
    case True
    with result [OF assms(1) Some assms(3)] show ?thesis by simp
  next
    case False
    with foreign_refused [OF Some False assms(2)] assms(3) show ?thesis by simp
  qed
qed

lemma own_write:
  assumes "inv w" and "c_role coach \<noteq> ADMIN" and "op coach k w = (x, w')"
  shows "others (c_id coach) w' = others (c_id coach) w \<and> (\<forall>a. x = Inr a \<longrightarrow> result_owner a = c_id coach)"
  using isolation [OF assms] own_result [OF assms(1,2)] assms(3) by blast

end

text \<open>The state without what belongs to one coach: her rows, her jobs and her calendar.\<close>

fun external_of :: "string \<Rightarrow> external \<Rightarrow> bool" where
  "external_of c (CalendarInsert k _ _) \<longleftrightarrow> k = c"
| "external_of c (CalendarDelete k _) \<longleftrightarrow> k = c"
| "external_of c (MailSent _) \<longleftrightarrow> False"

definition without_coach :: "string \<Rightarrow> world \<Rightarrow> world" where
  "without_coach c w =
    w\<lparr> eventTypes := rowtab.foreign et_coachId c (eventTypes w),
       weeklies := rowtab.foreign w_coachId c (weeklies w),
       overrides := rowtab.foreign o_coachId c (overrides w),
       bookings := rowtab.foreign b_coachId c (bookings w),
       settingsRows := rowtab.foreign s_coachId c (settingsRows w),
       googleIntegrations := rowtab.foreign g_coachId c (googleIntegrations w),
       jobs := rowtab.foreign j_coachId c (jobs w),
       externals := filter (\<lambda>x. \<not> external_of c x) (externals w) \<rparr>"

lemma without_coach_upd:
  assumes "constraints_ok w"
  shows "findUnique et_id k (eventTypes w) = Some e \<Longrightarrow> (\<And>x. et_coachId (f x) = et_coachId x) \<Longrightarrow>
      without_coach (et_coachId e) (w\<lparr>eventTypes := updateRow et_id k f (eventTypes w)\<rparr>) =
      without_coach (et_coachId e) w"
    and "findUnique w_id k (weeklies w) = Some r \<Longrightarrow> (\<And>x. w_coachId (g x) = w_coachId x) \<Longrightarrow>
      without_coach (w_coachId r) (w\<lparr>weeklies := updateRow w_id k g (weeklies w)\<rparr>) =
      without_coach (w_coachId r) w"
    and "findUnique o_id k (overrides w) = Some q \<Longrightarrow> (\<And>x. o_coachId (h x) = o_coachId x) \<Longrightarrow>
      without_coach (o_coachId q) (w\<lparr>overrides := updateRow o_id k h (overrides w)\<rparr>) =
      without_coach (o_coachId q) w"
    and "findUnique b_id k (bookings w) = Some b \<Longrightarrow> (\<And>x. b_coachId (u x) = b_coachId x) \<Longrightarrow>
      without_coach (b_coachId b) (w\<lparr>bookings := updateRow b_id k u (bookings w)\<rparr>) =
      without_coach (b_coachId b) w"
  using assms
  by (simp_all add: without_coach_def constraints_ok_def rowtab.keys_unique_def rowtab.foreign_upd)

lemma without_coach_del:
  assumes "constraints_ok w"
  shows "findUnique et_id k (eventTypes w) = Some e \<Longrightarrow>
      without_coach (et_coachId e) (w\<lparr>eventTypes := deleteRow et_id k (eventTypes w)\<rparr>) =
      without_coach (et_coachId e) w"
    and "findUnique w_id k (weeklies w) = Some r \<Longrightarrow>
      without_coach (w_coachId r) (w\<lparr>weeklies := deleteRow w_id k (weeklies w)\<rparr>) =
      without_coach (w_coachId r) w"
    and "findUnique o_id k (overrides w) = Some q \<Longrightarrow>
      without_coach (o_coachId q) (w\<lparr>overrides := deleteRow o_id k (overrides w)\<rparr>) =
      without_coach (o_coachId q) w"
  using assms
  by (simp_all add: without_coach_def constraints_ok_def rowtab.keys_unique_def rowtab.foreign_del)

section \<open>Serializable transactions (serializable-transaction.util.ts)\<close>

text \<open>
  One run of \<open>prisma.$transaction\<close>: the database may refuse it for a serialization
  failure, and an exception of the callback rolls its writes back.
\<close>

definition transaction :: "bool \<Rightarrow> ('w \<Rightarrow> ('w, 'a) outcome) \<Rightarrow> 'w \<Rightarrow> ('w, 'a) outcome" where
  "transaction refused fn w =
    (if refused then (Inl P2034, w)
     else case fn w of (Inl e, _) \<Rightarrow> (Inl e, w) | (Inr a, w') \<Rightarrow> (Inr a, w'))"

definition serialization_retry_attempts :: nat where
  "serialization_retry_attempts = 3"

definition default_conflict_message :: message where
  "default_conflict_message =
     Text ''Could not complete the request due to a conflicting change, please try again''"

text \<open>
  \<open>refused k\<close> tells whether the database refuses attempt \<open>k\<close>.  The loop runs from an
  attempt to the last one; what follows the loop is its last branch.
\<close>

function attempt_from ::
  "(nat \<Rightarrow> bool) \<Rightarrow> ('w \<Rightarrow> ('w, 'a) outcome) \<Rightarrow> message \<Rightarrow> nat \<Rightarrow> 'w \<Rightarrow> ('w, 'a) outcome" where
  "attempt_from refused fn msg attempt w =
    (if attempt \<le> serialization_retry_attempts then
       (case transaction (refused attempt) fn w of
          (Inr a, w') \<Rightarrow> (Inr a, w')
        | (Inl e, w') \<Rightarrow>
            if e \<noteq> P2034 \<or> attempt = serialization_retry_attempts then (Inl e, w')
            else attempt_from refused fn msg (attempt + 1) w')
     else (Inl (Conflict msg), w))"
  by pat_completeness auto
termination
  by (relation "measure (\<lambda>(_, _, _, attempt, _). 4 - attempt)")
    (auto simp: serialization_retry_attempts_def)

declare attempt_from.simps [simp del]

definition runSerializable ::
  "(nat \<Rightarrow> bool) \<Rightarrow> ('w \<Rightarrow> ('w, 'a) outcome) \<Rightarrow> 'w \<Rightarrow> ('w, 'a) outcome" where
  "runSerializable refused fn w = attempt_from refused fn default_conflict_message 1 w"

lemma transaction_cases:
  "transaction refused fn w =
    (if refused then (Inl P2034, w)
     else (case fst (fn w) of Inl e \<Rightarrow> (Inl e, w) | Inr a \<Rightarrow> (Inr a, snd (fn w))))"
  by (auto simp: transaction_def split: prod.splits sum.splits)

lemma transaction_rollback: "transaction refused fn w = (Inl e, w') \<Longrightarrow> w' = w"
  by (auto simp: transaction_cases split: sum.splits if_splits)

lemma attempt_step:
  assumes "attempt \<le> 3"
  shows "attempt_from refused fn msg attempt w =
    (if fst (transaction (refused attempt) fn w) = Inl P2034 \<and> attempt < 3
     then attempt_from refused fn msg (attempt + 1) w
     else transaction (refused attempt) fn w)"
proof (cases "transaction (refused attempt) fn w")
  case (Pair x w')
  show ?thesis
  proof (cases x)
    case (Inl e)
    have "w' = w" by (rule transaction_rollback [OF Pair [unfolded Inl]])
    with Pair Inl assms show ?thesis
      by (subst attempt_from.simps) (simp add: serialization_retry_attempts_def)
  next
    case (Inr a)
    with Pair assms show ?thesis
      by (subst attempt_from.simps) (simp add: serialization_retry_attempts_def)
  qed
qed

text \<open>The loop unrolled: three attempts, and never the exception after the loop.\<close>

lemma runSerializable_unroll:
  "runSerializable refused fn w =
    (let try = (\<lambda>k. transaction (refused k) fn w) in
     if fst (try 1) \<noteq> Inl P2034 then try 1
     else if fst (try 2) \<noteq> Inl P2034 then try 2 else try 3)"
  by (simp add: runSerializable_def attempt_step [of 1] attempt_step [of 2] attempt_step [of 3]
      one_add_one Let_def del: One_nat_def)

lemma runSerializable_Inr:
  assumes "runSerializable refused fn w = (Inr a, w')"
  shows "fn w = (Inr a, w')"
  using assms
  by (auto simp: runSerializable_unroll Let_def transaction_cases prod_eq_iff
      split: if_splits sum.splits)

lemma runSerializable_Inl:
  assumes "runSerializable refused fn w = (Inl e, w')"
  shows "w' = w \<and> (e = P2034 \<or> fst (fn w) = Inl e)"
  using assms
  by (auto simp: runSerializable_unroll Let_def transaction_cases
      split: if_splits sum.splits)

lemma runSerializable_undisturbed:
  assumes "\<not> refused 1"
  shows "fst (fn w) \<noteq> Inl P2034 \<Longrightarrow>
    runSerializable refused fn w =
      (case fst (fn w) of Inl e \<Rightarrow> (Inl e, w) | Inr a \<Rightarrow> (Inr a, snd (fn w)))"
  using assms by (auto simp: runSerializable_unroll Let_def transaction_cases split: sum.splits)

section \<open>Database exceptions (prisma-exception.filter.ts)\<close>

definition prismaFilter :: "err \<Rightarrow> err" where
  "prismaFilter e =
    (case e of
       PrismaKnown code \<Rightarrow>
         if code = ''P2002'' then Conflict (Text ''A record with that value already exists'')
         else PrismaKnown code
     | _ \<Rightarrow> e)"

text \<open>The status the framework answers an exception with, behind the filter.\<close>

fun exception_status :: "err \<Rightarrow> nat" where
  "exception_status (BadRequest _) = 400"
| "exception_status (Unauthorized _) = 401"
| "exception_status (Forbidden _) = 403"
| "exception_status (NotFound _) = 404"
| "exception_status (Conflict _) = 409"
| "exception_status (ServiceUnavailable _) = 503"
| "exception_status _ = 500"

definition http_status :: "err \<Rightarrow> nat" where
  "http_status e = exception_status (prismaFilter e)"

end
