(* ===== verification/Availability.thy ===== *)
theory Availability
  imports Luxon Common
begin

text \<open>
  The schedule of a coach (src/availability): the ranges a coach is bookable in on a date
  (availability.service.ts), the same for a range of dates in two queries, and the
  services that edit the weekly schedule and the date overrides.

  The lemmas show that the two ways of computing the ranges agree, that the loop over the
  dates ends, that the edits keep every row well formed, and, through the locale
  \<open>guarded_op\<close>, that no coach reaches the rows of another.
\<close>

section \<open>Ranges of minutes (availability.types.ts)\<close>

record 'n minuteRange =
  startMinute :: 'n
  endMinute :: 'n

definition rangesOverlap :: "('n :: linorder) minuteRange \<Rightarrow> 'n minuteRange \<Rightarrow> bool" where
  "rangesOverlap a b \<longleftrightarrow> startMinute a < endMinute b \<and> startMinute b < endMinute a"

lemma rangesOverlap_iff:
  fixes a b :: "int minuteRange"
  assumes "startMinute a < endMinute a" and "startMinute b < endMinute b"
  shows "rangesOverlap a b \<longleftrightarrow>
    (\<exists>m. startMinute a \<le> m \<and> m < endMinute a \<and> startMinute b \<le> m \<and> m < endMinute b)"
  using assms by (auto simp: rangesOverlap_def intro!: exI [of _ "max (startMinute a) (startMinute b)"])

section \<open>Effective ranges (availability.service.ts)\<close>

text \<open>\<open>None\<close> is the Invalid Date; a query with it is rejected by the database client.\<close>

definition toDateOnly :: "string \<Rightarrow> int option" where
  "toDateOnly isoDate = utc_midnight isoDate"

text \<open>\<open>None\<close> is NaN, the weekday of an invalid date.\<close>

definition isoWeekdayOf :: "luxon \<Rightarrow> string \<Rightarrow> string \<Rightarrow> int option" where
  "isoWeekdayOf lx isoDate timezone =
    map_option (lx_weekday lx timezone) (lx_fromISO lx isoDate timezone)"

text \<open>A null minute counts as 0 in the comparisons and sums that use it.\<close>

definition minute_number :: "int option \<Rightarrow> int" where
  "minute_number m = (case m of None \<Rightarrow> 0 | Some n \<Rightarrow> n)"

definition override_range :: "availabilityOverride \<Rightarrow> int minuteRange" where
  "override_range o1 = \<lparr> startMinute = minute_number (o_startMinute o1),
     endMinute = minute_number (o_endMinute o1) \<rparr>"

definition weekly_range :: "weeklyAvailability \<Rightarrow> int minuteRange" where
  "weekly_range r = \<lparr> startMinute = w_startMinute r, endMinute = w_endMinute r \<rparr>"

definition override_ranges :: "availabilityOverride list \<Rightarrow> int minuteRange list" where
  "override_ranges os = (if list_ex o_isUnavailable os then [] else map override_range os)"

definition getEffectiveRangesForDate ::
  "luxon \<Rightarrow> world \<Rightarrow> string \<Rightarrow> string \<Rightarrow> string \<Rightarrow> err + int minuteRange list" where
  "getEffectiveRangesForDate lx w coachId isoDate timezone =
    (case toDateOnly isoDate of
       None \<Rightarrow> Inl PrismaValidation
     | Some date \<Rightarrow>
         (let os = findMany (\<lambda>r. o_coachId r = coachId \<and> o_date r = date) (overrides w) in
          if os \<noteq> [] then Inr (override_ranges os)
          else case isoWeekdayOf lx isoDate timezone of
             None \<Rightarrow> Inl PrismaValidation
           | Some weekday \<Rightarrow>
               Inr (map weekly_range
                 (findMany (\<lambda>r. w_coachId r = coachId \<and> w_weekday r = weekday) (weeklies w)))))"

text \<open>Rows collected in a map: each is appended to the list of its key.\<close>

definition collect_by :: "('a \<Rightarrow> 'k) \<Rightarrow> ('a \<Rightarrow> 'v) \<Rightarrow> 'a list \<Rightarrow> ('k \<rightharpoonup> 'v list)" where
  "collect_by key val xs =
    fold (\<lambda>x m. m(key x \<mapsto> (case m (key x) of None \<Rightarrow> [val x] | Some l \<Rightarrow> l @ [val x]))) xs
      Map.empty"

definition ranges_of_day ::
  "luxon \<Rightarrow> string \<Rightarrow> (string \<rightharpoonup> availabilityOverride list) \<Rightarrow> (int \<rightharpoonup> int minuteRange list) \<Rightarrow>
   string \<Rightarrow> int minuteRange list" where
  "ranges_of_day lx timezone overridesByDate weeklyByWeekday isoDate =
    (case overridesByDate isoDate of
       Some (r # rs) \<Rightarrow> override_ranges (r # rs)
     | _ \<Rightarrow>
         (case isoWeekdayOf lx isoDate timezone of
            None \<Rightarrow> []
          | Some weekday \<Rightarrow>
              (case weeklyByWeekday weekday of None \<Rightarrow> [] | Some l \<Rightarrow> l)))"

text \<open>The loop over the days; \<open>None\<close> is the value of a loop that does not end.\<close>

partial_function (option) range_loop ::
  "luxon \<Rightarrow> string \<Rightarrow> string \<Rightarrow> (string \<Rightarrow> int minuteRange list) \<Rightarrow> int \<Rightarrow>
   (string \<rightharpoonup> int minuteRange list) \<Rightarrow> (string \<rightharpoonup> int minuteRange list) option" where
  "range_loop lx timezone toIsoDate entry day result =
    (if str_le (lx_toISODate lx timezone day) toIsoDate then
       (let isoDate = lx_toISODate lx timezone day in
        range_loop lx timezone toIsoDate entry (lx_plusDays lx timezone day 1)
          (result(isoDate \<mapsto> entry isoDate)))
     else Some result)"

definition getEffectiveRangesForDateRange ::
  "luxon \<Rightarrow> world \<Rightarrow> string \<Rightarrow> string \<Rightarrow> string \<Rightarrow> string \<Rightarrow>
   (err + (string \<rightharpoonup> int minuteRange list)) option" where
  "getEffectiveRangesForDateRange lx w coachId fromIsoDate toIsoDate timezone =
    (case (toDateOnly fromIsoDate, toDateOnly toIsoDate) of
       (Some from, Some to) \<Rightarrow>
         (let os = findMany (\<lambda>r. o_coachId r = coachId \<and> from \<le> o_date r \<and> o_date r \<le> to)
                (overrides w);
              overridesByDate = collect_by (\<lambda>r. take 10 (toISOString (o_date r))) (\<lambda>r. r) os;
              weeklyByWeekday = collect_by w_weekday weekly_range
                (findMany (\<lambda>r. w_coachId r = coachId) (weeklies w))
          in case lx_fromISO lx fromIsoDate timezone of
               None \<Rightarrow> Some (Inr Map.empty)
             | Some day \<Rightarrow>
                 map_option Inr
                   (range_loop lx timezone toIsoDate
                     (ranges_of_day lx timezone overridesByDate weeklyByWeekday) day Map.empty))
     | _ \<Rightarrow> Some (Inl PrismaValidation))"

text \<open>The candidate may have a fractional end, so its members are rationals.\<close>

definition within_ranges :: "rat minuteRange \<Rightarrow> int minuteRange list \<Rightarrow> bool" where
  "within_ranges candidate ranges =
    list_ex (\<lambda>range. of_int (startMinute range) \<le> startMinute candidate \<and>
      endMinute candidate \<le> of_int (endMinute range)) ranges"

definition isWithinEffectiveRange ::
  "luxon \<Rightarrow> world \<Rightarrow> string \<Rightarrow> string \<Rightarrow> string \<Rightarrow> rat minuteRange \<Rightarrow> err + bool" where
  "isWithinEffectiveRange lx w coachId isoDate timezone candidate =
    map_sum id (within_ranges candidate) (getEffectiveRangesForDate lx w coachId isoDate timezone)"

text \<open>The ranges depend on the two tables of availability only.\<close>

lemma ranges_frame:
  assumes "overrides w' = overrides w" and "weeklies w' = weeklies w"
  shows "getEffectiveRangesForDate lx w' = getEffectiveRangesForDate lx w"
  unfolding fun_eq_iff getEffectiveRangesForDate_def assms by simp

section \<open>The two computations agree\<close>

lemma collect_by_aux:
  "fold (\<lambda>x m. m(key x \<mapsto> (case m (key x) of None \<Rightarrow> [val x] | Some l \<Rightarrow> l @ [val x]))) xs m k =
    (let l = map val (filter (\<lambda>x. key x = k) xs) in
     case m k of None \<Rightarrow> (if l = [] then None else Some l) | Some l' \<Rightarrow> Some (l' @ l))"
  by (induction xs arbitrary: m) (auto simp: Let_def split: option.splits)

lemma collect_by_lookup:
  "collect_by key val xs k =
    (let l = map val (filter (\<lambda>x. key x = k) xs) in if l = [] then None else Some l)"
  by (simp add: collect_by_def collect_by_aux Let_def)

lemma range_loop_days:
  assumes z: "luxon_zone lx tz mid" and a: "four_digit_day a"
    and b: "four_digit_day b" "four_digit_day (b + 1)" and "a \<le> b + 1"
  shows "range_loop lx tz (iso_date b) entry (mid a) m =
    Some (\<lambda>k. if \<exists>d. a \<le> d \<and> d \<le> b \<and> k = iso_date d then Some (entry k) else m k)"
  using a assms(5)
proof (induction "nat (b + 1 - a)" arbitrary: a m)
  case 0
  then have "a = b + 1" by simp
  then show ?case
    using luxon_zone_midnight [OF z b(2)] iso_date_le [OF b(2,1)]
    by (subst range_loop.simps) (auto simp: fun_eq_iff)
next
  case (Suc n)
  from Suc have le: "a \<le> b" by linarith
  from le Suc.prems(1) b have a': "four_digit_day (a + 1)" by (simp add: four_digit_day_def)
  have "range_loop lx tz (iso_date b) entry (mid a) m =
      range_loop lx tz (iso_date b) entry (mid (a + 1)) (m(iso_date a \<mapsto> entry (iso_date a)))"
    using luxon_zone_midnight [OF z Suc.prems(1)] iso_date_le [OF Suc.prems(1) b(1)] le
      luxon_zoneD(5) [OF z Suc.prems(1)]
    by (subst range_loop.simps) (simp add: Let_def)
  also have "\<dots> = Some (\<lambda>k. if \<exists>d. a + 1 \<le> d \<and> d \<le> b \<and> k = iso_date d then Some (entry k)
      else (m(iso_date a \<mapsto> entry (iso_date a))) k)"
    using Suc.hyps(2) a' le by (intro Suc.hyps(1)) linarith+
  also have "\<dots> = Some (\<lambda>k. if \<exists>d. a \<le> d \<and> d \<le> b \<and> k = iso_date d then Some (entry k) else m k)"
  proof -
    have "(\<exists>d. a \<le> d \<and> d \<le> b \<and> k = iso_date d) \<longleftrightarrow>
        k = iso_date a \<or> (\<exists>d. a + 1 \<le> d \<and> d \<le> b \<and> k = iso_date d)" for k
    proof
      assume "\<exists>d. a \<le> d \<and> d \<le> b \<and> k = iso_date d"
      then obtain d where "a \<le> d" "d \<le> b" "k = iso_date d" by blast
      then show "k = iso_date a \<or> (\<exists>d. a + 1 \<le> d \<and> d \<le> b \<and> k = iso_date d)"
        by (cases "d = a") (auto intro!: exI [of _ d])
    next
      assume "k = iso_date a \<or> (\<exists>d. a + 1 \<le> d \<and> d \<le> b \<and> k = iso_date d)"
      then show "\<exists>d. a \<le> d \<and> d \<le> b \<and> k = iso_date d"
      proof
        assume "k = iso_date a"
        with le show ?thesis by (intro exI [of _ a]) simp
      next
        assume "\<exists>d. a + 1 \<le> d \<and> d \<le> b \<and> k = iso_date d"
        then obtain d where "a + 1 \<le> d" "d \<le> b" "k = iso_date d" by blast
        then show ?thesis by (intro exI [of _ d]) simp
      qed
    qed
    then show ?thesis by (auto simp: fun_eq_iff)
  qed
  finally show ?case .
qed

text \<open>Dates are stored as midnights in UTC: the column has the type \<open>Date\<close>.\<close>

definition dates_midnight :: "availabilityOverride list \<Rightarrow> bool" where
  "dates_midnight os \<longleftrightarrow> (\<forall>r \<in> set os. o_date r mod ms_per_day = 0)"

lemma override_key:
  assumes "o_date r mod ms_per_day = 0" and "a * ms_per_day \<le> o_date r" "o_date r \<le> b * ms_per_day"
    and "four_digit_day a" "four_digit_day b" "four_digit_day d"
  shows "take 10 (toISOString (o_date r)) = iso_date d \<longleftrightarrow> o_date r = d * ms_per_day"
proof -
  define q where "q = o_date r div ms_per_day"
  have q: "o_date r = q * ms_per_day" using assms(1) by (auto simp: q_def dvd_eq_mod_eq_0 [symmetric])
  with assms(2-5) have "four_digit_day q" by (simp add: four_digit_day_def)
  with assms(6) show ?thesis
    unfolding q by (simp only: iso_string_midnight iso_date_inject) simp
qed

lemma ranges_of_day_agree:
  assumes z: "luxon_zone lx tz mid" and d: "four_digit_day d"
    and os: "overridesByDate (iso_date d) =
      (let os = findMany (\<lambda>r. o_coachId r = c \<and> o_date r = d * ms_per_day) (overrides w) in
       if os = [] then None else Some os)"
  shows "getEffectiveRangesForDate lx w c (iso_date d) tz =
    Inr (ranges_of_day lx tz overridesByDate
      (collect_by w_weekday weekly_range (findMany (\<lambda>r. w_coachId r = c) (weeklies w))) (iso_date d))"
proof -
  define os' where "os' = findMany (\<lambda>r. o_coachId r = c \<and> o_date r = d * ms_per_day) (overrides w)"
  have wk: "isoWeekdayOf lx (iso_date d) tz = Some (iso_weekday d)"
    by (simp add: isoWeekdayOf_def luxon_zoneD(6) [OF z d] luxon_zone_midnight [OF z d])
  have "filter (\<lambda>r. w_coachId r = c \<and> w_weekday r = iso_weekday d) (weeklies w) =
      filter (\<lambda>r. w_weekday r = iso_weekday d) (findMany (\<lambda>r. w_coachId r = c) (weeklies w))"
    by (simp add: findMany_def conj_commute)
  then show ?thesis
    using os wk
    by (cases os')
      (auto simp: getEffectiveRangesForDate_def toDateOnly_def utc_midnight_iso_date [OF d]
        ranges_of_day_def collect_by_lookup Let_def findMany_def [of _ "weeklies w"] os'_def [symmetric])
qed

lemma range_agrees_pointwise_aux:
  assumes z: "luxon_zone lx tz mid" and a: "four_digit_day a"
    and b: "four_digit_day b" "four_digit_day (b + 1)" and mn: "dates_midnight (overrides w)"
  shows "\<exists>m. getEffectiveRangesForDateRange lx w c (iso_date a) (iso_date b) tz = Some (Inr m) \<and>
    (\<forall>d. four_digit_day d \<longrightarrow>
      (if a \<le> d \<and> d \<le> b
       then \<exists>rs. m (iso_date d) = Some rs \<and>
         getEffectiveRangesForDate lx w c (iso_date d) tz = Inr rs
       else m (iso_date d) = None))"
proof -
  define os where "os = findMany (\<lambda>r. o_coachId r = c \<and> a * ms_per_day \<le> o_date r \<and>
    o_date r \<le> b * ms_per_day) (overrides w)"
  define obd where "obd = collect_by (\<lambda>r. take 10 (toISOString (o_date r))) (\<lambda>r. r) os"
  define entry where "entry = ranges_of_day lx tz obd
    (collect_by w_weekday weekly_range (findMany (\<lambda>r. w_coachId r = c) (weeklies w)))"
  define m where "m = (\<lambda>k. if \<exists>d. a \<le> d \<and> d \<le> b \<and> k = iso_date d then Some (entry k) else None)"
  have loop: "range_loop lx tz (iso_date b) entry (mid a) Map.empty = Some m"
  proof (cases "a \<le> b + 1")
    case True
    then show ?thesis using range_loop_days [OF z a b] by (simp add: m_def)
  next
    case False
    then have "m = Map.empty" by (auto simp: m_def)
    with False show ?thesis
      using luxon_zone_midnight [OF z a] iso_date_le [OF a b(1)] by (subst range_loop.simps) simp
  qed
  have r: "getEffectiveRangesForDateRange lx w c (iso_date a) (iso_date b) tz = Some (Inr m)"
    using loop
    by (simp add: getEffectiveRangesForDateRange_def toDateOnly_def utc_midnight_iso_date a b(1)
        luxon_zoneD(6) [OF z a] Let_def os_def [symmetric] obd_def [symmetric] entry_def [symmetric])
  have inside: "getEffectiveRangesForDate lx w c (iso_date d) tz = Inr (entry (iso_date d))"
    if d: "a \<le> d" "d \<le> b" for d
  proof -
    have fd: "four_digit_day d" using d a b by (simp add: four_digit_day_def)
    have "filter (\<lambda>r. take 10 (toISOString (o_date r)) = iso_date d) os =
        findMany (\<lambda>r. o_coachId r = c \<and> o_date r = d * ms_per_day) (overrides w)"
      unfolding os_def findMany_def filter_filter
    proof (rule filter_cong [OF refl])
      fix r assume "r \<in> set (overrides w)"
      with mn have "o_date r mod ms_per_day = 0" by (simp add: dates_midnight_def)
      from override_key [OF this _ _ a b(1) fd] d
      show "((o_coachId r = c \<and> a * ms_per_day \<le> o_date r \<and> o_date r \<le> b * ms_per_day) \<and>
          take 10 (toISOString (o_date r)) = iso_date d) =
        (o_coachId r = c \<and> o_date r = d * ms_per_day)"
        by auto
    qed
    then have "obd (iso_date d) =
      (let os = findMany (\<lambda>r. o_coachId r = c \<and> o_date r = d * ms_per_day) (overrides w) in
       if os = [] then None else Some os)"
      by (simp add: obd_def collect_by_lookup Let_def)
    then show ?thesis unfolding entry_def by (rule ranges_of_day_agree [OF z fd])
  qed
  have "m (iso_date d) = (if a \<le> d \<and> d \<le> b then Some (entry (iso_date d)) else None)"
    if "four_digit_day d" for d
  proof -
    have "d' = d" if "a \<le> d'" "d' \<le> b" "iso_date d = iso_date d'" for d'
      using that \<open>four_digit_day d\<close> iso_date_inject [of d d'] a b
      by (simp add: four_digit_day_def)
    then show ?thesis by (auto simp: m_def)
  qed
  with r inside show ?thesis by (intro exI [of _ m]) auto
qed

section \<open>The weekly schedule (weekly-availability.service.ts)\<close>

record weeklyDto =
  wd_weekday :: "int option"
  wd_startMinute :: "int option"
  wd_endMinute :: "int option"

text \<open>\<open>a ?? b\<close>: the value, or the other one when it is undefined or null.\<close>

definition orElse :: "'a option \<Rightarrow> 'a \<Rightarrow> 'a" where
  "orElse x d = (case x of None \<Rightarrow> d | Some v \<Rightarrow> v)"

definition start_before_end :: err where
  "start_before_end = BadRequest (Text ''startMinute must be before endMinute'')"

definition assertValidRange :: "int \<Rightarrow> int \<Rightarrow> err + unit" where
  "assertValidRange s e = (if e \<le> s then Inl start_before_end else Inr ())"

definition weekly_findForCoach :: "string \<Rightarrow> world \<Rightarrow> weeklyAvailability list" where
  "weekly_findForCoach coachId w =
    sort_key w_weekday (sort_key w_startMinute
      (findMany (\<lambda>r. w_coachId r = coachId) (weeklies w)))"

definition weeklyAvailability_create ::
  "string \<Rightarrow> coach \<Rightarrow> int \<Rightarrow> int \<Rightarrow> int \<Rightarrow> world \<Rightarrow> (world, weeklyAvailability) outcome" where
  "weeklyAvailability_create new_id coach weekday s e w =
    (case assertValidRange s e of
       Inl err \<Rightarrow> (Inl err, w)
     | Inr _ \<Rightarrow>
         weekly_create \<lparr> w_id = new_id, w_coachId = c_id coach, w_weekday = weekday,
           w_startMinute = s, w_endMinute = e \<rparr> w)"

definition weekly_assertOwnership :: "coach \<Rightarrow> string \<Rightarrow> world \<Rightarrow> err + weeklyAvailability" where
  "weekly_assertOwnership coach k w =
    assertCoachOwnsOrIsAdmin w_coachId coach (findUnique w_id k (weeklies w))
      (Text ''Weekly availability entry not found'')"

definition weeklyAvailability_update ::
  "weeklyDto \<Rightarrow> coach \<Rightarrow> string \<Rightarrow> world \<Rightarrow> (world, weeklyAvailability) outcome" where
  "weeklyAvailability_update dto coach k w =
    (case weekly_assertOwnership coach k w of
       Inl e \<Rightarrow> (Inl e, w)
     | Inr existing \<Rightarrow>
         (let weekday = orElse (wd_weekday dto) (w_weekday existing);
              s = orElse (wd_startMinute dto) (w_startMinute existing);
              e = orElse (wd_endMinute dto) (w_endMinute existing)
          in case assertValidRange s e of
               Inl err \<Rightarrow> (Inl err, w)
             | Inr _ \<Rightarrow>
                 weekly_update k
                   (\<lambda>r. r\<lparr>w_weekday := weekday, w_startMinute := s, w_endMinute := e\<rparr>) w))"

definition weeklyAvailability_remove :: "coach \<Rightarrow> string \<Rightarrow> world \<Rightarrow> (world, unit) outcome" where
  "weeklyAvailability_remove coach k w =
    (case weekly_assertOwnership coach k w of
       Inl e \<Rightarrow> (Inl e, w)
     | Inr _ \<Rightarrow> andThen (weekly_delete k w) (\<lambda>_ w. (Inr (), w)))"

section \<open>The overrides (availability-override.service.ts)\<close>

record overrideDto =
  od_date :: "string option"
  od_isUnavailable :: "bool option"
  od_startMinute :: "int option"
  od_endMinute :: "int option"

definition minutes_required :: err where
  "minutes_required =
    BadRequest (Text ''startMinute and endMinute are required unless isUnavailable is true'')"

text \<open>The guard on the minutes that \<open>create\<close> and \<open>update\<close> share.\<close>

definition check_minutes :: "bool \<Rightarrow> int option \<Rightarrow> int option \<Rightarrow> err option" where
  "check_minutes isUnavailable s e =
    (if isUnavailable then None
     else case (s, e) of
       (Some s', Some e') \<Rightarrow> if e' \<le> s' then Some start_before_end else None
     | _ \<Rightarrow> Some minutes_required)"

definition override_findForCoach :: "string \<Rightarrow> world \<Rightarrow> availabilityOverride list" where
  "override_findForCoach coachId w =
    sort_key o_date (findMany (\<lambda>r. o_coachId r = coachId) (overrides w))"

definition availabilityOverride_create ::
  "string \<Rightarrow> coach \<Rightarrow> string \<Rightarrow> overrideDto \<Rightarrow> world \<Rightarrow> (world, availabilityOverride) outcome" where
  "availabilityOverride_create new_id coach date dto w =
    (let isUnavailable = orElse (od_isUnavailable dto) False in
     case check_minutes isUnavailable (od_startMinute dto) (od_endMinute dto) of
       Some e \<Rightarrow> (Inl e, w)
     | None \<Rightarrow>
         (case toDateOnly date of
            None \<Rightarrow> (Inl PrismaValidation, w)
          | Some d \<Rightarrow>
              override_create \<lparr> o_id = new_id, o_coachId = c_id coach, o_date = d,
                o_isUnavailable = isUnavailable,
                o_startMinute = (if isUnavailable then None else od_startMinute dto),
                o_endMinute = (if isUnavailable then None else od_endMinute dto) \<rparr> w))"

definition override_assertOwnership :: "coach \<Rightarrow> string \<Rightarrow> world \<Rightarrow> err + availabilityOverride" where
  "override_assertOwnership coach k w =
    assertCoachOwnsOrIsAdmin o_coachId coach (findUnique o_id k (overrides w))
      (Text ''Availability override not found'')"

definition availabilityOverride_update ::
  "overrideDto \<Rightarrow> coach \<Rightarrow> string \<Rightarrow> world \<Rightarrow> (world, availabilityOverride) outcome" where
  "availabilityOverride_update dto coach k w =
    (case override_assertOwnership coach k w of
       Inl e \<Rightarrow> (Inl e, w)
     | Inr existing \<Rightarrow>
         (let isUnavailable = orElse (od_isUnavailable dto) (o_isUnavailable existing);
              isoDate = orElse (od_date dto) (take 10 (toISOString (o_date existing)));
              s = (if isUnavailable then None
                   else case od_startMinute dto of None \<Rightarrow> o_startMinute existing | m \<Rightarrow> m);
              e = (if isUnavailable then None
                   else case od_endMinute dto of None \<Rightarrow> o_endMinute existing | m \<Rightarrow> m)
          in case check_minutes isUnavailable s e of
               Some err \<Rightarrow> (Inl err, w)
             | None \<Rightarrow>
                 (case toDateOnly isoDate of
                    None \<Rightarrow> (Inl PrismaValidation, w)
                  | Some d \<Rightarrow>
                      override_update k
                        (\<lambda>r. r\<lparr>o_date := d, o_isUnavailable := isUnavailable,
                           o_startMinute := s, o_endMinute := e\<rparr>) w)))"

definition availabilityOverride_remove :: "coach \<Rightarrow> string \<Rightarrow> world \<Rightarrow> (world, unit) outcome" where
  "availabilityOverride_remove coach k w =
    (case override_assertOwnership coach k w of
       Inl e \<Rightarrow> (Inl e, w)
     | Inr _ \<Rightarrow> andThen (override_delete k w) (\<lambda>_ w. (Inr (), w)))"

section \<open>What the edits keep\<close>

lemmas availability_ops =
  weeklyAvailability_create_def weeklyAvailability_update_def weeklyAvailability_remove_def
  availabilityOverride_create_def availabilityOverride_update_def availabilityOverride_remove_def
  weekly_assertOwnership_def override_assertOwnership_def

interpretation weekly_upd: guarded_write "\<lambda>k w. findUnique w_id k (weeklies w)" w_coachId
    "\<lambda>_. Text ''Weekly availability entry not found''" "weeklyAvailability_update dto"
    constraints_ok without_coach w_coachId
  for dto
proof unfold_locales
  fix w k r coach x w'
  assume "constraints_ok w" "findUnique w_id k (weeklies w) = Some r"
    "weeklyAvailability_update dto coach k w = (x, w')"
  then show "without_coach (w_coachId r) w' = without_coach (w_coachId r) w"
    by (auto simp: availability_ops weekly_update_def Let_def without_coach_upd
        split: sum.splits option.splits)
next
  fix w k r coach a w'
  assume "findUnique w_id k (weeklies w) = Some r" "weeklyAvailability_update dto coach k w = (Inr a, w')"
  then show "w_coachId a = w_coachId r"
    by (auto simp: availability_ops weekly_update_def Let_def split: sum.splits option.splits)
qed (simp add: availability_ops)

interpretation weekly_rem: guarded_op "\<lambda>k w. findUnique w_id k (weeklies w)" w_coachId
    "\<lambda>_. Text ''Weekly availability entry not found''" weeklyAvailability_remove
    constraints_ok without_coach
proof unfold_locales
  fix w k r coach x w'
  assume "constraints_ok w" "findUnique w_id k (weeklies w) = Some r"
    "weeklyAvailability_remove coach k w = (x, w')"
  then show "without_coach (w_coachId r) w' = without_coach (w_coachId r) w"
    by (auto simp: availability_ops weekly_delete_def without_coach_del
        split: sum.splits option.splits)
qed (simp add: availability_ops)

interpretation override_upd: guarded_write "\<lambda>k w. findUnique o_id k (overrides w)" o_coachId
    "\<lambda>_. Text ''Availability override not found''" "availabilityOverride_update dto"
    constraints_ok without_coach o_coachId
  for dto
proof unfold_locales
  fix w k r coach x w'
  assume "constraints_ok w" "findUnique o_id k (overrides w) = Some r"
    "availabilityOverride_update dto coach k w = (x, w')"
  then show "without_coach (o_coachId r) w' = without_coach (o_coachId r) w"
    by (auto simp: availability_ops override_update_def Let_def without_coach_upd
        split: sum.splits option.splits)
next
  fix w k r coach a w'
  assume "findUnique o_id k (overrides w) = Some r" "availabilityOverride_update dto coach k w = (Inr a, w')"
  then show "o_coachId a = o_coachId r"
    by (auto simp: availability_ops override_update_def Let_def split: sum.splits option.splits)
qed (simp add: availability_ops)

interpretation override_rem: guarded_op "\<lambda>k w. findUnique o_id k (overrides w)" o_coachId
    "\<lambda>_. Text ''Availability override not found''" availabilityOverride_remove
    constraints_ok without_coach
proof unfold_locales
  fix w k r coach x w'
  assume "constraints_ok w" "findUnique o_id k (overrides w) = Some r"
    "availabilityOverride_remove coach k w = (x, w')"
  then show "without_coach (o_coachId r) w' = without_coach (o_coachId r) w"
    by (auto simp: availability_ops override_delete_def without_coach_del
        split: sum.splits option.splits)
qed (simp add: availability_ops)

text \<open>
  The rows the services leave are well formed.  The bounds of the single members are those
  of the request validation; that a range is not empty is the services' own check.
\<close>

definition weekly_wf :: "weeklyAvailability \<Rightarrow> bool" where
  "weekly_wf r \<longleftrightarrow> 1 \<le> w_weekday r \<and> w_weekday r \<le> 7 \<and> 0 \<le> w_startMinute r \<and>
     w_startMinute r < w_endMinute r \<and> w_endMinute r \<le> 24 * 60"

definition override_wf :: "availabilityOverride \<Rightarrow> bool" where
  "override_wf r \<longleftrightarrow> o_date r mod ms_per_day = 0 \<and>
     (if o_isUnavailable r then o_startMinute r = None \<and> o_endMinute r = None
      else \<exists>s e. o_startMinute r = Some s \<and> o_endMinute r = Some e \<and>
        0 \<le> s \<and> s < e \<and> e \<le> 24 * 60)"

definition availability_wf :: "world \<Rightarrow> bool" where
  "availability_wf w \<longleftrightarrow>
     (\<forall>r \<in> set (weeklies w). weekly_wf r) \<and> (\<forall>r \<in> set (overrides w). override_wf r)"

definition valid_minute :: "int option \<Rightarrow> bool" where
  "valid_minute m \<longleftrightarrow> (\<forall>n. m = Some n \<longrightarrow> 0 \<le> n \<and> n \<le> 24 * 60)"

definition valid_weekly_dto :: "weeklyDto \<Rightarrow> bool" where
  "valid_weekly_dto dto \<longleftrightarrow> (\<forall>d. wd_weekday dto = Some d \<longrightarrow> 1 \<le> d \<and> d \<le> 7) \<and>
     valid_minute (wd_startMinute dto) \<and> valid_minute (wd_endMinute dto)"

definition valid_override_dto :: "overrideDto \<Rightarrow> bool" where
  "valid_override_dto dto \<longleftrightarrow>
     od_isUnavailable dto = Some True \<or> valid_minute (od_startMinute dto) \<and> valid_minute (od_endMinute dto)"

lemma toDateOnly_midnight: "toDateOnly s = Some d \<Longrightarrow> d mod ms_per_day = 0"
  by (auto simp: toDateOnly_def utc_midnight_def split: option.splits if_splits)

lemma check_minutes_None:
  "check_minutes u s e = None \<longleftrightarrow> u \<or> (\<exists>s' e'. s = Some s' \<and> e = Some e' \<and> s' < e')"
  by (auto simp: check_minutes_def split: option.splits)

lemma availability_wf_frame [simp]:
  "availability_wf (w\<lparr>bookings := x1\<rparr>) = availability_wf w"
  "availability_wf (w\<lparr>settingsRows := x2\<rparr>) = availability_wf w"
  "availability_wf (w\<lparr>eventTypes := x3\<rparr>) = availability_wf w"
  "availability_wf (w\<lparr>coaches := x4\<rparr>) = availability_wf w"
  "availability_wf (w\<lparr>jobs := x5\<rparr>) = availability_wf w"
  "availability_wf (w\<lparr>externals := x6\<rparr>) = availability_wf w"
  by (simp_all add: availability_wf_def)

lemma weekly_update_keeps:
  "availability_wf w \<Longrightarrow> weekly_update k f w = (x, w') \<Longrightarrow> (\<And>r. weekly_wf (f r)) \<Longrightarrow>
   availability_wf w'"
  by (auto simp: weekly_update_def availability_wf_def set_updateRow split: option.splits)

lemma override_update_keeps:
  "availability_wf w \<Longrightarrow> override_update k f w = (x, w') \<Longrightarrow> (\<And>r. override_wf (f r)) \<Longrightarrow>
   availability_wf w'"
  by (auto simp: override_update_def availability_wf_def set_updateRow split: option.splits)

lemma weekly_create_wf:
  assumes "availability_wf w" and "valid_weekly_dto \<lparr> wd_weekday = Some d, wd_startMinute = Some s,
      wd_endMinute = Some e \<rparr>"
    and "weeklyAvailability_create i coach d s e w = (x, w')"
  shows "availability_wf w'"
  using assms
  by (auto simp: availability_ops weekly_create_def assertValidRange_def availability_wf_def
      weekly_wf_def valid_weekly_dto_def valid_minute_def split: if_splits)

lemma weekly_update_wf:
  assumes "availability_wf w" and "valid_weekly_dto dto"
    and "weeklyAvailability_update dto coach k w = (x, w')"
  shows "availability_wf w'"
proof (cases "weekly_assertOwnership coach k w")
  case (Inr r)
  then have "findUnique w_id k (weeklies w) = Some r"
    by (auto simp: weekly_assertOwnership_def dest: assert_owner_InrD)
  with assms(1) have wf: "weekly_wf r" by (auto simp: availability_wf_def dest: findUnique_in)
  define d where "d = orElse (wd_weekday dto) (w_weekday r)"
  define s where "s = orElse (wd_startMinute dto) (w_startMinute r)"
  define e where "e = orElse (wd_endMinute dto) (w_endMinute r)"
  have b: "1 \<le> d" "d \<le> 7" "0 \<le> s" "e \<le> 24 * 60"
    using wf assms(2)
    by (auto simp: d_def s_def e_def orElse_def weekly_wf_def valid_weekly_dto_def valid_minute_def
        split: option.splits)
  from assms(3) Inr consider "w' = w" | "s < e" "weekly_update k
      (\<lambda>r. r\<lparr>w_weekday := d, w_startMinute := s, w_endMinute := e\<rparr>) w = (x, w')"
    by (auto simp: weeklyAvailability_update_def assertValidRange_def Let_def d_def [symmetric]
        s_def [symmetric] e_def [symmetric] split: if_splits)
  then show ?thesis
  proof cases
    case 2
    from assms(1) 2(2) show ?thesis
      by (rule weekly_update_keeps) (use b 2(1) in \<open>simp add: weekly_wf_def\<close>)
  qed (use assms in simp)
qed (use assms in \<open>auto simp: weeklyAvailability_update_def\<close>)

lemma override_create_wf:
  assumes "availability_wf w" and "valid_override_dto dto"
    and "availabilityOverride_create i coach date dto w = (x, w')"
  shows "availability_wf w'"
  using assms toDateOnly_midnight [of date]
  by (auto simp: availabilityOverride_create_def override_create_def Let_def check_minutes_None
      availability_wf_def override_wf_def valid_override_dto_def valid_minute_def orElse_def
      split: if_splits option.splits)

lemma override_update_wf:
  assumes "availability_wf w" and "valid_override_dto dto"
    and "availabilityOverride_update dto coach k w = (x, w')"
  shows "availability_wf w'"
proof (cases "override_assertOwnership coach k w")
  case (Inr r)
  then have "findUnique o_id k (overrides w) = Some r"
    by (auto simp: override_assertOwnership_def dest: assert_owner_InrD)
  with assms(1) have wf: "override_wf r" by (auto simp: availability_wf_def dest: findUnique_in)
  define u where "u = orElse (od_isUnavailable dto) (o_isUnavailable r)"
  define s where "s = (if u then None else case od_startMinute dto of None \<Rightarrow> o_startMinute r | m \<Rightarrow> m)"
  define e where "e = (if u then None else case od_endMinute dto of None \<Rightarrow> o_endMinute r | m \<Rightarrow> m)"
  have b: "valid_minute s" "valid_minute e"
    using wf assms(2)
    by (auto simp: s_def e_def u_def orElse_def valid_override_dto_def valid_minute_def
        override_wf_def split: option.splits if_splits)
  from assms(3) Inr consider "w' = w"
    | d where "d mod ms_per_day = 0" "check_minutes u s e = None"
      "override_update k (\<lambda>r. r\<lparr>o_date := d, o_isUnavailable := u,
         o_startMinute := s, o_endMinute := e\<rparr>) w = (x, w')"
    by (auto simp: availabilityOverride_update_def Let_def u_def [symmetric] s_def [symmetric]
        e_def [symmetric] dest: toDateOnly_midnight split: option.splits)
  then show ?thesis
  proof cases
    case 2
    from assms(1) 2(3) show ?thesis
      by (rule override_update_keeps)
        (use 2(1,2) b in \<open>auto simp: override_wf_def check_minutes_None valid_minute_def s_def e_def\<close>)
  qed (use assms in simp)
qed (use assms in \<open>auto simp: availabilityOverride_update_def\<close>)

lemma availability_remove_wf:
  "availability_wf w \<Longrightarrow> weeklyAvailability_remove coach k w = (x, w') \<Longrightarrow> availability_wf w'"
  "availability_wf w \<Longrightarrow> availabilityOverride_remove coach k w = (y, w') \<Longrightarrow> availability_wf w'"
  by (auto simp: availability_ops weekly_delete_def override_delete_def availability_wf_def
      split: sum.splits option.splits)

lemma availability_constraints:
  "constraints_ok w \<Longrightarrow> weeklyAvailability_create i coach d s e w = (x1, w') \<Longrightarrow> constraints_ok w'"
  "constraints_ok w \<Longrightarrow> weeklyAvailability_update dto coach k w = (x2, w') \<Longrightarrow> constraints_ok w'"
  "constraints_ok w \<Longrightarrow> weeklyAvailability_remove coach k w = (x3, w') \<Longrightarrow> constraints_ok w'"
  "constraints_ok w \<Longrightarrow> availabilityOverride_create i coach date odto w = (x4, w') \<Longrightarrow> constraints_ok w'"
  "constraints_ok w \<Longrightarrow> availabilityOverride_update odto coach k w = (x5, w') \<Longrightarrow> constraints_ok w'"
  "constraints_ok w \<Longrightarrow> availabilityOverride_remove coach k w = (x6, w') \<Longrightarrow> constraints_ok w'"
  subgoal by (auto simp: availability_ops split: sum.splits intro: weekly_create_ok)
  subgoal by (auto simp: availability_ops Let_def split: sum.splits elim!: weekly_update_ok)
  subgoal by (auto simp: availability_ops split: sum.splits elim!: andThen_cases dest: weekly_delete_ok)
  subgoal by (auto simp: availability_ops Let_def split: option.splits intro: override_create_ok)
  subgoal by (auto simp: availability_ops Let_def split: sum.splits option.splits elim!: override_update_ok)
  subgoal by (auto simp: availability_ops split: sum.splits elim!: andThen_cases dest: override_delete_ok)
  done

end
