(* ===== verification/Settings.thy ===== *)
theory Settings
  imports Common
begin

text \<open>
  The settings of a coach (settings.service.ts): \<open>settings_get\<close> creates the row with the
  defaults of the schema on the first read, \<open>settings_update\<close> patches it, and the colours
  of the mails are checked by \<open>isValidEmailBrandPalette\<close> (email-brand-palette.util.ts).

  The locale \<open>lazy_row\<close> is what the other services rely on when they read the settings:
  a read may create the caller's row once and changes nothing else.
\<close>

section \<open>The palette\<close>

definition PALETTE_KEYS :: "string list" where
  "PALETTE_KEYS = [''bg'', ''bgPanel'', ''bgCard'', ''ink'', ''inkSoft'', ''accent'', ''accentSoft'',
     ''line'', ''brown'']"

definition hex_digit :: "char \<Rightarrow> bool" where
  "hex_digit c \<longleftrightarrow>
    (let n = (of_char c :: nat) in 48 \<le> n \<and> n \<le> 57 \<or> 97 \<le> n \<and> n \<le> 102 \<or> 65 \<le> n \<and> n \<le> 70)"

definition HEX_COLOR_RE :: "string \<Rightarrow> bool" where
  "HEX_COLOR_RE s \<longleftrightarrow> length s = 7 \<and> hd s = CHR ''#'' \<and> list_all hex_digit (tl s)"

text \<open>\<open>record[key]\<close>: only an object has such keys; a missing one is undefined.\<close>

fun json_field :: "json \<Rightarrow> string \<Rightarrow> json" where
  "json_field (JObj kvs) k = (case map_of kvs k of None \<Rightarrow> JUndefined | Some v \<Rightarrow> v)"
| "json_field _ k = JUndefined"

fun typeof_object :: "json \<Rightarrow> bool" where
  "typeof_object (JObj _) = True"
| "typeof_object (JArr _) = True"
| "typeof_object (JDate _) = True"
| "typeof_object _ = False"

definition isValidPalette :: "json \<Rightarrow> bool" where
  "isValidPalette value \<longleftrightarrow>
    typeof_object value \<and>
    list_all (\<lambda>key. case json_field value key of JStr v \<Rightarrow> HEX_COLOR_RE v | _ \<Rightarrow> False) PALETTE_KEYS"

definition isValidEmailBrandPalette :: "json \<Rightarrow> bool" where
  "isValidEmailBrandPalette value \<longleftrightarrow>
    typeof_object value \<and>
    isValidPalette (json_field value ''light'') \<and> isValidPalette (json_field value ''dark'')"

section \<open>The service\<close>

definition default_settings :: "string \<Rightarrow> settings" where
  "default_settings k =
    \<lparr> s_coachId = k, s_businessAddress = [], s_cancellationNoticeHours = 48,
      s_businessTimezone = ''Europe/Budapest'', s_emailFrom = None, s_brandName = None,
      s_brandTagline = None, s_emailBrandPalette = None \<rparr>"

definition settings_get :: "string \<Rightarrow> world \<Rightarrow> (world, settings) outcome" where
  "settings_get coachId w =
    (case findUnique c_id coachId (coaches w) of
       None \<Rightarrow> (Inl (NotFound (Text ''Coach not found'')), w)
     | Some _ \<Rightarrow>
         (case findUnique s_coachId coachId (settingsRows w) of
            Some s \<Rightarrow> (Inr s, w)
          | None \<Rightarrow>
              (Inr (default_settings coachId),
               w\<lparr>settingsRows := createRow (default_settings coachId) (settingsRows w)\<rparr>)))"

record updateSettingsDto =
  us_businessAddress :: "string patch"
  us_cancellationNoticeHours :: "int patch"
  us_businessTimezone :: "string patch"
  us_emailFrom :: "string patch"
  us_brandName :: "string patch"
  us_brandTagline :: "string patch"
  us_emailBrandPalette :: json  \<comment> \<open>undefined, null, or an object\<close>

definition apply_settings_dto :: "updateSettingsDto \<Rightarrow> settings \<Rightarrow> settings" where
  "apply_settings_dto dto s =
    s\<lparr> s_businessAddress := patched (us_businessAddress dto) (s_businessAddress s),
       s_cancellationNoticeHours :=
         patched (us_cancellationNoticeHours dto) (s_cancellationNoticeHours s),
       s_businessTimezone := patched (us_businessTimezone dto) (s_businessTimezone s),
       s_emailFrom := patched_nullable (us_emailFrom dto) (s_emailFrom s),
       s_brandName := patched_nullable (us_brandName dto) (s_brandName s),
       s_brandTagline := patched_nullable (us_brandTagline dto) (s_brandTagline s),
       s_emailBrandPalette :=
         (case us_emailBrandPalette dto of
            JUndefined \<Rightarrow> s_emailBrandPalette s
          | v \<Rightarrow> Some v) \<rparr>"

definition palette_message :: string where
  "palette_message = ''emailBrandPalette must have light/dark objects, each with hex color values for bg, bgPanel, bgCard, ink, inkSoft, accent, accentSoft, line, brown''"

definition settings_update :: "string \<Rightarrow> updateSettingsDto \<Rightarrow> world \<Rightarrow> (world, settings) outcome" where
  "settings_update coachId dto w =
    andThen (settings_get coachId w) (\<lambda>_ w.
      if us_emailBrandPalette dto \<noteq> JUndefined \<and> us_emailBrandPalette dto \<noteq> JNull \<and>
         \<not> isValidEmailBrandPalette (us_emailBrandPalette dto)
      then (Inl (BadRequest (Text palette_message)), w)
      else if us_businessAddress dto = Null \<or> us_cancellationNoticeHours dto = Null \<or>
              us_businessTimezone dto = Null
      then (Inl PrismaValidation, w)
      else (case findUnique s_coachId coachId (settingsRows w) of
              None \<Rightarrow> (Inl P2025, w)
            | Some s \<Rightarrow>
                (Inr (apply_settings_dto dto s),
                 w\<lparr>settingsRows :=
                     updateRow s_coachId coachId (apply_settings_dto dto) (settingsRows w)\<rparr>)))"

section \<open>Rows created by their first read\<close>

locale lazy_row =
  fixes get :: "string \<Rightarrow> 'w \<Rightarrow> ('w, 'r) outcome"
    and stored :: "'w \<Rightarrow> 'r list"
    and known :: "string \<Rightarrow> 'w \<Rightarrow> bool"
    and owner :: "'r \<Rightarrow> string"
    and fresh :: "string \<Rightarrow> 'r"
    and frame :: "'w \<Rightarrow> 'f"
  assumes get_unknown: "\<not> known k w \<Longrightarrow> \<exists>e. get k w = (Inl (NotFound e), w)"
    and get_stored: "known k w \<Longrightarrow> findUnique owner k (stored w) = Some r \<Longrightarrow> get k w = (Inr r, w)"
    and get_fresh: "known k w \<Longrightarrow> findUnique owner k (stored w) = None \<Longrightarrow> get k w = (Inr r, w') \<Longrightarrow>
      r = fresh k \<and> stored w' = createRow r (stored w)"
    and get_total: "known k w \<Longrightarrow> \<exists>r w'. get k w = (Inr r, w')"
    and get_frame: "frame (snd (get k w)) = frame w"
    and known_frame: "frame w = frame w' \<Longrightarrow> known k w = known k w'"
    and owner_fresh: "owner (fresh k) = k"
begin

lemma get_InrD:
  assumes "get k w = (Inr r, w')"
  shows "known k w \<and> owner r = k \<and> findUnique owner k (stored w') = Some r"
proof -
  have k: "known k w" using get_unknown [of k w] assms by force
  show ?thesis
  proof (cases "findUnique owner k (stored w)")
    case None
    with get_fresh [OF k None assms] owner_fresh k show ?thesis
      by (simp add: findUnique_createRow del: findUnique_None)
  next
    case (Some r')
    with get_stored [OF k Some] assms k show ?thesis by (auto dest: findUnique_key)
  qed
qed

lemma get_frameD: "get k w = (x, w') \<Longrightarrow> frame w' = frame w"
  using get_frame [of k w] by simp

text \<open>A second read gives the same row and leaves the state as it is.\<close>

lemma get_again:
  assumes "get k w = (Inr r, w')"
  shows "get k w' = (Inr r, w')"
  using get_InrD [OF assms] known_frame [OF get_frameD [OF assms]] by (simp add: get_stored)

lemma get_InlD:
  assumes "get k w = (Inl e, w')"
  shows "w' = w \<and> \<not> known k w"
proof (cases "known k w")
  case True
  with get_total [OF True] assms show ?thesis by auto
next
  case False
  with get_unknown [OF False] assms show ?thesis by auto
qed

text \<open>The row of another owner is found as before.\<close>

lemma get_other:
  assumes "get k w = (x, w')" and "k' \<noteq> k"
  shows "findUnique owner k' (stored w') = findUnique owner k' (stored w)"
proof (cases x)
  case (Inl e)
  with get_InlD assms(1) show ?thesis by blast
next
  case (Inr r)
  with assms(1) have g: "get k w = (Inr r, w')" by simp
  show ?thesis
  proof (cases "findUnique owner k (stored w)")
    case None
    with get_fresh [OF _ None g] get_InrD [OF g] assms(2) owner_fresh show ?thesis
      by (auto simp: findUnique_createRow simp del: findUnique_None split: option.splits)
  next
    case (Some r')
    with get_stored [OF _ Some] get_InrD [OF g] g show ?thesis by simp
  qed
qed

end

text \<open>What a read of the settings leaves alone.\<close>

definition beside_settings :: "world \<Rightarrow> world" where
  "beside_settings w = w\<lparr>settingsRows := []\<rparr>"

lemma beside_settings_eq:
  "beside_settings w = beside_settings w' \<longleftrightarrow> w' = w\<lparr>settingsRows := settingsRows w'\<rparr>"
  by (cases w; cases w') (auto simp: beside_settings_def)

lemma beside_settingsD:
  assumes "beside_settings w = beside_settings w'"
  shows "coaches w = coaches w'" "eventTypes w = eventTypes w'" "weeklies w = weeklies w'"
    "overrides w = overrides w'" "bookings w = bookings w'"
    "googleIntegrations w = googleIntegrations w'" "allowedOrigins w = allowedOrigins w'"
    "jobs w = jobs w'" "externals w = externals w'"
  using assms by (cases w; cases w'; simp add: beside_settings_def)+

interpretation sg: lazy_row settings_get settingsRows coach_exists s_coachId default_settings
    beside_settings
proof unfold_locales
  show "coach_exists k w = coach_exists k w'" if "beside_settings w = beside_settings w'" for w w' k
    using beside_settingsD(1) [OF that] by (simp add: coach_exists_def)
  show "beside_settings (snd (settings_get k w)) = beside_settings w" for k w
    by (auto simp: settings_get_def beside_settings_def split: option.splits)
next
  fix k w r
  assume "coach_exists k w" "findUnique s_coachId k (settingsRows w) = Some r"
  then show "settings_get k w = (Inr r, w)"
    by (auto simp: settings_get_def coach_exists_def dest!: findUnique_exists)
next
  fix k w r w'
  assume "coach_exists k w" "findUnique s_coachId k (settingsRows w) = None"
    "settings_get k w = (Inr r, w')"
  then show "r = default_settings k \<and> settingsRows w' = createRow r (settingsRows w)"
    by (auto simp: settings_get_def simp del: findUnique_None split: option.splits)
qed (auto simp: settings_get_def coach_exists_def default_settings_def split: option.splits)

lemma settings_get_ok:
  "constraints_ok w \<Longrightarrow> settings_get k w = (x, w') \<Longrightarrow> constraints_ok w'"
  by (auto simp: settings_get_def constraints_ok_def default_settings_def coach_exists_found
      split: option.splits)

lemma apply_settings_coachId [simp]: "s_coachId (apply_settings_dto dto s) = s_coachId s"
  by (simp add: apply_settings_dto_def)

lemma settings_update_ok:
  assumes "constraints_ok w" and "settings_update k dto w = (x, w')"
  shows "constraints_ok w'"
  using assms(2) unfolding settings_update_def
proof (rule andThen_cases)
  fix e assume "settings_get k w = (Inl e, w')"
  with assms(1) show ?thesis by (rule settings_get_ok)
next
  fix s w1 assume g: "settings_get k w = (Inr s, w1)"
  have "map s_coachId (updateRow s_coachId k (apply_settings_dto dto) t) = map s_coachId t"
    and "s_coachId ` set (updateRow s_coachId k (apply_settings_dto dto) t) = s_coachId ` set t" for t
    by (rule map_updateRow_same image_updateRow; simp)+
  moreover assume "(if us_emailBrandPalette dto \<noteq> JUndefined \<and> us_emailBrandPalette dto \<noteq> JNull \<and>
         \<not> isValidEmailBrandPalette (us_emailBrandPalette dto)
      then (Inl (BadRequest (Text palette_message)), w1)
      else if us_businessAddress dto = Null \<or> us_cancellationNoticeHours dto = Null \<or>
              us_businessTimezone dto = Null
      then (Inl PrismaValidation, w1)
      else (case findUnique s_coachId k (settingsRows w1) of
              None \<Rightarrow> (Inl P2025, w1)
            | Some s \<Rightarrow>
                (Inr (apply_settings_dto dto s),
                 w1\<lparr>settingsRows :=
                     updateRow s_coachId k (apply_settings_dto dto) (settingsRows w1)\<rparr>))) = (x, w')"
  ultimately show ?thesis
    using settings_get_ok [OF assms(1) g]
    by (auto simp: constraints_ok_def set_updateRow split: if_splits option.splits)
qed

section \<open>Well-formed rows\<close>

text \<open>What the request validation guarantees, and what every stored row satisfies.\<close>

definition valid_settings_dto :: "updateSettingsDto \<Rightarrow> bool" where
  "valid_settings_dto dto \<longleftrightarrow>
    (case us_cancellationNoticeHours dto of Val h \<Rightarrow> 0 \<le> h \<and> h \<le> 24 * 30 | _ \<Rightarrow> True)"

definition settings_wf :: "settings \<Rightarrow> bool" where
  "settings_wf s \<longleftrightarrow>
    0 \<le> s_cancellationNoticeHours s \<and> s_cancellationNoticeHours s \<le> 24 * 30 \<and>
    (case s_emailBrandPalette s of None \<Rightarrow> True | Some v \<Rightarrow> v = JNull \<or> isValidEmailBrandPalette v)"

lemma default_settings_wf: "settings_wf (default_settings k)"
  by (simp add: settings_wf_def default_settings_def)

lemma settings_get_wf:
  "\<forall>s \<in> set (settingsRows w). settings_wf s \<Longrightarrow> settings_get k w = (x, w') \<Longrightarrow>
   \<forall>s \<in> set (settingsRows w'). settings_wf s"
  by (auto simp: settings_get_def default_settings_wf split: option.splits)

lemma apply_settings_wf:
  assumes "settings_wf s" and "valid_settings_dto dto"
    and "us_emailBrandPalette dto = JUndefined \<or> us_emailBrandPalette dto = JNull \<or>
      isValidEmailBrandPalette (us_emailBrandPalette dto)"
  shows "settings_wf (apply_settings_dto dto s)"
  using assms
  by (cases "us_cancellationNoticeHours dto"; cases "us_emailBrandPalette dto")
    (auto simp: settings_wf_def apply_settings_dto_def valid_settings_dto_def)

end
