(* ===== verification/Slots.thy ===== *)
theory Slots
  imports Availability Settings
begin

text \<open>
  The offer of free slots (slots.service.ts).  The loops of the code are written as partial
  functions, so that not ending is the value \<open>None\<close>; \<open>offered_slots\<close> is the
  specification, a comprehension over days, ranges and starting minutes.

  The lemmas show that the loops compute the comprehension, and that a slot on offer lies in
  the schedule, after the cutoff, and clear of every confirmed booking of the coach.
\<close>

record slot =
  sl_coachId :: string
  sl_startAt :: string
  sl_endAt :: string

definition MAX_RANGE_DAYS :: int where "MAX_RANGE_DAYS = 90"

record querySlotsDto =
  q_eventTypeId :: string
  q_from :: string
  q_to :: string
  q_excludeBookingId :: "string option"

text \<open>The context of one computation: what the two loops read and never change.\<close>

record slotContext =
  sc_timezone :: string
  sc_coachId :: string
  sc_durationMinutes :: int
  sc_cutoff :: int
  sc_existing :: "(int \<times> int) list"

section \<open>One starting minute\<close>

definition slot_start :: "luxon \<Rightarrow> slotContext \<Rightarrow> int \<Rightarrow> int \<Rightarrow> int" where
  "slot_start lx sc day m = lx_setTime lx (sc_timezone sc) day (m div 60) (m mod 60)"

definition slot_end :: "luxon \<Rightarrow> slotContext \<Rightarrow> int \<Rightarrow> int \<Rightarrow> int" where
  "slot_end lx sc day m =
    lx_plusMinutes lx (slot_start lx sc day m) (of_int (sc_durationMinutes sc))"

definition slot_free :: "luxon \<Rightarrow> slotContext \<Rightarrow> int \<Rightarrow> int \<Rightarrow> bool" where
  "slot_free lx sc day m \<longleftrightarrow>
    \<not> slot_start lx sc day m < sc_cutoff sc \<and>
    \<not> list_ex (\<lambda>(s, e). s < slot_end lx sc day m \<and> slot_start lx sc day m < e) (sc_existing sc)"

definition slot_at :: "luxon \<Rightarrow> slotContext \<Rightarrow> int \<Rightarrow> int \<Rightarrow> slot" where
  "slot_at lx sc day m =
    \<lparr> sl_coachId = sc_coachId sc, sl_startAt = lx_toUTCISO lx (slot_start lx sc day m),
      sl_endAt = lx_toUTCISO lx (slot_end lx sc day m) \<rparr>"

section \<open>The loops\<close>

partial_function (option) minute_loop ::
  "luxon \<Rightarrow> slotContext \<Rightarrow> int \<Rightarrow> int \<Rightarrow> int \<Rightarrow> slot list \<Rightarrow> slot list option" where
  "minute_loop lx sc day m e slots =
    (if m + sc_durationMinutes sc \<le> e then
       minute_loop lx sc day (m + sc_durationMinutes sc) e
         (if slot_free lx sc day m then slots @ [slot_at lx sc day m] else slots)
     else Some slots)"

fun ranges_loop ::
  "luxon \<Rightarrow> slotContext \<Rightarrow> int \<Rightarrow> int minuteRange list \<Rightarrow> slot list \<Rightarrow> slot list option" where
  "ranges_loop lx sc day [] slots = Some slots"
| "ranges_loop lx sc day (r # rs) slots =
     Option.bind (minute_loop lx sc day (startMinute r) (endMinute r) slots)
       (ranges_loop lx sc day rs)"

partial_function (option) day_loop ::
  "luxon \<Rightarrow> slotContext \<Rightarrow> (string \<rightharpoonup> int minuteRange list) \<Rightarrow> int \<Rightarrow> int \<Rightarrow> slot list \<Rightarrow>
   slot list option" where
  "day_loop lx sc rangesByDate to day slots =
    (if day \<le> to then
       (let ranges = (case rangesByDate (lx_toISODate lx (sc_timezone sc) day) of
                        None \<Rightarrow> [] | Some rs \<Rightarrow> rs)
        in Option.bind (ranges_loop lx sc day ranges slots)
             (day_loop lx sc rangesByDate to (lx_plusDays lx (sc_timezone sc) day 1)))
     else Some slots)"

section \<open>The service\<close>

definition eventTypeNotFound :: "string option \<Rightarrow> err" where
  "eventTypeNotFound locale = NotFound (I18n ''errors.eventTypeNotFound'' locale [])"

text \<open>The cutoff, and the bookings of the range, fetched before the loops (lines 64 to 78).\<close>

definition slots_context ::
  "luxon \<Rightarrow> int \<Rightarrow> querySlotsDto \<Rightarrow> world \<Rightarrow> eventType \<Rightarrow> settings \<Rightarrow> int \<Rightarrow> int \<Rightarrow> slotContext" where
  "slots_context lx now query w et settings from to =
    \<lparr> sc_timezone = s_businessTimezone settings,
      sc_coachId = et_coachId et,
      sc_durationMinutes = et_durationMinutes et,
      sc_cutoff = lx_plusHours lx now (s_cancellationNoticeHours settings),
      sc_existing = map (\<lambda>b. (b_startAt b, b_endAt b))
        (findMany (\<lambda>b. b_coachId b = et_coachId et \<and> b_status b = CONFIRMED \<and>
             (truthy (q_excludeBookingId query) \<longrightarrow> Some (b_id b) \<noteq> q_excludeBookingId query) \<and>
             from \<le> b_startAt b \<and>
             b_endAt b \<le> lx_plusDays lx (s_businessTimezone settings) to 1)
           (bookings w)) \<rparr>"

definition computeSlots ::
  "luxon \<Rightarrow> int \<Rightarrow> querySlotsDto \<Rightarrow> world \<Rightarrow> (world, slot list) outcome option" where
  "computeSlots lx now query w =
    (case findUnique et_id (q_eventTypeId query) (eventTypes w) of
       None \<Rightarrow> Some (Inl (eventTypeNotFound None), w)
     | Some et \<Rightarrow>
         if \<not> et_isActive et then Some (Inl (eventTypeNotFound None), w)
         else case settings_get (et_coachId et) w of
           (Inl e, w1) \<Rightarrow> Some (Inl e, w1)
         | (Inr settings, w1) \<Rightarrow>
             (let timezone = s_businessTimezone settings;
                  from1 = map_option (lx_startOfDay lx timezone)
                    (lx_fromISO lx (q_from query) timezone);
                  to1 = map_option (lx_startOfDay lx timezone)
                    (lx_fromISO lx (q_to query) timezone)
              in case (from1, to1) of
                (Some from, Some to) \<Rightarrow>
                  if to < from
                  then Some (Inl (BadRequest (I18n ''errors.invalidDateRange'' None [])), w1)
                  else if of_int MAX_RANGE_DAYS < lx_diffDays lx timezone to from
                  then Some (Inl (BadRequest (I18n ''errors.rangeTooLong'' None
                         [(''days'', MAX_RANGE_DAYS)])), w1)
                  else
                    (let sc = slots_context lx now query w1 et settings from to
                     in case getEffectiveRangesForDateRange lx w1 (et_coachId et)
                           (lx_toISODate lx timezone from) (lx_toISODate lx timezone to) timezone of
                          None \<Rightarrow> None
                        | Some (Inl e) \<Rightarrow> Some (Inl e, w1)
                        | Some (Inr rangesByDate) \<Rightarrow>
                            map_option (\<lambda>slots. (Inr slots, w1))
                              (day_loop lx sc rangesByDate to from []))
              | _ \<Rightarrow> Some (Inl (BadRequest (I18n ''errors.invalidDateRange'' None [])), w1)))"

section \<open>The loops compute a comprehension\<close>

definition range_starts :: "int \<Rightarrow> int minuteRange \<Rightarrow> int list" where
  "range_starts d r =
    map (\<lambda>k. startMinute r + int k * d) [0 ..< nat ((endMinute r - startMinute r) div d)]"

definition day_slots :: "luxon \<Rightarrow> slotContext \<Rightarrow> int \<Rightarrow> int minuteRange list \<Rightarrow> slot list" where
  "day_slots lx sc day rs =
    concat (map (\<lambda>r. map (slot_at lx sc day)
      (filter (slot_free lx sc day) (range_starts (sc_durationMinutes sc) r))) rs)"

lemma range_starts_step:
  assumes "0 < d"
  shows "range_starts d \<lparr>startMinute = m, endMinute = e\<rparr> =
    (if m + d \<le> e then m # range_starts d \<lparr>startMinute = m + d, endMinute = e\<rparr> else [])"
proof (cases "m + d \<le> e")
  case True
  have "(e - m) div d = (e - (m + d)) div d + 1"
    using div_add_self2 [of d "e - (m + d)"] assms by (simp add: algebra_simps)
  moreover have "0 \<le> (e - (m + d)) div d" using True assms by (simp add: pos_imp_zdiv_nonneg_iff)
  ultimately have "nat ((e - m) div d) = Suc (nat ((e - (m + d)) div d))" by simp
  then have "[0 ..< nat ((e - m) div d)] = 0 # map Suc [0 ..< nat ((e - (m + d)) div d)]"
    by (simp only: upt_conv_Cons zero_less_Suc map_Suc_upt)
  with True show ?thesis by (simp add: range_starts_def algebra_simps)
next
  case False
  then have "(e - m) div d \<le> 0"
    using assms zdiv_mono1 [of "e - m" "d - 1" d] by simp
  with False show ?thesis by (simp add: range_starts_def)
qed

lemma range_starts_mem:
  assumes "0 < d" and "m \<in> set (range_starts d r)"
  shows "startMinute r \<le> m \<and> m + d \<le> endMinute r"
proof -
  obtain k where k: "m = startMinute r + int k * d" "k < nat ((endMinute r - startMinute r) div d)"
    using assms(2) unfolding range_starts_def by fastforce
  then have "int k + 1 \<le> (endMinute r - startMinute r) div d" by linarith
  then have "(int k + 1) * d \<le> (endMinute r - startMinute r) div d * d"
    using assms(1) by (intro mult_right_mono) simp_all
  also have "\<dots> \<le> endMinute r - startMinute r"
    using assms(1) by (metis div_mult_mod_eq le_add_same_cancel1 pos_mod_sign)
  finally have "m + d \<le> endMinute r" using k(1) by (simp add: algebra_simps)
  moreover have "0 \<le> int k * d" using assms(1) by simp
  ultimately show ?thesis using k(1) by linarith
qed

lemma minute_loop_eq:
  assumes "0 < sc_durationMinutes sc"
  shows "minute_loop lx sc day m e slots = Some (slots @ map (slot_at lx sc day)
    (filter (slot_free lx sc day)
      (range_starts (sc_durationMinutes sc) \<lparr>startMinute = m, endMinute = e\<rparr>)))"
proof (induction "nat (e - m)" arbitrary: m slots rule: less_induct)
  case less
  show ?case
  proof (cases "m + sc_durationMinutes sc \<le> e")
    case True
    with assms have "nat (e - (m + sc_durationMinutes sc)) < nat (e - m)" by simp
    from less [OF this] True show ?thesis
      by (subst minute_loop.simps, subst range_starts_step [OF assms]) simp
  next
    case False
    then show ?thesis
      by (subst minute_loop.simps, subst range_starts_step [OF assms]) simp
  qed
qed

lemma minuteRange_eta: "\<lparr>startMinute = startMinute r, endMinute = endMinute r\<rparr> = r"
  for r :: "'n minuteRange"
  by (cases r) simp

lemma ranges_loop_eq:
  "0 < sc_durationMinutes sc \<Longrightarrow>
   ranges_loop lx sc day rs slots = Some (slots @ day_slots lx sc day rs)"
  by (induction rs arbitrary: slots) (auto simp: minute_loop_eq day_slots_def minuteRange_eta)

lemma day_loop_eq:
  assumes z: "luxon_zone lx (sc_timezone sc) mid" and dur: "0 < sc_durationMinutes sc"
    and "four_digit_day a" and b: "four_digit_day b" "four_digit_day (b + 1)" and "a \<le> b + 1"
  shows "day_loop lx sc rbd (mid b) (mid a) slots =
    Some (slots @ concat (map (\<lambda>d. day_slots lx sc (mid d)
      (case rbd (iso_date d) of None \<Rightarrow> [] | Some rs \<Rightarrow> rs)) [a .. b]))"
  using assms(3,6)
proof (induction "nat (b + 1 - a)" arbitrary: a slots)
  case 0
  then have "a = b + 1" by simp
  then show ?case
    using luxon_zone_le_iff [OF z b(2,1)] by (subst day_loop.simps) simp
next
  case (Suc n)
  from Suc have le: "a \<le> b" by linarith
  from le Suc.prems(1) b have a': "four_digit_day (a + 1)" by (simp add: four_digit_day_def)
  have "mid a \<le> mid b" using luxon_zone_le_iff [OF z Suc.prems(1) b(1)] le by simp
  then have "day_loop lx sc rbd (mid b) (mid a) slots =
      day_loop lx sc rbd (mid b) (mid (a + 1)) (slots @ day_slots lx sc (mid a)
        (case rbd (iso_date a) of None \<Rightarrow> [] | Some rs \<Rightarrow> rs))"
    using luxon_zone_midnight [OF z Suc.prems(1)] luxon_zoneD(5) [OF z Suc.prems(1)]
    by (subst day_loop.simps) (simp add: ranges_loop_eq [OF dur])
  also have "\<dots> = Some ((slots @ day_slots lx sc (mid a)
        (case rbd (iso_date a) of None \<Rightarrow> [] | Some rs \<Rightarrow> rs)) @
      concat (map (\<lambda>d. day_slots lx sc (mid d)
        (case rbd (iso_date d) of None \<Rightarrow> [] | Some rs \<Rightarrow> rs)) [a + 1 .. b]))"
    using Suc.hyps(2) a' le by (intro Suc.hyps(1)) linarith+
  finally show ?case using le by (simp add: upto_rec1)
qed

section \<open>What is offered\<close>

definition effective :: "luxon \<Rightarrow> world \<Rightarrow> string \<Rightarrow> string \<Rightarrow> int \<Rightarrow> int minuteRange list" where
  "effective lx w c tz d =
    (case getEffectiveRangesForDate lx w c (iso_date d) tz of Inl _ \<Rightarrow> [] | Inr rs \<Rightarrow> rs)"

definition offered_slots ::
  "luxon \<Rightarrow> world \<Rightarrow> slotContext \<Rightarrow> (int \<Rightarrow> int) \<Rightarrow> int \<Rightarrow> int \<Rightarrow> slot list" where
  "offered_slots lx w sc mid a b =
    concat (map (\<lambda>d. day_slots lx sc (mid d)
      (effective lx w (sc_coachId sc) (sc_timezone sc) d)) [a .. b])"

lemma effective_frame:
  assumes "beside_settings w = beside_settings w'"
  shows "effective lx w c tz d = effective lx w' c tz d"
  unfolding effective_def ranges_frame [OF beside_settingsD(4) [OF assms] beside_settingsD(3) [OF assms]] ..

lemma slots_context_sel [simp]:
  "sc_timezone (slots_context lx now q w et st from to) = s_businessTimezone st"
  "sc_coachId (slots_context lx now q w et st from to) = et_coachId et"
  "sc_durationMinutes (slots_context lx now q w et st from to) = et_durationMinutes et"
  by (simp_all add: slots_context_def)

lemma day_loop_offered:
  assumes z: "luxon_zone lx (sc_timezone sc) mid" and dur: "0 < sc_durationMinutes sc"
    and a: "four_digit_day a" and b: "four_digit_day b" "four_digit_day (b + 1)" and "a \<le> b"
    and mn: "dates_midnight (overrides w)"
  shows "\<exists>m. getEffectiveRangesForDateRange lx w (sc_coachId sc) (iso_date a) (iso_date b)
        (sc_timezone sc) = Some (Inr m) \<and>
      day_loop lx sc m (mid b) (mid a) [] = Some (offered_slots lx w sc mid a b)"
proof -
  obtain m where m: "getEffectiveRangesForDateRange lx w (sc_coachId sc) (iso_date a) (iso_date b)
        (sc_timezone sc) = Some (Inr m)"
    and in_range: "\<And>d. four_digit_day d \<Longrightarrow> a \<le> d \<Longrightarrow> d \<le> b \<Longrightarrow>
        \<exists>rs. m (iso_date d) = Some rs \<and>
          getEffectiveRangesForDate lx w (sc_coachId sc) (iso_date d) (sc_timezone sc) = Inr rs"
    using range_agrees_pointwise_aux [OF z a b mn, of "sc_coachId sc"] by metis
  have "(case m (iso_date d) of None \<Rightarrow> [] | Some rs \<Rightarrow> rs) =
      effective lx w (sc_coachId sc) (sc_timezone sc) d" if "d \<in> set [a .. b]" for d
  proof -
    from that a b have "four_digit_day d" by (auto simp: four_digit_day_def)
    from in_range [OF this] that show ?thesis by (auto simp: effective_def)
  qed
  then have "map (\<lambda>d. day_slots lx sc (mid d) (case m (iso_date d) of None \<Rightarrow> [] | Some rs \<Rightarrow> rs)) [a .. b] =
      map (\<lambda>d. day_slots lx sc (mid d) (effective lx w (sc_coachId sc) (sc_timezone sc) d)) [a .. b]"
    by (intro map_cong) simp_all
  with day_loop_eq [OF z dur a b, of m "[]"] \<open>a \<le> b\<close> m show ?thesis
    by (simp add: offered_slots_def)
qed

lemma computeSlots_eq:
  assumes et: "findUnique et_id (q_eventTypeId q) (eventTypes w) = Some et" "et_isActive et"
    and st: "settings_get (et_coachId et) w = (Inr st, w1)"
    and z: "luxon_zone lx (s_businessTimezone st) mid" and dur: "0 < et_durationMinutes et"
    and q: "q_from q = iso_date a" "q_to q = iso_date b"
    and a: "four_digit_day a" and b: "four_digit_day b" "four_digit_day (b + 1)"
    and mn: "dates_midnight (overrides w)"
  shows "computeSlots lx now q w = Some
    (if b < a then Inl (BadRequest (I18n ''errors.invalidDateRange'' None []))
     else if 90 < b - a
     then Inl (BadRequest (I18n ''errors.rangeTooLong'' None [(''days'', 90)]))
     else Inr (offered_slots lx w (slots_context lx now q w et st (mid a) (mid b)) mid a b), w1)"
proof -
  let ?sc = "slots_context lx now q w1 et st (mid a) (mid b)"
  have fr: "beside_settings w1 = beside_settings w" using sg.get_frameD [OF st] .
  then have sc: "?sc = slots_context lx now q w et st (mid a) (mid b)"
    by (simp add: slots_context_def beside_settingsD(5) [OF fr])
  have os: "offered_slots lx w1 ?sc mid a b = offered_slots lx w ?sc mid a b"
    using effective_frame [OF fr] by (simp add: offered_slots_def)
  have mn1: "dates_midnight (overrides w1)" using mn by (simp add: beside_settingsD(4) [OF fr])
  have diff: "lx_diffDays lx (s_businessTimezone st) (mid b) (mid a) = of_int (b - a)"
    by (rule luxon_zoneD(7) [OF z b(1) a])
  have loop: "\<exists>m. getEffectiveRangesForDateRange lx w1 (et_coachId et) (iso_date a) (iso_date b)
        (s_businessTimezone st) = Some (Inr m) \<and>
      day_loop lx ?sc m (mid b) (mid a) [] = Some (offered_slots lx w1 ?sc mid a b)" if "a \<le> b"
    using day_loop_offered [of lx ?sc mid a b w1] z dur a b that mn1 by simp
  have "of_int MAX_RANGE_DAYS < (of_int (b - a) :: rat) \<longleftrightarrow> 90 < b - a"
    by (simp only: MAX_RANGE_DAYS_def of_int_less_iff)
  then show ?thesis
    using loop luxon_zone_less_iff [OF z b(1) a]
    by (auto simp: computeSlots_def et st q luxon_zoneD(6) [OF z a] luxon_zoneD(6) [OF z b(1)]
        luxon_zone_midnight [OF z a] luxon_zone_midnight [OF z b(1)] diff Let_def MAX_RANGE_DAYS_def
        os [unfolded sc] sc simp del: of_int_diff)
qed

text \<open>Every confirmed booking lies within one local day.\<close>

definition one_day_bookings :: "(int \<Rightarrow> int) \<Rightarrow> booking list \<Rightarrow> bool" where
  "one_day_bookings mid bs \<longleftrightarrow> (\<forall>b \<in> set bs. b_status b = CONFIRMED \<longrightarrow>
     (\<exists>d. four_digit_day d \<and> four_digit_day (d + 1) \<and> mid d \<le> b_startAt b \<and> b_endAt b \<le> mid (d + 1)))"

lemma slot_start_regular:
  assumes "regular_day lx (sc_timezone sc) mid d" and "0 \<le> m" and "m < 24 * 60"
  shows "slot_start lx sc (mid d) m = mid d + m * ms_per_min"
proof -
  have "m div 60 < 24" "0 \<le> m div 60" using assms(2,3) by (simp_all add: pos_imp_zdiv_nonneg_iff)
  moreover have "0 \<le> m mod 60" "m mod 60 < 60" by simp_all
  ultimately have "slot_start lx sc (mid d) m = mid d + (m div 60 * 60 + m mod 60) * ms_per_min"
    using assms(1) unfolding regular_day_def slot_start_def by blast
  then show ?thesis by (simp only: div_mult_mod_eq)
qed

lemma slot_end_eq:
  "luxon_instants lx \<Longrightarrow> slot_end lx sc day m =
     slot_start lx sc day m + sc_durationMinutes sc * ms_per_min"
  by (simp add: slot_end_def luxon_instantsD)

lemma offered_slotsD:
  assumes "s \<in> set (offered_slots lx w sc mid a b)" and "0 < sc_durationMinutes sc"
  obtains d r m where "a \<le> d" "d \<le> b"
    "r \<in> set (effective lx w (sc_coachId sc) (sc_timezone sc) d)"
    "startMinute r \<le> m" "m + sc_durationMinutes sc \<le> endMinute r"
    "slot_free lx sc (mid d) m" "s = slot_at lx sc (mid d) m"
proof -
  from assms(1) obtain d r m where "a \<le> d" "d \<le> b"
    "r \<in> set (effective lx w (sc_coachId sc) (sc_timezone sc) d)"
    "slot_free lx sc (mid d) m" "s = slot_at lx sc (mid d) m"
    and "m \<in> set (range_starts (sc_durationMinutes sc) r)"
    unfolding offered_slots_def day_slots_def by auto
  with range_starts_mem [OF assms(2)] that show thesis by blast
qed

text \<open>
  A slot that is free among the fetched bookings is free among all of them: a booking that
  overlaps it lies in the same local day, and every booking of that day was fetched.
\<close>

lemma free_among_all:
  assumes z: "luxon_zone lx (s_businessTimezone st) mid"
    and ab: "four_digit_day a" "four_digit_day b" "four_digit_day (b + 1)"
    and d: "a \<le> d" "d \<le> b"
    and inside: "mid d \<le> s" "s < e" "e \<le> mid (d + 1)"
    and clear: "\<not> list_ex (\<lambda>(s', e'). s' < e \<and> s < e')
      (sc_existing (slots_context lx now q w et st (mid a) (mid b)))"
    and one: "one_day_bookings mid (bookings w)"
    and bk: "bk \<in> set (bookings w)" "b_coachId bk = et_coachId et" "b_status bk = CONFIRMED"
      "truthy (q_excludeBookingId q) \<longrightarrow> Some (b_id bk) \<noteq> q_excludeBookingId q"
  shows "\<not> (b_startAt bk < e \<and> s < b_endAt bk)"
proof
  assume over: "b_startAt bk < e \<and> s < b_endAt bk"
  obtain d' where d': "four_digit_day d'" "four_digit_day (d' + 1)"
    "mid d' \<le> b_startAt bk" "b_endAt bk \<le> mid (d' + 1)"
    using one bk(1,3) by (auto simp: one_day_bookings_def)
  have fd: "four_digit_day d" "four_digit_day (d + 1)"
    using ab d by (simp_all add: four_digit_day_def)
  have "mid d' < mid (d + 1)" using over d'(3) inside(3) by linarith
  then have "d' < d + 1" using luxon_zone_less_iff [OF z d'(1) fd(2)] by simp
  moreover have "mid d < mid (d' + 1)" using over d'(4) inside(1) by linarith
  then have "d < d' + 1" using luxon_zone_less_iff [OF z fd(1) d'(2)] by simp
  ultimately have "d' = d" by simp
  have "mid a \<le> mid d" "mid (d + 1) \<le> mid (b + 1)"
    using luxon_zone_le_iff [OF z ab(1) fd(1)] luxon_zone_le_iff [OF z fd(2) ab(3)] d by simp_all
  then have "mid a \<le> b_startAt bk" "b_endAt bk \<le> mid (b + 1)"
    using d'(3,4) \<open>d' = d\<close> by simp_all
  then have "(b_startAt bk, b_endAt bk) \<in> set (sc_existing
      (slots_context lx now q w et st (mid a) (mid b)))"
    using bk by (auto simp: slots_context_def luxon_zoneD(5) [OF z ab(2)])
  with clear over show False by (auto simp: list_ex_iff)
qed

end
