(* ===== verification/Crypto.thy ===== *)
theory Crypto
  imports Prelude
begin

text \<open>
  The encryption of stored refresh tokens (crypto.util.ts).  The cipher (aes-256-gcm of the
  platform) is a parameter: sealing gives a ciphertext and a tag, opening gives the plain
  text or fails.  The base64 text form of the payload is modelled, with the reader that
  skips characters outside the alphabet.  Texts are sequences of bytes.
\<close>

section \<open>Base64\<close>

definition base64_alphabet :: string where
  "base64_alphabet = ''ABCDEFGHIJKLMNOPQRSTUVWXYZabcdefghijklmnopqrstuvwxyz0123456789+/''"

definition sextet_char :: "nat \<Rightarrow> char" where
  "sextet_char n = base64_alphabet ! n"

text \<open>The reader also takes the two characters of the variant for URLs.\<close>

definition char_sextet :: "char \<Rightarrow> nat option" where
  "char_sextet c =
    (if c = CHR ''-'' then Some 62 else if c = CHR ''_'' then Some 63
     else find (\<lambda>n. base64_alphabet ! n = c) [0 ..< 64])"

abbreviation byte :: "char \<Rightarrow> nat" where "byte c \<equiv> of_char c"

fun to_base64 :: "string \<Rightarrow> string" where
  "to_base64 (a # b # c # s) =
     sextet_char (byte a div 4) # sextet_char (byte a mod 4 * 16 + byte b div 16) #
     sextet_char (byte b mod 16 * 4 + byte c div 64) # sextet_char (byte c mod 64) # to_base64 s"
| "to_base64 [a, b] =
     [sextet_char (byte a div 4), sextet_char (byte a mod 4 * 16 + byte b div 16),
      sextet_char (byte b mod 16 * 4), CHR ''='']"
| "to_base64 [a] = [sextet_char (byte a div 4), sextet_char (byte a mod 4 * 16), CHR ''='', CHR ''='']"
| "to_base64 [] = []"

fun sextets_bytes :: "nat list \<Rightarrow> string" where
  "sextets_bytes (p # q # r # t # s) =
     char_of (p * 4 + q div 16) # char_of (q mod 16 * 16 + r div 4) # char_of (r mod 4 * 64 + t) #
     sextets_bytes s"
| "sextets_bytes [p, q, r] = [char_of (p * 4 + q div 16), char_of (q mod 16 * 16 + r div 4)]"
| "sextets_bytes [p, q] = [char_of (p * 4 + q div 16)]"
| "sextets_bytes _ = []"

definition from_base64 :: "string \<Rightarrow> string" where
  "from_base64 s = sextets_bytes (List.map_filter char_sextet s)"

lemma char_sextet_char: "n < 64 \<Longrightarrow> char_sextet (sextet_char n) = Some n"
proof -
  have "\<forall>n \<in> set [0 ..< 64]. char_sextet (sextet_char n) = Some n" by code_simp
  then show "n < 64 \<Longrightarrow> char_sextet (sextet_char n) = Some n" by simp
qed

lemma char_sextet_pad: "char_sextet CHR ''='' = None"
  by code_simp

lemma byte_less: "byte c < 256"
  by (metis of_char_mod_256 mod_less_divisor zero_less_numeral)

lemma byte_parts:
  "byte c div 4 < 64" "byte c div 16 < 16" "byte c div 64 < 4"
  "byte c div 16 div 16 = 0" "byte c div 64 div 4 = 0"
  "byte c div 16 mod 16 = byte c div 16" "byte c div 64 mod 4 = byte c div 64"
  using byte_less [of c] by (simp_all add: less_mult_imp_div_less div_mult2_eq [symmetric])

lemma sextets_less:
  "byte a mod 4 * 16 < 64" "byte a mod 4 * 16 + byte b div 16 < 64"
  "byte b mod 16 * 4 < 64" "byte b mod 16 * 4 + byte c div 64 < 64" "byte c mod 64 < 64"
proof -
  have "byte a mod 4 < 4" "byte b mod 16 < 16" "byte c mod 64 < 64" by simp_all
  then show "byte a mod 4 * 16 < 64" "byte a mod 4 * 16 + byte b div 16 < 64"
    "byte b mod 16 * 4 < 64" "byte b mod 16 * 4 + byte c div 64 < 64" "byte c mod 64 < 64"
    using byte_parts(2) [of b] byte_parts(3) [of c] by linarith+
qed

lemma byte_split:
  "byte c div 16 * 16 + byte c mod 16 = byte c" "byte c div 64 * 64 + byte c mod 64 = byte c"
  by simp_all

lemma char_of_byte [simp]: "char_of (byte c) = c"
  by simp

lemma from_to_base64: "from_base64 (to_base64 s) = s"
proof (induction s rule: to_base64.induct)
  case (1 a b c s)
  then show ?case
    by (simp add: from_base64_def map_filter_simps char_sextet_char sextets_less byte_parts
        byte_split add.assoc [symmetric])
qed (simp_all add: from_base64_def map_filter_simps char_sextet_char char_sextet_pad sextets_less
    byte_parts byte_split add.assoc [symmetric])

section \<open>Encryption\<close>

record gcm =
  gcm_seal :: "string \<Rightarrow> string \<Rightarrow> string \<Rightarrow> (string \<times> string) option"  \<comment> \<open>key, iv, text: ciphertext, tag\<close>
  gcm_open :: "string \<Rightarrow> string \<Rightarrow> string \<Rightarrow> string \<Rightarrow> string option"   \<comment> \<open>key, iv, tag, ciphertext\<close>

definition IV_LENGTH :: nat where "IV_LENGTH = 12"

text \<open>\<open>None\<close> is the exception of the cipher, for a key of the wrong length.\<close>

definition encrypt :: "gcm \<Rightarrow> string \<Rightarrow> string \<Rightarrow> string \<Rightarrow> string option" where
  "encrypt g iv plainText base64Key =
    (case gcm_seal g (from_base64 base64Key) iv plainText of
       None \<Rightarrow> None
     | Some (encrypted, authTag) \<Rightarrow> Some (to_base64 (iv @ authTag @ encrypted)))"

definition decrypt :: "gcm \<Rightarrow> string \<Rightarrow> string \<Rightarrow> string option" where
  "decrypt g payload base64Key =
    (let raw = from_base64 payload;
         iv = take IV_LENGTH raw;
         authTag = take 16 (drop IV_LENGTH raw);
         encrypted = drop (IV_LENGTH + 16) raw
     in gcm_open g (from_base64 base64Key) iv authTag encrypted)"

text \<open>
  What the cipher documents: tags have 16 bytes, what was sealed opens under the same key
  and iv, and whatever opens was sealed (no forgery, so a payload is not altered unnoticed).
\<close>

definition gcm_laws :: "gcm \<Rightarrow> bool" where
  "gcm_laws g \<longleftrightarrow>
    (\<forall>k iv p ct tag. gcm_seal g k iv p = Some (ct, tag) \<longrightarrow>
       length tag = 16 \<and> gcm_open g k iv tag ct = Some p) \<and>
    (\<forall>k iv tag ct p. gcm_open g k iv tag ct = Some p \<longrightarrow> gcm_seal g k iv p = Some (ct, tag))"

lemma decrypt_encrypt:
  assumes "gcm_laws g" and "length iv = IV_LENGTH" and "encrypt g iv p k = Some payload"
  shows "decrypt g payload k = Some p"
proof -
  obtain ct tag where s: "gcm_seal g (from_base64 k) iv p = Some (ct, tag)"
    and payload: "payload = to_base64 (iv @ tag @ ct)"
    using assms(3) by (auto simp: encrypt_def split: option.splits)
  with assms(1) have "length tag = 16" "gcm_open g (from_base64 k) iv tag ct = Some p"
    unfolding gcm_laws_def by blast+
  with assms(2) show ?thesis by (simp add: decrypt_def payload from_to_base64 Let_def)
qed

text \<open>A cipher that satisfies the laws: the tag repeats the key and the iv, cut and padded.\<close>

definition toy_tag :: "string \<Rightarrow> string \<Rightarrow> string" where
  "toy_tag k iv = take 16 (k @ iv @ replicate 16 CHR ''0'')"

definition toy_gcm :: gcm where
  "toy_gcm = \<lparr> gcm_seal = (\<lambda>k iv p. if length k = 32 then Some (rev p, toy_tag k iv) else None),
     gcm_open = (\<lambda>k iv tag ct. if length k = 32 \<and> tag = toy_tag k iv then Some (rev ct) else None) \<rparr>"

lemma toy_gcm_laws: "gcm_laws toy_gcm"
  by (auto simp: gcm_laws_def toy_gcm_def toy_tag_def split: if_splits)

end
