(* ===== verification/Google.thy ===== *)
theory Google
  imports Crypto Common JsDate
begin

text \<open>
  The connection of a coach to Google Calendar (src/google).  The answers of Google's
  services are arguments of the operations; what is sent to them is logged in
  \<open>externals\<close>.  The state of the connection is the table \<open>googleIntegrations\<close>.
\<close>

record config =
  cf_gcm :: gcm
  cf_encryptionKey :: string

section \<open>Credentials (google-oauth.service.ts)\<close>

definition not_connected :: err where
  "not_connected = ServiceUnavailable (Text ''Google Calendar is not connected yet'')"

definition getAuthenticatedClient :: "config \<Rightarrow> string \<Rightarrow> world \<Rightarrow> err + string" where
  "getAuthenticatedClient cfg coachId w =
    (case findUnique g_coachId coachId (googleIntegrations w) of
       None \<Rightarrow> Inl not_connected
     | Some integration \<Rightarrow>
         (case decrypt (cf_gcm cfg) (g_refreshTokenEncrypted integration) (cf_encryptionKey cfg) of
            None \<Rightarrow> Inl (PlainError ''decrypt'')
          | Some refreshToken \<Rightarrow> Inr refreshToken))"

definition google_upsert ::
  "string \<Rightarrow> string \<Rightarrow> string \<Rightarrow> int \<Rightarrow> world \<Rightarrow> (world, unit) outcome" where
  "google_upsert coachId enc connectedEmail now w =
    (if coachId \<in> g_coachId ` set (googleIntegrations w) then
       (Inr (), w\<lparr>googleIntegrations := updateRow g_coachId coachId
          (\<lambda>r. r\<lparr>g_refreshTokenEncrypted := enc, g_connectedEmail := connectedEmail,
             g_connectedAt := now\<rparr>) (googleIntegrations w)\<rparr>)
     else if \<not> coach_exists coachId w then (Inl P2003, w)
     else
       (Inr (), w\<lparr>googleIntegrations := createRow
          \<lparr> g_coachId = coachId, g_refreshTokenEncrypted = enc,
            g_connectedEmail = connectedEmail, g_connectedAt = now \<rparr> (googleIntegrations w)\<rparr>))"

text \<open>
  The answer of the token endpoint and of the user info endpoint: \<open>Inl\<close> is a failed call;
  both members of a good answer may be missing.
\<close>

definition handleCallback ::
  "config \<Rightarrow> string \<Rightarrow> int \<Rightarrow> err + string option \<Rightarrow> err + string option \<Rightarrow> string \<Rightarrow> string \<Rightarrow>
   world \<Rightarrow> (world, unit) outcome" where
  "handleCallback cfg iv now tokens userInfo code coachId w =
    (if code = [] then (Inl (BadRequest (Text ''Missing authorization code'')), w)
     else case tokens of
       Inl e \<Rightarrow> (Inl e, w)
     | Inr refresh_token \<Rightarrow>
         if \<not> truthy refresh_token then
           (Inl (BadRequest (Text ''Google did not return a refresh token. Revoke prior access at https://myaccount.google.com/permissions and try connecting again.'')), w)
         else case userInfo of
           Inl e \<Rightarrow> (Inl e, w)
         | Inr email \<Rightarrow>
             (case encrypt (cf_gcm cfg) iv (the refresh_token) (cf_encryptionKey cfg) of
                None \<Rightarrow> (Inl (PlainError ''encrypt''), w)
              | Some enc \<Rightarrow>
                  google_upsert coachId enc
                    (case email of None \<Rightarrow> ''unknown'' | Some m \<Rightarrow> m) now w))"

definition googleStatus :: "string \<Rightarrow> world \<Rightarrow> (string \<times> int) option" where
  "googleStatus coachId w =
    map_option (\<lambda>i. (g_connectedEmail i, g_connectedAt i))
      (findUnique g_coachId coachId (googleIntegrations w))"

section \<open>Calendar events (google-calendar.service.ts)\<close>

record createMeetEventInput =
  mi_title :: string
  mi_description :: "string option"
  mi_startAt :: int
  mi_endAt :: int
  mi_attendeeEmails :: "string list"

record meetEventResult =
  me_eventId :: string
  me_meetLink :: string

text \<open>
  The answer of the insert: the id, the link, and the entry points with their type and
  address.  The event exists from the call on, whatever the answer says.
\<close>

record insertAnswer =
  ia_id :: "string option"
  ia_hangoutLink :: "string option"
  ia_entryPoints :: "(string \<times> string option) list"

definition answer_link :: "insertAnswer \<Rightarrow> string option" where
  "answer_link a =
    (case ia_hangoutLink a of
       Some l \<Rightarrow> Some l
     | None \<Rightarrow> (case find (\<lambda>(t, _). t = ''video'') (ia_entryPoints a) of
                 None \<Rightarrow> None | Some (_, uri) \<Rightarrow> uri))"

definition insert_request :: "string \<Rightarrow> createMeetEventInput \<Rightarrow> calendarEvent" where
  "insert_request uuid input =
    \<lparr> ce_summary = mi_title input, ce_description = mi_description input,
      ce_start = toISOString (mi_startAt input), ce_end = toISOString (mi_endAt input),
      ce_attendees = mi_attendeeEmails input, ce_requestId = uuid \<rparr>"

definition createMeetEvent ::
  "config \<Rightarrow> string \<Rightarrow> err + insertAnswer \<Rightarrow> string \<Rightarrow> createMeetEventInput \<Rightarrow> world \<Rightarrow>
   (world, meetEventResult) outcome" where
  "createMeetEvent cfg uuid answer coachId input w =
    (case getAuthenticatedClient cfg coachId w of
       Inl e \<Rightarrow> (Inl e, w)
     | Inr _ \<Rightarrow>
         (case answer of
            Inl e \<Rightarrow> (Inl e, w)
          | Inr a \<Rightarrow>
              (let w1 = w\<lparr>externals := externals w @
                     [CalendarInsert coachId (case ia_id a of None \<Rightarrow> [] | Some i \<Rightarrow> i)
                        (insert_request uuid input)]\<rparr>
               in if truthy (ia_id a) \<and> truthy (answer_link a)
                  then (Inr \<lparr> me_eventId = the (ia_id a), me_meetLink = the (answer_link a) \<rparr>, w1)
                  else (Inl (PlainError ''Google Calendar did not return a Meet link''), w1))))"

text \<open>The failure of the deletion itself is swallowed; that of the credentials is not.\<close>

definition deleteEvent :: "config \<Rightarrow> string \<Rightarrow> string \<Rightarrow> world \<Rightarrow> (world, unit) outcome" where
  "deleteEvent cfg coachId eventId w =
    (case getAuthenticatedClient cfg coachId w of
       Inl e \<Rightarrow> (Inl e, w)
     | Inr _ \<Rightarrow> (Inr (), w\<lparr>externals := externals w @ [CalendarDelete coachId eventId]\<rparr>))"

lemma deleteEvent_cases:
  assumes "deleteEvent cfg c ev w = (x, w')"
  obtains (refused) e where "x = Inl e" "w' = w" "getAuthenticatedClient cfg c w = Inl e"
    | (sent) t where "x = Inr ()" "w' = w\<lparr>externals := externals w @ [CalendarDelete c ev]\<rparr>"
      "getAuthenticatedClient cfg c w = Inr t"
  using assms by (auto simp: deleteEvent_def split: sum.splits)

lemma google_upsert_ok:
  assumes "constraints_ok w" and "google_upsert k enc m now w = (x, w')"
  shows "constraints_ok w'"
  using assms
  by (auto simp: google_upsert_def constraints_ok_def set_updateRow split: if_splits)

lemma handleCallback_cases:
  assumes "handleCallback cfg iv now tokens userInfo code k w = (x, w')"
  obtains (refused) e where "x = Inl e" "w' = w"
    | (upsert) t email enc where "tokens = Inr (Some t)" "userInfo = Inr email"
      "encrypt (cf_gcm cfg) iv t (cf_encryptionKey cfg) = Some enc"
      "google_upsert k enc (case email of None \<Rightarrow> ''unknown'' | Some m \<Rightarrow> m) now w = (x, w')"
  using assms
  by (auto simp: handleCallback_def truthy_def split: if_splits sum.splits option.splits)

lemma handleCallback_ok:
  assumes "constraints_ok w" and "handleCallback cfg iv now tokens userInfo code k w = (x, w')"
  shows "constraints_ok w'"
  using assms(2) by (rule handleCallback_cases) (use assms(1) google_upsert_ok in blast)+

lemma google_upsert_found:
  assumes "google_upsert k enc m now w = (Inr (), w')"
  shows "\<exists>r. findUnique g_coachId k (googleIntegrations w') = Some r \<and>
    g_refreshTokenEncrypted r = enc \<and> g_connectedEmail r = m \<and> g_connectedAt r = now"
proof (cases "findUnique g_coachId k (googleIntegrations w)")
  case None
  then have "k \<notin> g_coachId ` set (googleIntegrations w)" by simp
  with assms None show ?thesis
    by (auto simp: google_upsert_def findUnique_createRow simp del: findUnique_None split: if_splits)
next
  case (Some r)
  then have "k \<in> g_coachId ` set (googleIntegrations w)" by (auto dest: findUnique_Some)
  with assms Some show ?thesis by (auto simp: google_upsert_def findUnique_updateRow)
qed

text \<open>After a good callback the coach is connected, and the stored token reads back.\<close>

lemma handleCallback_connects:
  assumes "gcm_laws (cf_gcm cfg)" and "length iv = IV_LENGTH"
    and "handleCallback cfg iv now (Inr (Some t)) (Inr email) code k w = (Inr (), w')"
  shows "getAuthenticatedClient cfg k w' = Inr t \<and>
    googleStatus k w' = Some (case email of None \<Rightarrow> ''unknown'' | Some m \<Rightarrow> m, now)"
  using assms(3)
proof (cases rule: handleCallback_cases)
  case (upsert t' email' enc)
  then show ?thesis
    using decrypt_encrypt [OF assms(1,2) upsert(3)] google_upsert_found [OF upsert(4)]
    by (auto simp: getAuthenticatedClient_def googleStatus_def)
qed simp

end
