(* ===== verification/Queue.thy ===== *)
theory Queue
  imports Schema
begin

text \<open>
  The queue of notification jobs, as the services that book and cancel see it
  (notification-jobs.service.ts, \<open>enqueue\<close>).  The queue itself is a table of the
  database; a job is stored before the request is answered.
\<close>

definition enqueue :: "string \<Rightarrow> string \<Rightarrow> notificationKind \<Rightarrow> world \<Rightarrow> world" where
  "enqueue bookingId coachId kind w =
    w\<lparr>jobs := jobs w @ [\<lparr> j_bookingId = bookingId, j_coachId = coachId, j_kind = kind \<rparr>]\<rparr>"

lemma enqueue_sel [simp]:
  "coaches (enqueue b c k w) = coaches w" "eventTypes (enqueue b c k w) = eventTypes w"
  "weeklies (enqueue b c k w) = weeklies w" "overrides (enqueue b c k w) = overrides w"
  "bookings (enqueue b c k w) = bookings w" "settingsRows (enqueue b c k w) = settingsRows w"
  "googleIntegrations (enqueue b c k w) = googleIntegrations w"
  "allowedOrigins (enqueue b c k w) = allowedOrigins w" "externals (enqueue b c k w) = externals w"
  "jobs (enqueue b c k w) = jobs w @ [\<lparr> j_bookingId = b, j_coachId = c, j_kind = k \<rparr>]"
  by (simp_all add: enqueue_def)

lemma enqueue_ok [simp]: "constraints_ok (enqueue b c k w) = constraints_ok w"
  by (simp add: enqueue_def)

end
