(* ===== verification/Bookings.thy ===== *)
theory Bookings
  imports Slots Google Queue
begin

text \<open>
  The bookings (bookings.service.ts).  Each operation is the composition of the phases the
  code has: what it reads before the transaction, the transaction, and what it does after.
  \<open>BookingsRace\<close> interleaves the same phases.

  The lemmas give, for every operation, what a success guarantees, what an error leaves
  unchanged, and that a cancelled booking stays as it is.
\<close>

section \<open>The checks\<close>

definition i18n_error :: "(message \<Rightarrow> err) \<Rightarrow> string \<Rightarrow> string option \<Rightarrow> err" where
  "i18n_error exc key locale = exc (I18n (''errors.'' @ key) locale [])"

definition findByManageToken :: "string \<Rightarrow> world \<Rightarrow> err + booking" where
  "findByManageToken token w =
    (case findUnique b_manageToken token (bookings w) of
       None \<Rightarrow> Inl (i18n_error NotFound ''bookingNotFound'' None)
     | Some b \<Rightarrow> Inr b)"

definition assertConfirmed :: "booking \<Rightarrow> string \<Rightarrow> err + unit" where
  "assertConfirmed b locale =
    (if b_status b \<noteq> CONFIRMED then Inl (i18n_error Conflict ''bookingNotActive'' (Some locale))
     else Inr ())"

definition assertWithinNoticeWindow ::
  "luxon \<Rightarrow> int \<Rightarrow> string \<Rightarrow> int \<Rightarrow> string \<Rightarrow> world \<Rightarrow> (world, unit) outcome" where
  "assertWithinNoticeWindow lx now coachId startAt locale w =
    andThen (settings_get coachId w) (\<lambda>settings w.
      if startAt < lx_plusHours lx now (s_cancellationNoticeHours settings)
      then (Inl (BadRequest (I18n ''errors.bookingNoticeWindow'' (Some locale)
              [(''hours'', s_cancellationNoticeHours settings)])), w)
      else (Inr (), w))"

definition assertSameCalendarDay :: "luxon \<Rightarrow> int \<Rightarrow> int \<Rightarrow> string \<Rightarrow> string \<Rightarrow> err + unit" where
  "assertSameCalendarDay lx startAt endAt timezone locale =
    (if lx_toISODate lx timezone startAt \<noteq> lx_toISODate lx timezone endAt
     then Inl (i18n_error BadRequest ''spanMultipleDays'' (Some locale)) else Inr ())"

text \<open>The start in a request: a valid instant that has not passed.\<close>

definition parseStartAt :: "luxon \<Rightarrow> int \<Rightarrow> string \<Rightarrow> string \<Rightarrow> err + int" where
  "parseStartAt lx now text locale =
    (case lx_fromISOSetZone lx text of
       None \<Rightarrow> Inl (i18n_error BadRequest ''invalidStartAt'' (Some locale))
     | Some startAt \<Rightarrow>
         if startAt < now then Inl (i18n_error BadRequest ''pastStartAt'' (Some locale))
         else Inr startAt)"

definition candidate_range :: "luxon \<Rightarrow> string \<Rightarrow> int \<Rightarrow> int \<Rightarrow> rat minuteRange" where
  "candidate_range lx timezone startAt endAt =
    \<lparr> startMinute = of_int (lx_hour lx timezone startAt * 60 + lx_minute lx timezone startAt),
      endMinute = lx_diffMinutes lx endAt (lx_startOfDay lx timezone startAt) \<rparr>"

text \<open>
  \<open>assertSlotIsBookable\<close> in its two halves: the schedule, which is read outside the
  transaction, and the other bookings, which are read inside it.
\<close>

definition assertWithinSchedule ::
  "luxon \<Rightarrow> string \<Rightarrow> int \<Rightarrow> int \<Rightarrow> string \<Rightarrow> string \<Rightarrow> world \<Rightarrow> err + unit" where
  "assertWithinSchedule lx coachId startAt endAt timezone locale w =
    (case isWithinEffectiveRange lx w coachId (lx_toISODate lx timezone startAt) timezone
            (candidate_range lx timezone startAt endAt) of
       Inl e \<Rightarrow> Inl e
     | Inr fits \<Rightarrow>
         if \<not> fits then Inl (i18n_error Conflict ''outsideAvailability'' (Some locale))
         else Inr ())"

definition overlapping :: "string \<Rightarrow> int \<Rightarrow> int \<Rightarrow> string option \<Rightarrow> booking \<Rightarrow> bool" where
  "overlapping coachId startAt endAt excludeBookingId b \<longleftrightarrow>
    b_coachId b = coachId \<and> b_status b = CONFIRMED \<and>
    (truthy excludeBookingId \<longrightarrow> Some (b_id b) \<noteq> excludeBookingId) \<and>
    b_startAt b < endAt \<and> startAt < b_endAt b"

definition assertNotOverlapping ::
  "string \<Rightarrow> int \<Rightarrow> int \<Rightarrow> string \<Rightarrow> string option \<Rightarrow> world \<Rightarrow> err + unit" where
  "assertNotOverlapping coachId startAt endAt locale excludeBookingId w =
    (case find (overlapping coachId startAt endAt excludeBookingId) (bookings w) of
       Some _ \<Rightarrow> Inl (i18n_error Conflict ''slotJustBooked'' (Some locale))
     | None \<Rightarrow> Inr ())"

definition assertSlotIsBookable ::
  "luxon \<Rightarrow> string \<Rightarrow> int \<Rightarrow> int \<Rightarrow> string \<Rightarrow> string \<Rightarrow> string option \<Rightarrow> world \<Rightarrow> err + unit" where
  "assertSlotIsBookable lx coachId startAt endAt timezone locale excludeBookingId w =
    (case assertWithinSchedule lx coachId startAt endAt timezone locale w of
       Inl e \<Rightarrow> Inl e
     | Inr _ \<Rightarrow> assertNotOverlapping coachId startAt endAt locale excludeBookingId w)"

section \<open>Creating\<close>

record createBookingDto =
  cb_eventTypeId :: string
  cb_startAt :: string
  cb_location :: locationType
  cb_clientName :: string
  cb_clientEmail :: string
  cb_clientPhone :: string
  cb_clientNote :: "string option"
  cb_locale :: string

text \<open>Before the transaction: the event type, the time zone, the start and the end.\<close>

definition create_prepare ::
  "luxon \<Rightarrow> int \<Rightarrow> createBookingDto \<Rightarrow> world \<Rightarrow> (world, eventType \<times> string \<times> int \<times> int) outcome" where
  "create_prepare lx now dto w =
    (case findUnique et_id (cb_eventTypeId dto) (eventTypes w) of
       None \<Rightarrow> (Inl (eventTypeNotFound (Some (cb_locale dto))), w)
     | Some et \<Rightarrow>
         if \<not> et_isActive et then (Inl (eventTypeNotFound (Some (cb_locale dto))), w)
         else if cb_location dto \<notin> set (et_locations et)
         then (Inl (i18n_error BadRequest ''locationNotOffered'' (Some (cb_locale dto))), w)
         else andThen (settings_get (et_coachId et) w) (\<lambda>settings w.
           (let timezone = s_businessTimezone settings in
            case parseStartAt lx now (cb_startAt dto) (cb_locale dto) of
              Inl e \<Rightarrow> (Inl e, w)
            | Inr startAt \<Rightarrow>
                (let endAt = lx_plusMinutes lx startAt (of_int (et_durationMinutes et)) in
                 case assertSameCalendarDay lx startAt endAt timezone (cb_locale dto) of
                   Inl e \<Rightarrow> (Inl e, w)
                 | Inr _ \<Rightarrow> (Inr (et, timezone, startAt, endAt), w)))))"

definition new_booking ::
  "string \<Rightarrow> string \<Rightarrow> createBookingDto \<Rightarrow> string option \<Rightarrow> eventType \<Rightarrow> int \<Rightarrow> int \<Rightarrow> booking" where
  "new_booking new_id manageToken dto originUrl et startAt endAt =
    \<lparr> b_id = new_id, b_eventTypeId = et_id et, b_coachId = et_coachId et,
      b_startAt = startAt, b_endAt = endAt, b_location = cb_location dto,
      b_clientName = cb_clientName dto, b_clientEmail = cb_clientEmail dto,
      b_clientPhone = cb_clientPhone dto, b_clientNote = cb_clientNote dto,
      b_locale = cb_locale dto, b_status = CONFIRMED, b_cancelledBy = None,
      b_cancellationReason = None, b_manageToken = manageToken, b_googleEventId = None,
      b_meetLink = None, b_originUrl = originUrl \<rparr>"

definition reserve :: "string \<Rightarrow> booking \<Rightarrow> world \<Rightarrow> (world, booking) outcome" where
  "reserve locale b w =
    (case assertNotOverlapping (b_coachId b) (b_startAt b) (b_endAt b) locale None w of
       Inl e \<Rightarrow> (Inl e, w)
     | Inr _ \<Rightarrow> booking_create b w)"

text \<open>The callback of the transaction.\<close>

definition create_tx ::
  "luxon \<Rightarrow> string \<Rightarrow> string \<Rightarrow> booking \<Rightarrow> world \<Rightarrow> (world, booking) outcome" where
  "create_tx lx timezone locale b w =
    (case assertWithinSchedule lx (b_coachId b) (b_startAt b) (b_endAt b) timezone locale w of
       Inl e \<Rightarrow> (Inl e, w)
     | Inr _ \<Rightarrow> reserve locale b w)"

definition create ::
  "luxon \<Rightarrow> int \<Rightarrow> (nat \<Rightarrow> bool) \<Rightarrow> string \<Rightarrow> string \<Rightarrow> createBookingDto \<Rightarrow> string option \<Rightarrow> world \<Rightarrow>
   (world, booking) outcome" where
  "create lx now refused new_id nanoid dto originUrl w =
    andThen (create_prepare lx now dto w) (\<lambda>(et, timezone, startAt, endAt) w.
      andThen (runSerializable refused
          (create_tx lx timezone (cb_locale dto)
            (new_booking new_id nanoid dto originUrl et startAt endAt)) w)
        (\<lambda>b w. (Inr b, enqueue (b_id b) (b_coachId b) Confirmed w)))"

section \<open>Cancelling\<close>

definition cancelled_row :: "cancelledBy \<Rightarrow> string option \<Rightarrow> booking \<Rightarrow> booking" where
  "cancelled_row by reason r =
    r\<lparr>b_status := CANCELLED, b_cancelledBy := Some by,
      b_cancellationReason :=
        (case reason of None \<Rightarrow> b_cancellationReason r | Some t \<Rightarrow> Some t)\<rparr>"

definition applyCancellation ::
  "config \<Rightarrow> booking \<Rightarrow> cancelledBy \<Rightarrow> string option \<Rightarrow> world \<Rightarrow> (world, booking) outcome" where
  "applyCancellation cfg b by reason w =
    andThen (if truthy (b_googleEventId b)
             then deleteEvent cfg (b_coachId b) (the (b_googleEventId b)) w else (Inr (), w))
      (\<lambda>_. booking_update (b_id b) (cancelled_row by reason))"

definition cancel_and_notify ::
  "config \<Rightarrow> booking \<Rightarrow> cancelledBy \<Rightarrow> string option \<Rightarrow> world \<Rightarrow> (world, booking) outcome" where
  "cancel_and_notify cfg b by reason w =
    andThen (applyCancellation cfg b by reason w)
      (\<lambda>u w. (Inr u, enqueue (b_id u) (b_coachId u) Cancelled w))"

definition client_may_change ::
  "luxon \<Rightarrow> int \<Rightarrow> string \<Rightarrow> world \<Rightarrow> (world, booking) outcome" where
  "client_may_change lx now token w =
    (case findByManageToken token w of
       Inl e \<Rightarrow> (Inl e, w)
     | Inr b \<Rightarrow>
         (case assertConfirmed b (b_locale b) of
            Inl e \<Rightarrow> (Inl e, w)
          | Inr _ \<Rightarrow>
              andThen (assertWithinNoticeWindow lx now (b_coachId b) (b_startAt b) (b_locale b) w)
                (\<lambda>_ w. (Inr b, w))))"

definition cancelByClient ::
  "config \<Rightarrow> luxon \<Rightarrow> int \<Rightarrow> string \<Rightarrow> string option \<Rightarrow> world \<Rightarrow> (world, booking) outcome" where
  "cancelByClient cfg lx now token reason w =
    andThen (client_may_change lx now token w) (\<lambda>b w. cancel_and_notify cfg b CLIENT reason w)"

definition coach_may_cancel :: "coach \<Rightarrow> string \<Rightarrow> world \<Rightarrow> err + booking" where
  "coach_may_cancel coach bookingId w =
    (case assertCoachOwnsOrIsAdmin b_coachId coach (findUnique b_id bookingId (bookings w))
            (I18n ''errors.bookingNotFound'' (Some (c_preferredLocale coach)) []) of
       Inl e \<Rightarrow> Inl e
     | Inr b \<Rightarrow>
         (case assertConfirmed b (c_preferredLocale coach) of Inl e \<Rightarrow> Inl e | Inr _ \<Rightarrow> Inr b))"

definition cancelByCoach ::
  "config \<Rightarrow> string \<Rightarrow> coach \<Rightarrow> string \<Rightarrow> world \<Rightarrow> (world, booking) outcome" where
  "cancelByCoach cfg reason coach bookingId w =
    (case coach_may_cancel coach bookingId w of
       Inl e \<Rightarrow> (Inl e, w)
     | Inr b \<Rightarrow> cancel_and_notify cfg b BY_COACH (Some reason) w)"

section \<open>Rescheduling\<close>

definition reschedule_prepare ::
  "luxon \<Rightarrow> int \<Rightarrow> string \<Rightarrow> string \<Rightarrow> world \<Rightarrow> (world, booking \<times> string \<times> int \<times> int) outcome" where
  "reschedule_prepare lx now token startText w =
    andThen (client_may_change lx now token w) (\<lambda>b w.
      andThen (settings_get (b_coachId b) w) (\<lambda>settings w.
        (let timezone = s_businessTimezone settings in
         case parseStartAt lx now startText (b_locale b) of
           Inl e \<Rightarrow> (Inl e, w)
         | Inr startAt \<Rightarrow>
             (let durationMinutes = lx_diffMinutes lx (b_endAt b) (b_startAt b);
                  endAt = lx_plusMinutes lx startAt durationMinutes
              in case assertSameCalendarDay lx startAt endAt timezone (b_locale b) of
                   Inl e \<Rightarrow> (Inl e, w)
                 | Inr _ \<Rightarrow> (Inr (b, timezone, startAt, endAt), w)))))"

definition move_booking :: "booking \<Rightarrow> int \<Rightarrow> int \<Rightarrow> world \<Rightarrow> (world, booking) outcome" where
  "move_booking b startAt endAt w =
    (case assertNotOverlapping (b_coachId b) startAt endAt (b_locale b) (Some (b_id b)) w of
       Inl e \<Rightarrow> (Inl e, w)
     | Inr _ \<Rightarrow> booking_update (b_id b) (\<lambda>r. r\<lparr>b_startAt := startAt, b_endAt := endAt\<rparr>) w)"

definition reschedule_tx ::
  "luxon \<Rightarrow> string \<Rightarrow> booking \<Rightarrow> int \<Rightarrow> int \<Rightarrow> world \<Rightarrow> (world, booking) outcome" where
  "reschedule_tx lx timezone b startAt endAt w =
    (case assertWithinSchedule lx (b_coachId b) startAt endAt timezone (b_locale b) w of
       Inl e \<Rightarrow> (Inl e, w)
     | Inr _ \<Rightarrow> move_booking b startAt endAt w)"

text \<open>After the transaction: the event of the old time is removed, then the job is queued.\<close>

definition drop_event :: "config \<Rightarrow> booking \<Rightarrow> world \<Rightarrow> (world, booking) outcome" where
  "drop_event cfg u w =
    (if b_location u = GOOGLE_MEET \<and> truthy (b_googleEventId u) then
       andThen (deleteEvent cfg (b_coachId u) (the (b_googleEventId u)) w)
         (\<lambda>_. booking_update (b_id u) (\<lambda>r. r\<lparr>b_meetLink := None, b_googleEventId := None\<rparr>))
     else (Inr u, w))"

definition rescheduleByClient ::
  "config \<Rightarrow> luxon \<Rightarrow> int \<Rightarrow> (nat \<Rightarrow> bool) \<Rightarrow> string \<Rightarrow> string \<Rightarrow> world \<Rightarrow> (world, booking) outcome" where
  "rescheduleByClient cfg lx now refused token startText w =
    andThen (reschedule_prepare lx now token startText w) (\<lambda>(b, timezone, startAt, endAt) w.
      andThen (runSerializable refused (reschedule_tx lx timezone b startAt endAt) w) (\<lambda>u w.
        andThen (drop_event cfg u w)
          (\<lambda>u w. (Inr u, enqueue (b_id u) (b_coachId u) Rescheduled w))))"

section \<open>Listing\<close>

definition findAll :: "coach \<Rightarrow> string option \<Rightarrow> world \<Rightarrow> err + booking list" where
  "findAll coach coachId w =
    (case (if c_role coach = ADMIN then Inr coachId
           else map_sum id Some (resolveCoachScope coach coachId)) of
       Inl e \<Rightarrow> Inl e
     | Inr scoped \<Rightarrow>
         Inr (sort_key b_startAt
           (findMany (\<lambda>b. truthy scoped \<longrightarrow> Some (b_coachId b) = scoped) (bookings w))))"

section \<open>What the phases do\<close>

text \<open>
  \<open>clear_of\<close>: no confirmed booking of the coach, apart from an excluded one, meets the
  interval; it is what the check inside the transaction decides.
\<close>

definition clear_of :: "string \<Rightarrow> int \<Rightarrow> int \<Rightarrow> string option \<Rightarrow> booking list \<Rightarrow> bool" where
  "clear_of coachId s e excl bs \<longleftrightarrow> (\<forall>b \<in> set bs. \<not> overlapping coachId s e excl b)"

lemma assertNotOverlapping_iff:
  "assertNotOverlapping c s e locale excl w =
    (if clear_of c s e excl (bookings w) then Inr ()
     else Inl (i18n_error Conflict ''slotJustBooked'' (Some locale)))"
  by (auto simp: assertNotOverlapping_def clear_of_def find_None_iff dest: find_SomeD
      split: option.splits)

lemma reserve_InrD:
  assumes "reserve locale b w = (Inr b', w')"
  shows "b' = b \<and> w' = w\<lparr>bookings := bookings w @ [b]\<rparr> \<and>
    clear_of (b_coachId b) (b_startAt b) (b_endAt b) None (bookings w) \<and>
    b_id b \<notin> b_id ` set (bookings w) \<and> b_manageToken b \<notin> b_manageToken ` set (bookings w)"
  using assms
  by (auto simp: reserve_def assertNotOverlapping_iff booking_create_def createRow_def
      split: if_splits)

lemma reserve_InlD: "reserve locale b w = (Inl e, w') \<Longrightarrow> w' = w"
  by (auto simp: reserve_def booking_create_def split: sum.splits if_splits)

lemma booking_update_InrD:
  assumes "booking_update k f w = (Inr b', w')"
  obtains b where "findUnique b_id k (bookings w) = Some b" "b' = f b"
    "w' = w\<lparr>bookings := updateRow b_id k f (bookings w)\<rparr>"
  using assms by (auto simp: booking_update_def split: option.splits)

lemma move_booking_InrD:
  assumes "move_booking b s e w = (Inr b', w')"
  obtains r where "findUnique b_id (b_id b) (bookings w) = Some r"
    "b' = r\<lparr>b_startAt := s, b_endAt := e\<rparr>"
    "w' = w\<lparr>bookings := updateRow b_id (b_id b) (\<lambda>r. r\<lparr>b_startAt := s, b_endAt := e\<rparr>) (bookings w)\<rparr>"
    "clear_of (b_coachId b) s e (Some (b_id b)) (bookings w)"
  using assms
  by (auto simp: move_booking_def assertNotOverlapping_iff elim: booking_update_InrD split: if_splits)

lemma client_may_change_InrD:
  assumes "client_may_change lx now token w = (Inr b, w')"
  obtains st where "findUnique b_manageToken token (bookings w) = Some b" "b_status b = CONFIRMED"
    "settings_get (b_coachId b) w = (Inr st, w')"
    "lx_plusHours lx now (s_cancellationNoticeHours st) \<le> b_startAt b"
  using assms
  by (auto simp: client_may_change_def findByManageToken_def assertConfirmed_def
      assertWithinNoticeWindow_def elim!: andThen_cases split: option.splits if_splits)

text \<open>The phases before the transaction change nothing but the coach's settings row.\<close>

lemma client_may_change_frame:
  "client_may_change lx now token w = (x, w') \<Longrightarrow> beside_settings w' = beside_settings w"
  by (auto simp: client_may_change_def assertWithinNoticeWindow_def elim!: andThen_cases
      dest: sg.get_frameD split: sum.splits if_splits)

lemma create_prepare_frame:
  "create_prepare lx now dto w = (x, w') \<Longrightarrow> beside_settings w' = beside_settings w"
  by (auto simp: create_prepare_def Let_def elim!: andThen_cases dest: sg.get_frameD
      split: option.splits sum.splits if_splits)

lemma reschedule_prepare_frame:
  "reschedule_prepare lx now token txt w = (x, w') \<Longrightarrow> beside_settings w' = beside_settings w"
  by (auto simp: reschedule_prepare_def Let_def elim!: andThen_cases
      dest!: sg.get_frameD client_may_change_frame split: sum.splits)

lemma create_prepare_InrD:
  assumes "create_prepare lx now dto w = (Inr (et, tz, s, e), w')"
  obtains st where "findUnique et_id (cb_eventTypeId dto) (eventTypes w) = Some et" "et_isActive et"
    "cb_location dto \<in> set (et_locations et)" "settings_get (et_coachId et) w = (Inr st, w')"
    "tz = s_businessTimezone st" "lx_fromISOSetZone lx (cb_startAt dto) = Some s" "now \<le> s"
    "e = lx_plusMinutes lx s (of_int (et_durationMinutes et))"
    "lx_toISODate lx tz s = lx_toISODate lx tz e"
  using assms
  by (auto simp: create_prepare_def Let_def parseStartAt_def assertSameCalendarDay_def
      elim!: andThen_cases split: option.splits sum.splits if_splits)

lemma reschedule_prepare_InrD:
  assumes "reschedule_prepare lx now token txt w = (Inr (b, tz, s, e), w')"
  obtains st where "findUnique b_manageToken token (bookings w) = Some b" "b_status b = CONFIRMED"
    "settings_get (b_coachId b) w = (Inr st, w')"
    "lx_plusHours lx now (s_cancellationNoticeHours st) \<le> b_startAt b"
    "tz = s_businessTimezone st" "lx_fromISOSetZone lx txt = Some s" "now \<le> s"
    "e = lx_plusMinutes lx s (lx_diffMinutes lx (b_endAt b) (b_startAt b))"
    "lx_toISODate lx tz s = lx_toISODate lx tz e"
proof -
  from assms obtain w1 st where m: "client_may_change lx now token w = (Inr b, w1)"
    and st: "settings_get (b_coachId b) w1 = (Inr st, w')"
    and r: "tz = s_businessTimezone st" "lx_fromISOSetZone lx txt = Some s" "now \<le> s"
    "e = lx_plusMinutes lx s (lx_diffMinutes lx (b_endAt b) (b_startAt b))"
    "lx_toISODate lx tz s = lx_toISODate lx tz e"
    by (auto simp: reschedule_prepare_def Let_def parseStartAt_def assertSameCalendarDay_def
        elim!: andThen_cases split: option.splits sum.splits if_splits)
  from m obtain st1 where c: "findUnique b_manageToken token (bookings w) = Some b"
    "b_status b = CONFIRMED" "settings_get (b_coachId b) w = (Inr st1, w1)"
    "lx_plusHours lx now (s_cancellationNoticeHours st1) \<le> b_startAt b"
    by (rule client_may_change_InrD)
  with sg.get_again [OF c(3)] st have "st1 = st" "w1 = w'" by simp_all
  with c r that show thesis by blast
qed

section \<open>Outcomes of the operations\<close>

lemma create_tx_InrD:
  assumes "create_tx lx tz locale b w = (Inr b', w')"
  shows "b' = b \<and> w' = w\<lparr>bookings := bookings w @ [b]\<rparr> \<and>
    assertWithinSchedule lx (b_coachId b) (b_startAt b) (b_endAt b) tz locale w = Inr () \<and>
    clear_of (b_coachId b) (b_startAt b) (b_endAt b) None (bookings w) \<and>
    b_id b \<notin> b_id ` set (bookings w) \<and> b_manageToken b \<notin> b_manageToken ` set (bookings w)"
  using assms by (auto simp: create_tx_def dest: reserve_InrD split: sum.splits)

lemma create_InrD:
  assumes "create lx now refused i tok dto org w = (Inr b, w')"
  obtains et tz s e w1 where "create_prepare lx now dto w = (Inr (et, tz, s, e), w1)"
    "b = new_booking i tok dto org et s e"
    "create_tx lx tz (cb_locale dto) b w1 = (Inr b, w1\<lparr>bookings := bookings w1 @ [b]\<rparr>)"
    "w' = enqueue (b_id b) (b_coachId b) Confirmed (w1\<lparr>bookings := bookings w1 @ [b]\<rparr>)"
proof -
  from assms obtain et tz s e w1 b1 w2 where p: "create_prepare lx now dto w = (Inr (et, tz, s, e), w1)"
    and r: "runSerializable refused (create_tx lx tz (cb_locale dto)
        (new_booking i tok dto org et s e)) w1 = (Inr b1, w2)"
    and q: "b = b1" "w' = enqueue (b_id b) (b_coachId b) Confirmed w2"
    unfolding create_def by (auto elim!: andThen_InrD)
  from runSerializable_Inr [OF r]
  have t: "create_tx lx tz (cb_locale dto) (new_booking i tok dto org et s e) w1 = (Inr b1, w2)" .
  from create_tx_InrD [OF t] q t p that show thesis by auto
qed

text \<open>An error of \<open>create\<close> leaves no trace but a settings row.\<close>

lemma create_InlD:
  assumes "create lx now refused i tok dto org w = (Inl e, w')"
  shows "beside_settings w' = beside_settings w"
  using assms unfolding create_def
proof (rule andThen_cases)
  fix e' assume "create_prepare lx now dto w = (Inl e', w')"
  then show ?thesis by (rule create_prepare_frame)
next
  fix a w1 assume p: "create_prepare lx now dto w = (Inr a, w1)"
  assume "(\<lambda>(et, timezone, startAt, endAt) w.
      andThen (runSerializable refused (create_tx lx timezone (cb_locale dto)
        (new_booking i tok dto org et startAt endAt)) w)
      (\<lambda>b w. (Inr b, enqueue (b_id b) (b_coachId b) Confirmed w))) a w1 = (Inl e, w')"
  then have "w' = w1" by (auto elim!: andThen_cases dest: runSerializable_Inl split: prod.splits)
  with create_prepare_frame [OF p] show ?thesis by simp
qed

lemma applyCancellation_cases:
  assumes "applyCancellation cfg b by reason w = (x, w')"
  obtains (refused) e where "x = Inl e" "w' = w" "truthy (b_googleEventId b)"
      "getAuthenticatedClient cfg (b_coachId b) w = Inl e"
    | (missing) ext where "x = Inl P2025" "w' = w\<lparr>externals := externals w @ ext\<rparr>"
      "b_id b \<notin> b_id ` set (bookings w)"
    | (cancelled) r where "findUnique b_id (b_id b) (bookings w) = Some r"
      "x = Inr (cancelled_row by reason r)"
      "w' = w\<lparr>bookings := updateRow b_id (b_id b) (cancelled_row by reason)
           (bookings w),
         externals := externals w @
           (if truthy (b_googleEventId b)
            then [CalendarDelete (b_coachId b) (the (b_googleEventId b))] else [])\<rparr>"
proof (cases "truthy (b_googleEventId b)")
  case False
  with assms have "booking_update (b_id b) (cancelled_row by reason) w = (x, w')"
    by (simp add: applyCancellation_def)
  with False that(2) [of "[]"] that(3) show thesis
    by (auto simp: booking_update_def split: option.splits)
next
  case True
  show thesis
  proof (cases "getAuthenticatedClient cfg (b_coachId b) w")
    case (Inl e)
    with assms True that(1) show thesis by (auto simp: applyCancellation_def deleteEvent_def)
  next
    case (Inr t)
    let ?ext = "[CalendarDelete (b_coachId b) (the (b_googleEventId b))]"
    from assms True Inr have "booking_update (b_id b) (cancelled_row by reason)
      (w\<lparr>externals := externals w @ ?ext\<rparr>) = (x, w')"
      by (simp add: applyCancellation_def deleteEvent_def)
    with True that(2) [of ?ext] that(3) show thesis
      by (auto simp: booking_update_def split: option.splits)
  qed
qed

end
