(* ===== verification/Demo.thy ===== *)
theory Demo
  imports Bookings
begin

text \<open>
  Concrete data at which the properties are applied: one coach with one event type of an
  hour, a weekly schedule from 9 to 17 on Thursdays, the library of dates for the zone UTC,
  a configuration, and two requests for the same slot, on 2 March 2026 for 5 March 2026.
\<close>

definition demo_lx :: luxon where "demo_lx = zone_clock 0 0 0"

definition demo_cfg :: config where
  "demo_cfg = \<lparr> cf_gcm = toy_gcm, cf_encryptionKey = replicate 43 CHR ''A'' @ ''='' \<rparr>"

definition demo_now :: int where "demo_now = 1772438400000"

definition demo_start :: int where "demo_start = 1772704800000"
definition demo_end :: int where "demo_end = 1772708400000"

definition demo_coach :: coach where
  "demo_coach = \<lparr> c_id = ''c1'', c_email = ''a@b.hu'', c_passwordHash = ''h'', c_name = ''Anna'',
     c_preferredLocale = ''hu'', c_role = COACH, c_sessionsRevokedAt = None,
     c_frontendUrl = Some ''https://a.hu'' \<rparr>"

definition demo_event :: eventType where
  "demo_event = \<lparr> et_id = ''e1'', et_coachId = ''c1'', et_title = ''Talk'', et_description = None,
     et_durationMinutes = 60, et_locations = [PHONE, GOOGLE_MEET], et_price = None, et_position = 0,
     et_isActive = True \<rparr>"

definition demo_settings :: settings where
  "demo_settings = (default_settings ''c1'')\<lparr>s_businessTimezone := ''Etc/UTC''\<rparr>"

definition demo_weekly :: weeklyAvailability where
  "demo_weekly = \<lparr> w_id = ''w1'', w_coachId = ''c1'', w_weekday = 4, w_startMinute = 540,
     w_endMinute = 1020 \<rparr>"

definition demo_world :: world where
  "demo_world = empty_world\<lparr> coaches := [demo_coach], eventTypes := [demo_event],
     weeklies := [demo_weekly], settingsRows := [demo_settings] \<rparr>"

definition demo_dto :: createBookingDto where
  "demo_dto = \<lparr> cb_eventTypeId = ''e1'', cb_startAt = toISOString demo_start,
     cb_location = PHONE, cb_clientName = ''Eve'', cb_clientEmail = ''e@c.hu'',
     cb_clientPhone = ''+36301234567'', cb_clientNote = None, cb_locale = ''hu'' \<rparr>"

definition demo_booking :: "string \<Rightarrow> string \<Rightarrow> booking" where
  "demo_booking i tok = new_booking i tok demo_dto None demo_event demo_start demo_end"

definition demo_booked :: world where
  "demo_booked = demo_world\<lparr>bookings := [demo_booking ''b1'' ''t1'']\<rparr>"

lemma demo_booking_sel:
  "b_id (demo_booking i tok) = i" "b_coachId (demo_booking i tok) = ''c1''"
  "b_startAt (demo_booking i tok) = demo_start" "b_endAt (demo_booking i tok) = demo_end"
  "b_locale (demo_booking i tok) = ''hu''" "b_googleEventId (demo_booking i tok) = None"
  "b_status (demo_booking i tok) = CONFIRMED" "b_manageToken (demo_booking i tok) = tok"
  by (simp_all add: demo_booking_def new_booking_def demo_event_def demo_dto_def)

lemma demo_day: "demo_start div ms_per_day = 20517" "demo_end div ms_per_day = 20517"
    "four_digit_day 20517"
  by (simp_all add: demo_start_def demo_end_def four_digit_day_def)

lemma demo_dates:
  "lx_fromISOSetZone demo_lx (toISOString demo_start) = Some demo_start"
  "lx_toISODate demo_lx tz demo_start = iso_date 20517"
  "lx_toISODate demo_lx tz demo_end = iso_date 20517"
  "lx_plusMinutes demo_lx demo_start 60 = demo_end"
  "lx_hour demo_lx tz demo_start = 10" "lx_minute demo_lx tz demo_start = 0"
  "lx_diffMinutes demo_lx demo_end (lx_startOfDay demo_lx tz demo_start) = 660"
  by (simp_all add: demo_lx_def zone_clock_def to_local_def of_local_def local_midnight_def demo_day
      read_instant_iso)
    (simp_all add: demo_start_def demo_end_def)

lemma demo_zone: "luxon_zone demo_lx tz (\<lambda>d. d * ms_per_day)" "luxon_instants demo_lx"
proof -
  have "local_midnight 0 0 0 = (\<lambda>d. d * ms_per_day)"
    by (simp add: fun_eq_iff local_midnight_def of_local_def)
  with zone_clock_zone [of 0 0 0 tz] show "luxon_zone demo_lx tz (\<lambda>d. d * ms_per_day)"
    by (simp add: demo_lx_def)
  show "luxon_instants demo_lx" unfolding demo_lx_def by (rule zone_clock_instants)
qed

lemma demo_weekday: "isoWeekdayOf demo_lx (iso_date 20517) tz = Some 4"
  by (simp add: isoWeekdayOf_def luxon_zoneD(6) [OF demo_zone(1) demo_day(3)])
    (simp add: demo_lx_def zone_clock_def to_local_def iso_weekday_def)

lemma demo_effective:
  "getEffectiveRangesForDate demo_lx demo_world ''c1'' (iso_date 20517) ''Etc/UTC'' =
     Inr [\<lparr>startMinute = 540, endMinute = 1020\<rparr>]"
  by (simp add: getEffectiveRangesForDate_def toDateOnly_def utc_midnight_iso_date demo_day
      demo_weekday demo_world_def
      empty_world_def findMany_def demo_weekly_def weekly_range_def)

lemma demo_prepare:
  "create_prepare demo_lx demo_now demo_dto demo_world =
     (Inr (demo_event, ''Etc/UTC'', demo_start, demo_end), demo_world)"
proof -
  have "\<not> demo_start < demo_now" by (simp add: demo_start_def demo_now_def)
  moreover have "settings_get ''c1'' demo_world = (Inr demo_settings, demo_world)" by code_simp
  ultimately show ?thesis
    by (simp add: create_prepare_def demo_dto_def demo_world_def empty_world_def demo_event_def
        parseStartAt_def assertSameCalendarDay_def demo_dates Let_def demo_settings_def)
qed

lemma demo_schedule:
  "assertWithinSchedule demo_lx ''c1'' demo_start demo_end ''Etc/UTC'' ''hu'' demo_world = Inr ()"
  by (simp add: assertWithinSchedule_def isWithinEffectiveRange_def demo_dates demo_effective
      candidate_range_def within_ranges_def)

lemma demo_reserve:
  "reserve ''hu'' (demo_booking ''b1'' ''t1'') demo_world = (Inr (demo_booking ''b1'' ''t1''), demo_booked)"
  by code_simp

lemma demo_taken:
  "reserve ''hu'' (demo_booking ''b2'' ''t2'') demo_booked =
     (Inl (i18n_error Conflict ''slotJustBooked'' (Some ''hu'')), demo_booked)"
  by code_simp

lemma demo_constraints: "constraints_ok demo_world" "constraints_ok demo_booked"
  by code_simp+

section \<open>A later slot\<close>

definition moved_start :: int where "moved_start = 1772719200000"
definition moved_end :: int where "moved_end = 1772722800000"

lemma moved_dates:
  "lx_fromISOSetZone demo_lx (toISOString moved_start) = Some moved_start"
  "lx_toISODate demo_lx tz moved_start = iso_date 20517"
  "lx_toISODate demo_lx tz moved_end = iso_date 20517"
  "lx_plusMinutes demo_lx moved_start (lx_diffMinutes demo_lx demo_end demo_start) = moved_end"
  "lx_hour demo_lx tz moved_start = 14" "lx_minute demo_lx tz moved_start = 0"
  "lx_diffMinutes demo_lx moved_end (lx_startOfDay demo_lx tz moved_start) = 900"
  "lx_plusHours demo_lx demo_now 48 = 1772611200000"
proof -
  have d: "moved_start div ms_per_day = 20517" "moved_end div ms_per_day = 20517"
    by (simp_all add: moved_start_def moved_end_def)
  show "lx_fromISOSetZone demo_lx (toISOString moved_start) = Some moved_start"
    "lx_toISODate demo_lx tz moved_start = iso_date 20517"
    "lx_toISODate demo_lx tz moved_end = iso_date 20517"
    "lx_plusMinutes demo_lx moved_start (lx_diffMinutes demo_lx demo_end demo_start) = moved_end"
    "lx_hour demo_lx tz moved_start = 14" "lx_minute demo_lx tz moved_start = 0"
    "lx_diffMinutes demo_lx moved_end (lx_startOfDay demo_lx tz moved_start) = 900"
    "lx_plusHours demo_lx demo_now 48 = 1772611200000"
    by (simp_all add: demo_lx_def zone_clock_def to_local_def of_local_def local_midnight_def d
        demo_day read_instant_iso demo_now_def)
      (simp_all add: moved_start_def moved_end_def demo_start_def demo_end_def)
qed

lemma moved_client:
  "client_may_change demo_lx demo_now ''t1'' demo_booked = (Inr (demo_booking ''b1'' ''t1''), demo_booked)"
proof -
  have "settings_get ''c1'' demo_booked = (Inr demo_settings, demo_booked)" by code_simp
  moreover have "\<not> demo_start < 1772611200000" by (simp add: demo_start_def)
  ultimately show ?thesis
    by (simp add: client_may_change_def findByManageToken_def assertConfirmed_def
        assertWithinNoticeWindow_def demo_booked_def demo_booking_def new_booking_def demo_event_def
        moved_dates demo_settings_def default_settings_def)
qed

lemma moved_prepare:
  "reschedule_prepare demo_lx demo_now ''t1'' (toISOString moved_start) demo_booked =
     (Inr (demo_booking ''b1'' ''t1'', ''Etc/UTC'', moved_start, moved_end), demo_booked)"
proof -
  have "settings_get ''c1'' demo_booked = (Inr demo_settings, demo_booked)" by code_simp
  moreover have "\<not> moved_start < demo_now" by (simp add: moved_start_def demo_now_def)
  moreover have "b_coachId (demo_booking ''b1'' ''t1'') = ''c1''"
    "b_startAt (demo_booking ''b1'' ''t1'') = demo_start" "b_endAt (demo_booking ''b1'' ''t1'') = demo_end"
    by (simp_all add: demo_booking_def new_booking_def demo_event_def)
  moreover have "s_businessTimezone demo_settings = ''Etc/UTC''" by (simp add: demo_settings_def)
  ultimately show ?thesis
    by (simp add: reschedule_prepare_def moved_client parseStartAt_def assertSameCalendarDay_def
        moved_dates Let_def)
qed

lemma moved_schedule:
  assumes "overrides w = overrides demo_world" and "weeklies w = weeklies demo_world"
  shows "assertWithinSchedule demo_lx ''c1'' moved_start moved_end ''Etc/UTC'' loc w = Inr ()"
  by (simp add: assertWithinSchedule_def isWithinEffectiveRange_def ranges_frame [OF assms] moved_dates
      demo_effective candidate_range_def within_ranges_def)

lemma demo_reschedule:
  "\<exists>w'. rescheduleByClient demo_cfg demo_lx demo_now (\<lambda>_. False) ''t1'' (toISOString moved_start)
      demo_booked =
    (Inr ((demo_booking ''b1'' ''t1'')\<lparr>b_startAt := moved_start, b_endAt := moved_end\<rparr>), w')"
proof -
  let ?b = "demo_booking ''b1'' ''t1''" and ?u = "(demo_booking ''b1'' ''t1'')
    \<lparr>b_startAt := moved_start, b_endAt := moved_end\<rparr>"
  have "move_booking ?b moved_start moved_end demo_booked =
      (Inr ?u, demo_booked\<lparr>bookings := [?u]\<rparr>)"
    by (simp add: move_booking_def assertNotOverlapping_def overlapping_def truthy_def demo_booked_def
        demo_booking_sel booking_update_def updateRow_def)
  then have "reschedule_tx demo_lx ''Etc/UTC'' ?b moved_start moved_end demo_booked =
      (Inr ?u, demo_booked\<lparr>bookings := [?u]\<rparr>)"
    by (simp add: reschedule_tx_def demo_booking_sel moved_schedule demo_booked_def)
  then show ?thesis
    by (simp add: rescheduleByClient_def moved_prepare runSerializable_undisturbed drop_event_def
        demo_booking_sel truthy_def)
qed

end
