(* ===== verification/BookingSpecs.thy ===== *)
theory BookingSpecs
  imports Demo
begin

text \<open>
  What each booking operation promises: its result and the state it leaves, on success and
  on every error; and how the slots that \<open>Slots\<close> offers relate to what \<open>create\<close> accepts.
\<close>

section \<open>Operations\<close>

lemma schedule_frame:
  assumes "beside_settings w1 = beside_settings w"
  shows "assertWithinSchedule lx c s e tz loc w1 = assertWithinSchedule lx c s e tz loc w"
  unfolding assertWithinSchedule_def isWithinEffectiveRange_def
    ranges_frame [OF beside_settingsD(4) [OF assms] beside_settingsD(3) [OF assms]] ..

lemma cancel_outcome:
  assumes "distinct (map b_id (bookings w))" and "b \<in> set (bookings w)"
    and "cancel_and_notify cfg b who reason w = (x, w')"
  shows "(case x of
      Inl e \<Rightarrow> w' = w \<and> truthy (b_googleEventId b) \<and> getAuthenticatedClient cfg (b_coachId b) w = Inl e
    | Inr u \<Rightarrow> u = cancelled_row who reason b \<and>
        w' = enqueue (b_id b) (b_coachId b) Cancelled
          (w\<lparr>bookings := updateRow b_id (b_id b) (cancelled_row who reason) (bookings w),
             externals := externals w @ (if truthy (b_googleEventId b)
               then [CalendarDelete (b_coachId b) (the (b_googleEventId b))] else [])\<rparr>))"
proof -
  have f: "findUnique b_id (b_id b) (bookings w) = Some b"
    by (rule findUnique_distinct [OF assms(1,2)])
  from assms(3) obtain y w1 where c: "applyCancellation cfg b who reason w = (y, w1)"
    and x: "(x, w') = (case y of Inl e \<Rightarrow> (Inl e, w1)
      | Inr u \<Rightarrow> (Inr u, enqueue (b_id u) (b_coachId u) Cancelled w1))"
    by (cases "applyCancellation cfg b who reason w") (auto simp: cancel_and_notify_def andThen_def)
  from c show ?thesis
  proof (cases rule: applyCancellation_cases)
    case (refused e)
    with x show ?thesis by simp
  next
    case (missing ext)
    with assms(2) show ?thesis by blast
  next
    case (cancelled r)
    with f x show ?thesis by (simp add: cancelled_row_def)
  qed
qed

lemma enqueue_without_coach [simp]:
  "without_coach c (enqueue b c k w) = without_coach c w"
  by (simp add: enqueue_def without_coach_def rowtab.foreign_def)

lemma calendar_without_coach:
  "without_coach c (w\<lparr>externals := externals w @ (if p then [CalendarDelete c e] else [])\<rparr>) = without_coach c w"
  by (simp add: without_coach_def)

lemma cancelByCoach_outcome:
  assumes "constraints_ok w" and "findUnique b_id k (bookings w) = Some r"
    and "cancelByCoach cfg reason coach k w = (x, w')"
  shows "without_coach (b_coachId r) w' = without_coach (b_coachId r) w \<and>
    (\<forall>a. x = Inr a \<longrightarrow> b_coachId a = b_coachId r)"
proof (cases "coach_may_cancel coach k w")
  case (Inl e)
  with assms(3) show ?thesis by (auto simp: cancelByCoach_def)
next
  case (Inr b)
  then have b: "b = r"
    using assms(2) by (auto simp: coach_may_cancel_def dest!: assert_owner_InrD split: sum.splits if_splits)
  have r: "b_id r = k" "r \<in> set (bookings w)" using findUnique_Some [OF assms(2)] by auto
  from Inr assms(3) have "cancel_and_notify cfg r BY_COACH (Some reason) w = (x, w')"
    by (simp add: cancelByCoach_def b)
  note out = cancel_outcome [OF _ r(2) this]
  have d: "distinct (map b_id (bookings w))" using assms(1) by (simp add: constraints_ok_def)
  let ?w = "w\<lparr>bookings := updateRow b_id k (cancelled_row BY_COACH (Some reason)) (bookings w)\<rparr>"
  have u: "without_coach (b_coachId r) ?w = without_coach (b_coachId r) w"
    by (rule without_coach_upd(4) [OF assms(1,2)]) (simp add: cancelled_row_def)
  show ?thesis
  proof (cases x)
    case (Inl e)
    with out [OF d] show ?thesis by simp
  next
    case (Inr a)
    have "without_coach (b_coachId r) w' = without_coach (b_coachId r)
        (?w\<lparr>externals := externals ?w @ (if truthy (b_googleEventId r)
           then [CalendarDelete (b_coachId r) (the (b_googleEventId r))] else [])\<rparr>)"
      using out [OF d] Inr r(1) by simp
    then show ?thesis
      using out [OF d] Inr unfolding calendar_without_coach u by (simp add: cancelled_row_def)
  qed
qed

interpretation booking_cancel: guarded_write "\<lambda>k w. findUnique b_id k (bookings w)" b_coachId
    "\<lambda>c. I18n ''errors.bookingNotFound'' (Some (c_preferredLocale c)) []" "cancelByCoach cfg reason"
    constraints_ok without_coach b_coachId
  for cfg reason
proof unfold_locales
  fix coach k e and w :: world
  assume "assertCoachOwnsOrIsAdmin b_coachId coach (findUnique b_id k (bookings w))
    (I18n ''errors.bookingNotFound'' (Some (c_preferredLocale coach)) []) = Inl e"
  then show "cancelByCoach cfg reason coach k w = (Inl e, w)"
    by (simp add: cancelByCoach_def coach_may_cancel_def)
qed (use cancelByCoach_outcome in blast)+

lemma drop_event_InlD:
  assumes "drop_event cfg u w = (Inl e, w')" and "b_id u \<in> b_id ` set (bookings w)"
  shows "w' = w \<and> truthy (b_googleEventId u) \<and> getAuthenticatedClient cfg (b_coachId u) w = Inl e"
  using assms findUnique_exists [OF assms(2)]
  by (auto simp: drop_event_def deleteEvent_def booking_update_def elim!: andThen_cases
      split: if_splits sum.splits option.splits)

text \<open>
  C6: a booking that \<open>create\<close> returns is for an active event type at one of its locations,
  starts no earlier than now and ends after the event type's duration on the same local
  day, lies inside the schedule, and meets no confirmed booking of the coach; it is the only
  row added, it is confirmed, and exactly one confirmation job is queued for it.
\<close>

theorem create_correct:
  assumes "create lx now refused i tok dto org w = (Inr b, w')"
  shows "\<exists>et st w1. findUnique et_id (cb_eventTypeId dto) (eventTypes w) = Some et \<and> et_isActive et \<and>
    cb_location dto \<in> set (et_locations et) \<and> settings_get (et_coachId et) w = (Inr st, w1) \<and>
    lx_fromISOSetZone lx (cb_startAt dto) = Some (b_startAt b) \<and> now \<le> b_startAt b \<and>
    b_endAt b = lx_plusMinutes lx (b_startAt b) (of_int (et_durationMinutes et)) \<and>
    lx_toISODate lx (s_businessTimezone st) (b_startAt b) =
      lx_toISODate lx (s_businessTimezone st) (b_endAt b) \<and>
    assertWithinSchedule lx (et_coachId et) (b_startAt b) (b_endAt b) (s_businessTimezone st)
      (cb_locale dto) w = Inr () \<and>
    clear_of (et_coachId et) (b_startAt b) (b_endAt b) None (bookings w) \<and>
    b = new_booking i tok dto org et (b_startAt b) (b_endAt b) \<and>
    w' = enqueue i (et_coachId et) Confirmed (w1\<lparr>bookings := bookings w @ [b]\<rparr>)"
proof -
  from assms obtain et tz s e w1 where p: "create_prepare lx now dto w = (Inr (et, tz, s, e), w1)"
    and b: "b = new_booking i tok dto org et s e"
    and t: "create_tx lx tz (cb_locale dto) b w1 = (Inr b, w1\<lparr>bookings := bookings w1 @ [b]\<rparr>)"
    and w': "w' = enqueue (b_id b) (b_coachId b) Confirmed (w1\<lparr>bookings := bookings w1 @ [b]\<rparr>)"
    by (rule create_InrD)
  note fr = create_prepare_frame [OF p]
  have sel: "b_id b = i" "b_coachId b = et_coachId et" "b_startAt b = s" "b_endAt b = e"
    by (simp_all add: b new_booking_def)
  from p show ?thesis
  proof (rule create_prepare_InrD)
    fix st
    assume "findUnique et_id (cb_eventTypeId dto) (eventTypes w) = Some et" "et_isActive et"
      "cb_location dto \<in> set (et_locations et)" "settings_get (et_coachId et) w = (Inr st, w1)"
      "tz = s_businessTimezone st" "lx_fromISOSetZone lx (cb_startAt dto) = Some s" "now \<le> s"
      "e = lx_plusMinutes lx s (of_int (et_durationMinutes et))"
      "lx_toISODate lx tz s = lx_toISODate lx tz e"
    then show ?thesis
      using create_tx_InrD [OF t] b w' sel schedule_frame [OF fr] beside_settingsD(5) [OF fr]
      by (intro exI [of _ et] exI [of _ st] exI [of _ w1]) simp
  qed
qed

lemma demo_create:
  "create demo_lx demo_now (\<lambda>_. False) ''b1'' ''t1'' demo_dto None demo_world =
     (Inr (demo_booking ''b1'' ''t1''), enqueue ''b1'' ''c1'' Confirmed demo_booked)"
proof -
  have f: "b_id (demo_booking ''b1'' ''t1'') = ''b1''" "b_coachId (demo_booking ''b1'' ''t1'') = ''c1''"
    "b_startAt (demo_booking ''b1'' ''t1'') = demo_start" "b_endAt (demo_booking ''b1'' ''t1'') = demo_end"
    "cb_locale demo_dto = ''hu''"
    by (simp_all add: demo_booking_def new_booking_def demo_event_def demo_dto_def)
  have "create_tx demo_lx ''Etc/UTC'' ''hu'' (demo_booking ''b1'' ''t1'') demo_world =
      (Inr (demo_booking ''b1'' ''t1''), demo_booked)"
    by (simp add: create_tx_def f demo_schedule demo_reserve)
  then show ?thesis
    by (simp add: create_def demo_prepare demo_booking_def [symmetric] f runSerializable_undisturbed)
qed

lemma create_correct_witness:
  "\<exists>et :: eventType. et_isActive et \<and> cb_location demo_dto \<in> set (et_locations et) \<and>
    clear_of (et_coachId et) demo_start demo_end None (bookings demo_world)"
  using create_correct [OF demo_create] unfolding demo_booking_sel by blast



text \<open>
  C26: a cancellation by the client succeeds only for a confirmed booking outside the notice
  window; it marks exactly that booking, asks for its calendar event to be deleted when it
  has one, and queues one mail.  On any error no booking, job or event changes.
\<close>

theorem cancelByClient_correct:
  assumes "distinct (map b_id (bookings w))" and "cancelByClient cfg lx now token reason w = (x, w')"
  shows "case x of
      Inl e \<Rightarrow> beside_settings w' = beside_settings w
    | Inr u \<Rightarrow> \<exists>b st w1. findUnique b_manageToken token (bookings w) = Some b \<and> b_status b = CONFIRMED \<and>
        settings_get (b_coachId b) w = (Inr st, w1) \<and>
        lx_plusHours lx now (s_cancellationNoticeHours st) \<le> b_startAt b \<and>
        u = cancelled_row CLIENT reason b \<and>
        w' = enqueue (b_id b) (b_coachId b) Cancelled
          (w1\<lparr>bookings := updateRow b_id (b_id b) (cancelled_row CLIENT reason) (bookings w),
             externals := externals w @ (if truthy (b_googleEventId b)
               then [CalendarDelete (b_coachId b) (the (b_googleEventId b))] else [])\<rparr>)"
  using assms(2) unfolding cancelByClient_def
proof (cases rule: andThen_cases)
  case (err e)
  then show ?thesis using client_may_change_frame [OF err(1)] by simp
next
  case (ok b w1)
  note fr = client_may_change_frame [OF ok(1)]
  from ok(1) obtain st where b: "findUnique b_manageToken token (bookings w) = Some b"
    "b_status b = CONFIRMED" "settings_get (b_coachId b) w = (Inr st, w1)"
    "lx_plusHours lx now (s_cancellationNoticeHours st) \<le> b_startAt b"
    by (rule client_may_change_InrD)
  from b(1) have "b \<in> set (bookings w1)" by (simp add: findUnique_in beside_settingsD(5) [OF fr])
  from cancel_outcome [OF _ this ok(2)] assms(1) fr b show ?thesis
    by (cases x) (auto simp: beside_settingsD(5) [OF fr] beside_settingsD(9) [OF fr])
qed

lemma demo_cancel:
  "cancelByClient demo_cfg demo_lx demo_now ''t1'' None demo_booked =
     (Inr (cancelled_row CLIENT None (demo_booking ''b1'' ''t1'')),
      enqueue ''b1'' ''c1'' Cancelled
        (demo_booked\<lparr>bookings := [cancelled_row CLIENT None (demo_booking ''b1'' ''t1'')]\<rparr>))"
proof -
  have "settings_get ''c1'' demo_booked = (Inr demo_settings, demo_booked)" by code_simp
  moreover have "\<not> demo_start < lx_plusHours demo_lx demo_now 48"
    by (simp add: demo_start_def demo_lx_def zone_clock_def demo_now_def)
  ultimately have "client_may_change demo_lx demo_now ''t1'' demo_booked =
      (Inr (demo_booking ''b1'' ''t1''), demo_booked)"
    by (simp add: client_may_change_def findByManageToken_def assertConfirmed_def
        assertWithinNoticeWindow_def demo_booked_def demo_booking_def new_booking_def demo_event_def
        demo_settings_def default_settings_def)
  then show ?thesis
    by (simp add: cancelByClient_def cancel_and_notify_def applyCancellation_def booking_update_def
        demo_booked_def demo_booking_def new_booking_def demo_event_def truthy_def cancelled_row_def
        updateRow_def)
qed

lemma cancelByClient_correct_witness:
  "\<exists>b. findUnique b_manageToken ''t1'' (bookings demo_booked) = Some b \<and> b_status b = CONFIRMED"
proof -
  have "distinct (map b_id (bookings demo_booked))" by (simp add: demo_booked_def)
  from cancelByClient_correct [OF this demo_cancel] show ?thesis by auto
qed

text \<open>
  C27: a coach or an admin can cancel a confirmed booking she may act on, with a reason and
  regardless of the notice window; any other caller is told that the booking does not exist
  and nothing changes.
\<close>

theorem cancelByCoach_correct:
  assumes "distinct (map b_id (bookings w))" and "cancelByCoach cfg reason c k w = (x, w')"
  shows "case x of
      Inl e \<Rightarrow> w' = w \<and>
        (\<forall>b. findUnique b_id k (bookings w) = Some b \<and> b_coachId b \<noteq> c_id c \<and> c_role c \<noteq> ADMIN \<longrightarrow>
          e = NotFound (I18n ''errors.bookingNotFound'' (Some (c_preferredLocale c)) []))
    | Inr u \<Rightarrow> \<exists>b. findUnique b_id k (bookings w) = Some b \<and> b_status b = CONFIRMED \<and>
        (b_coachId b = c_id c \<or> c_role c = ADMIN) \<and> u = cancelled_row BY_COACH (Some reason) b \<and>
        w' = enqueue k (b_coachId b) Cancelled
          (w\<lparr>bookings := updateRow b_id k (cancelled_row BY_COACH (Some reason)) (bookings w),
             externals := externals w @ (if truthy (b_googleEventId b)
               then [CalendarDelete (b_coachId b) (the (b_googleEventId b))] else [])\<rparr>)"
proof (cases "coach_may_cancel c k w")
  case (Inl e)
  with assms(2) show ?thesis
    by (auto simp: cancelByCoach_def coach_may_cancel_def assertCoachOwnsOrIsAdmin_def
        split: option.splits if_splits)
next
  case (Inr b)
  then have b: "findUnique b_id k (bookings w) = Some b" "b_status b = CONFIRMED"
    "b_coachId b = c_id c \<or> c_role c = ADMIN"
    by (auto simp: coach_may_cancel_def assertConfirmed_def dest: assert_owner_InrD
        split: sum.splits if_splits)
  from assms(2) Inr have "cancel_and_notify cfg b BY_COACH (Some reason) w = (x, w')"
    by (simp add: cancelByCoach_def)
  from cancel_outcome [OF assms(1) findUnique_in [OF b(1)] this] b findUnique_key [OF b(1)]
  show ?thesis by (cases x) auto
qed

lemma cancelByCoach_correct_witness:
  "fst (cancelByCoach demo_cfg ''ill'' demo_coach ''b1'' demo_booked) =
     Inr (cancelled_row BY_COACH (Some ''ill'') (demo_booking ''b1'' ''t1''))"
proof -
  have d: "distinct (map b_id (bookings demo_booked))" by (simp add: demo_booked_def)
  have m: "coach_may_cancel demo_coach ''b1'' demo_booked = Inr (demo_booking ''b1'' ''t1'')"
    by (simp add: coach_may_cancel_def demo_booked_def demo_booking_sel assertCoachOwnsOrIsAdmin_def
        assertConfirmed_def demo_coach_def)
  then obtain u w' where c: "cancelByCoach demo_cfg ''ill'' demo_coach ''b1'' demo_booked = (Inr u, w')"
    by (simp add: cancelByCoach_def cancel_and_notify_def applyCancellation_def demo_booking_sel
        truthy_def booking_update_def demo_booked_def)
  from cancelByCoach_correct [OF d c] have "u = cancelled_row BY_COACH (Some ''ill'')
      (demo_booking ''b1'' ''t1'')" by (auto simp: demo_booked_def demo_booking_sel)
  with c show ?thesis by simp
qed

text \<open>
  A coach whose Google connection is gone cannot have a booking with a calendar event
  cancelled: the error of the credentials fails the request, nothing is stored, and the
  booking stays confirmed.
\<close>

theorem cancel_needs_google:
  assumes "client_may_change lx now token w = (Inr b, w1)" and "truthy (b_googleEventId b)"
    and "findUnique g_coachId (b_coachId b) (googleIntegrations w) = None"
  shows "cancelByClient cfg lx now token reason w = (Inl not_connected, w1) \<and>
    beside_settings w1 = beside_settings w"
proof -
  note fr = client_may_change_frame [OF assms(1)]
  have "getAuthenticatedClient cfg (b_coachId b) w1 = Inl not_connected"
    using assms(3) by (simp add: getAuthenticatedClient_def beside_settingsD(6) [OF fr]
        del: findUnique_None)
  then have "cancelByClient cfg lx now token reason w = (Inl not_connected, w1)"
    using assms(1,2)
    by (simp add: cancelByClient_def cancel_and_notify_def applyCancellation_def deleteEvent_def)
  with fr show ?thesis by simp
qed

definition demo_meet :: world where
  "demo_meet = demo_world\<lparr>bookings := [(demo_booking ''b1'' ''t1'')
     \<lparr>b_location := GOOGLE_MEET, b_googleEventId := Some ''ev1'', b_meetLink := Some ''meet''\<rparr>]\<rparr>"

lemma demo_meet_client:
  "client_may_change demo_lx demo_now ''t1'' demo_meet = (Inr ((demo_booking ''b1'' ''t1'')
     \<lparr>b_location := GOOGLE_MEET, b_googleEventId := Some ''ev1'', b_meetLink := Some ''meet''\<rparr>), demo_meet)"
proof -
  have "settings_get ''c1'' demo_meet = (Inr demo_settings, demo_meet)" by code_simp
  moreover have "\<not> demo_start < lx_plusHours demo_lx demo_now 48"
    by (simp add: demo_start_def demo_lx_def zone_clock_def demo_now_def)
  ultimately show ?thesis
    by (simp add: client_may_change_def findByManageToken_def assertConfirmed_def
        assertWithinNoticeWindow_def demo_meet_def demo_booking_sel demo_settings_def
        default_settings_def)
qed

lemma cancel_needs_google_witness:
  "fst (cancelByClient demo_cfg demo_lx demo_now ''t1'' None demo_meet) = Inl not_connected"
  using cancel_needs_google [OF demo_meet_client, of demo_cfg None]
  by (simp add: truthy_def demo_meet_def demo_world_def empty_world_def)

text \<open>How a reschedule ends once its transaction has stored the new time.\<close>

lemma drop_event_end:
  assumes "distinct (map b_id (bookings w))" and "b \<in> set (bookings w)"
    and u: "u = b\<lparr>b_startAt := s, b_endAt := e\<rparr>"
    and w2: "w2 = w1\<lparr>bookings := updateRow b_id (b_id b) (\<lambda>r. r\<lparr>b_startAt := s, b_endAt := e\<rparr>) (bookings w)\<rparr>"
    and fr: "beside_settings w1 = beside_settings w" and dr: "drop_event cfg u w2 = (z, w3)"
  shows "z = Inl err \<Longrightarrow> w3 = w2 \<and> truthy (b_googleEventId b) \<and>
      getAuthenticatedClient cfg (b_coachId b) w = Inl err"
    and "z = Inr v \<Longrightarrow> b_id v = b_id b \<and> b_coachId v = b_coachId b"
proof -
  have "b_id u \<in> b_id ` set (bookings w2)"
    using updateRow_keeps [OF assms(2), of b_id "b_id b" "\<lambda>r. r\<lparr>b_startAt := s, b_endAt := e\<rparr>"]
    by (intro image_eqI [where x = u]) (simp_all add: u w2)
  then show "w3 = w2 \<and> truthy (b_googleEventId b) \<and>
      getAuthenticatedClient cfg (b_coachId b) w = Inl err" if "z = Inl err"
    using drop_event_InlD [of cfg u w2 err w3] dr that
    by (simp add: u w2 getAuthenticatedClient_def beside_settingsD(6) [OF fr])
  show "b_id v = b_id b \<and> b_coachId v = b_coachId b" if "z = Inr v"
    using dr that findUnique_distinct [OF assms(1,2)]
    by (auto simp: drop_event_def u w2 booking_update_def findUnique_updateRow
        elim!: andThen_cases deleteEvent_cases split: if_splits option.splits)
qed

text \<open>The end of the answer of a reschedule: the calendar, then the job of the mail.\<close>

lemma rescheduled_end:
  assumes "distinct (map b_id (bookings w))" and b: "b \<in> set (bookings w)"
    and p: "reschedule_prepare lx now token given w = (Inr (b, tz, s, e), w1)"
    and tx: "runSerializable refused (reschedule_tx lx tz b s e) w1 = (Inr u, w2)"
    and mv: "move_booking b s e w1 = (Inr u, w2)"
    and run: "rescheduleByClient cfg lx now refused token given w = (x, w')"
  shows "w2 = w1\<lparr>bookings := updateRow b_id (b_id b) (\<lambda>r. r\<lparr>b_startAt := s, b_endAt := e\<rparr>) (bookings w)\<rparr>"
    and "clear_of (b_coachId b) s e (Some (b_id b)) (bookings w)"
    and "case x of
        Inl err \<Rightarrow> w' = w2 \<and> truthy (b_googleEventId b) \<and>
          getAuthenticatedClient cfg (b_coachId b) w = Inl err
      | Inr v \<Rightarrow> \<exists>w3. drop_event cfg (b\<lparr>b_startAt := s, b_endAt := e\<rparr>) w2 = (Inr v, w3) \<and>
          w' = enqueue (b_id b) (b_coachId b) Rescheduled w3"
proof -
  note fr = reschedule_prepare_frame [OF p]
  have bk: "bookings w1 = bookings w" by (rule beside_settingsD(5) [OF fr])
  have u: "u = b\<lparr>b_startAt := s, b_endAt := e\<rparr>"
    using mv findUnique_distinct [OF assms(1) b] by (auto elim!: move_booking_InrD simp: bk)
  show w2: "w2 = w1\<lparr>bookings := updateRow b_id (b_id b)
      (\<lambda>r. r\<lparr>b_startAt := s, b_endAt := e\<rparr>) (bookings w)\<rparr>"
    and "clear_of (b_coachId b) s e (Some (b_id b)) (bookings w)"
    using mv by (auto elim!: move_booking_InrD simp: bk)
  obtain z w3 where dr: "drop_event cfg u w2 = (z, w3)" by (cases "drop_event cfg u w2")
  note fin = drop_event_end [OF assms(1) b u w2 fr dr]
  from run p tx dr have "(x, w') = (case z of Inl err \<Rightarrow> (Inl err, w3)
      | Inr v \<Rightarrow> (Inr v, enqueue (b_id v) (b_coachId v) Rescheduled w3))"
    by (cases z) (auto simp: rescheduleByClient_def)
  then have run: "z = Inl err \<Longrightarrow> x = Inl err \<and> w' = w3"
    "z = Inr v \<Longrightarrow> x = Inr v \<and> w' = enqueue (b_id v) (b_coachId v) Rescheduled w3" for err v
    by simp_all
  show "case x of
        Inl err \<Rightarrow> w' = w2 \<and> truthy (b_googleEventId b) \<and>
          getAuthenticatedClient cfg (b_coachId b) w = Inl err
      | Inr v \<Rightarrow> \<exists>w3. drop_event cfg (b\<lparr>b_startAt := s, b_endAt := e\<rparr>) w2 = (Inr v, w3) \<and>
          w' = enqueue (b_id b) (b_coachId b) Rescheduled w3"
  proof (cases z)
    case (Inl err)
    from run(1) [OF Inl] fin(1) [OF Inl] show ?thesis by simp
  next
    case (Inr v)
    from run(2) [OF Inr] fin(2) [OF Inr] dr [unfolded Inr u] show ?thesis by simp
  qed
qed

text \<open>
  C7: a reschedule that succeeds moves exactly the booking of the token, which was confirmed
  and outside the notice window, to a future start on one local day inside the schedule and
  clear of the coach's other confirmed bookings; its duration stays and the calendar event
  of the old time is dropped.  When it fails before the transaction ends nothing changes;
  after it, only a failing calendar can fail it, and then the new time stays stored although
  the client sees an error and no mail is queued.
\<close>

theorem reschedule_correct:
  assumes "distinct (map b_id (bookings w))"
    and "rescheduleByClient cfg lx now refused token given w = (x, w')"
  shows "beside_settings w' = beside_settings w \<and> (\<exists>e. x = Inl e) \<or>
    (\<exists>b st s e w1 w2. findUnique b_manageToken token (bookings w) = Some b \<and> b_status b = CONFIRMED \<and>
      settings_get (b_coachId b) w = (Inr st, w1) \<and>
      lx_plusHours lx now (s_cancellationNoticeHours st) \<le> b_startAt b \<and>
      lx_fromISOSetZone lx given = Some s \<and> now \<le> s \<and>
      e = lx_plusMinutes lx s (lx_diffMinutes lx (b_endAt b) (b_startAt b)) \<and>
      lx_toISODate lx (s_businessTimezone st) s = lx_toISODate lx (s_businessTimezone st) e \<and>
      assertWithinSchedule lx (b_coachId b) s e (s_businessTimezone st) (b_locale b) w = Inr () \<and>
      clear_of (b_coachId b) s e (Some (b_id b)) (bookings w) \<and>
      w2 = w1\<lparr>bookings := updateRow b_id (b_id b) (\<lambda>r. r\<lparr>b_startAt := s, b_endAt := e\<rparr>) (bookings w)\<rparr> \<and>
      (case x of
         Inl err \<Rightarrow> w' = w2 \<and> truthy (b_googleEventId b) \<and>
           getAuthenticatedClient cfg (b_coachId b) w = Inl err
       | Inr u \<Rightarrow> \<exists>w3. drop_event cfg (b\<lparr>b_startAt := s, b_endAt := e\<rparr>) w2 = (Inr u, w3) \<and>
           w' = enqueue (b_id b) (b_coachId b) Rescheduled w3))"
proof (cases "reschedule_prepare lx now token given w")
  case (Pair y w1)
  note fr = reschedule_prepare_frame [OF Pair]
  show ?thesis
  proof (cases y)
    case (Inl e)
    with assms(2) Pair fr show ?thesis by (auto simp: rescheduleByClient_def)
  next
    case (Inr q)
    obtain b tz s e where q: "q = (b, tz, s, e)" by (cases q) auto
    with Pair Inr have p: "reschedule_prepare lx now token given w = (Inr (b, tz, s, e), w1)" by simp
    let ?tx = "runSerializable refused (reschedule_tx lx tz b s e) w1"
    show ?thesis
    proof (cases "fst ?tx")
      case (Inl err)
      then obtain w2 where tx: "?tx = (Inl err, w2)" by (cases ?tx) auto
      with runSerializable_Inl [OF tx] assms(2) p fr show ?thesis
        by (auto simp: rescheduleByClient_def)
    next
      case (Inr u)
      then obtain w2 where tx: "?tx = (Inr u, w2)" by (cases ?tx) auto
      from runSerializable_Inr [OF tx] have sc: "assertWithinSchedule lx (b_coachId b) s e tz
          (b_locale b) w1 = Inr ()" and mv: "move_booking b s e w1 = (Inr u, w2)"
        by (auto simp: reschedule_tx_def split: sum.splits)
      from p obtain st where st: "findUnique b_manageToken token (bookings w) = Some b"
        "b_status b = CONFIRMED" "settings_get (b_coachId b) w = (Inr st, w1)"
        "lx_plusHours lx now (s_cancellationNoticeHours st) \<le> b_startAt b"
        "tz = s_businessTimezone st" "lx_fromISOSetZone lx given = Some s" "now \<le> s"
        "e = lx_plusMinutes lx s (lx_diffMinutes lx (b_endAt b) (b_startAt b))"
        "lx_toISODate lx tz s = lx_toISODate lx tz e"
        by (rule reschedule_prepare_InrD)
      note fin = rescheduled_end [OF assms(1) findUnique_in [OF st(1)] p tx mv assms(2)]
      show ?thesis
        by (rule disjI2, rule exI [of _ b], rule exI [of _ st], rule exI [of _ s], rule exI [of _ e],
            rule exI [of _ w1], rule exI [of _ w2], intro conjI)
          (fact st [unfolded st(5)] sc [unfolded st(5) schedule_frame [OF fr]] fin)+
    qed
  qed
qed

lemma reschedule_correct_witness:
  "clear_of ''c1'' moved_start moved_end (Some ''b1'') (bookings demo_booked)"
proof -
  have d: "distinct (map b_id (bookings demo_booked))" by (simp add: demo_booked_def)
  obtain w' where "rescheduleByClient demo_cfg demo_lx demo_now (\<lambda>_. False) ''t1''
      (toISOString moved_start) demo_booked =
      (Inr ((demo_booking ''b1'' ''t1'')\<lparr>b_startAt := moved_start, b_endAt := moved_end\<rparr>), w')"
    using demo_reschedule by blast
  from reschedule_correct [OF d this] obtain b st s e where r:
    "findUnique b_manageToken ''t1'' (bookings demo_booked) = Some b"
    "lx_fromISOSetZone demo_lx (toISOString moved_start) = Some s"
    "e = lx_plusMinutes demo_lx s (lx_diffMinutes demo_lx (b_endAt b) (b_startAt b))"
    "clear_of (b_coachId b) s e (Some (b_id b)) (bookings demo_booked)"
    by blast
  from r(1) have b: "b = demo_booking ''b1'' ''t1''" by (simp add: demo_booked_def demo_booking_sel)
  from r(2) have s: "s = moved_start" by (simp add: moved_dates)
  from r(3) have e: "e = moved_end" unfolding b s by (simp only: demo_booking_sel moved_dates)
  from r(4) show ?thesis unfolding b s e by (simp only: demo_booking_sel)
qed

end
