(* ===== verification/SlotSpecs.thy ===== *)
theory SlotSpecs
  imports BookingSpecs
begin

text \<open>
  What the schedule and the offer of slots promise: the two computations of the effective
  ranges agree, the loops end for every date before the last day of the year 9999 and run
  on for that one, the offer is the comprehension \<open>offered_slots\<close>, and how it relates to
  what \<open>create\<close> accepts.
\<close>

section \<open>The schedule\<close>



text \<open>A year of more than four digits is written with a sign, which sorts before every digit.\<close>

lemma late_year: "2932896 < d \<Longrightarrow> 9999 < fst (date_of_day d)"
proof -
  assume "2932896 < d"
  then have "fst (date_of_day 2932897) \<le> fst (date_of_day d)" by (intro year_of_day_mono) simp
  moreover have "date_of_day 2932897 = (10000, 1, 1)" by code_simp
  ultimately show ?thesis by simp
qed

lemma last_day_text: "\<exists>s. iso_date 2932896 = CHR ''9'' # s"
proof -
  have d: "date_of_day 2932896 = (9999, 12, 31)" by code_simp
  have "digit 9 = CHR ''9''" by code_simp
  moreover have "pad 4 9999 = [digit 9, digit 9, digit 9, digit 9]"
  proof -
    have f: "(4 :: nat) = Suc (Suc (Suc (Suc 0)))" by simp
    show ?thesis unfolding f by simp
  qed
  ultimately show ?thesis by (simp add: iso_date_def d iso_year_def del: pad.simps)
qed

lemma before_last_day:
  assumes "- 719528 \<le> d"
  shows "str_le (iso_date d) (iso_date 2932896)"
proof (cases "d \<le> 2932896")
  case True
  then show ?thesis using assms by (simp add: iso_date_le four_digit_day_def)
next
  case False
  then obtain y m e where "date_of_day d = (y, m, e)" "9999 < y"
    using late_year [of d] by (cases "date_of_day d") auto
  then have "\<exists>s. iso_date d = CHR ''+'' # s" by (simp add: iso_date_def iso_year_def)
  with last_day_text show ?thesis by (auto simp: str_le_def)
qed

lemma range_loop_runs_on:
  assumes step: "\<And>d. a \<le> d \<Longrightarrow> d < b \<Longrightarrow> lx_toISODate lx tz (mid d) = iso_date d \<and>
      lx_plusDays lx tz (mid d) 1 = mid (d + 1)"
    and "- 719528 \<le> a" and "a \<le> b"
  shows "\<exists>m'. range_loop lx tz (iso_date 2932896) entry (mid a) m =
      range_loop lx tz (iso_date 2932896) entry (mid b) m' \<and>
    (\<forall>d. a \<le> d \<and> d < b \<longrightarrow> iso_date d \<in> dom m') \<and> dom m \<subseteq> dom m'"
  using assms(3) step
proof (induction "nat (b - a)" arbitrary: b)
  case 0
  then have "a = b" by simp
  then show ?case by (intro exI [of _ m]) auto
next
  case (Suc n)
  then have "n = nat (b - 1 - a)" "a \<le> b - 1" by linarith+
  from Suc.hyps(1) [OF this] Suc.prems(2) obtain m' where
    m': "range_loop lx tz (iso_date 2932896) entry (mid a) m =
      range_loop lx tz (iso_date 2932896) entry (mid (b - 1)) m'"
    "\<forall>d. a \<le> d \<and> d < b - 1 \<longrightarrow> iso_date d \<in> dom m'" "dom m \<subseteq> dom m'" by auto
  have s: "lx_toISODate lx tz (mid (b - 1)) = iso_date (b - 1)"
    "lx_plusDays lx tz (mid (b - 1)) 1 = mid b"
    using Suc.prems(2) [of "b - 1"] \<open>a \<le> b - 1\<close> by simp_all
  have "str_le (iso_date (b - 1)) (iso_date 2932896)"
    using assms(2) \<open>a \<le> b - 1\<close> by (intro before_last_day) linarith
  with s have "range_loop lx tz (iso_date 2932896) entry (mid (b - 1)) m' =
      range_loop lx tz (iso_date 2932896) entry (mid b) (m'(iso_date (b - 1) \<mapsto> entry (iso_date (b - 1))))"
    by (subst range_loop.simps) (simp add: Let_def)
  moreover have "iso_date d \<in> dom (m'(iso_date (b - 1) \<mapsto> entry (iso_date (b - 1))))"
    if "a \<le> d" "d < b" for d
    using that m'(2) by (cases "d = b - 1") auto
  ultimately show ?case
    using m'(1,3) by (intro exI [of _ "m'(iso_date (b - 1) \<mapsto> entry (iso_date (b - 1)))"]) auto
qed

text \<open>
  C31: a query for slots up to 9999-12-31 does not stop there.  The loop compares dates as
  texts, and a year of five digits is written with a plus sign, which sorts before every
  digit: at whatever later day \<open>b\<close> the library still counts to, the loop is still running
  and has stored a map entry for every day since the start.
\<close>

theorem range_loop_never_stops:
  assumes "\<And>d. a \<le> d \<Longrightarrow> d < b \<Longrightarrow> lx_toISODate lx tz (mid d) = iso_date d \<and>
      lx_plusDays lx tz (mid d) 1 = mid (d + 1)"
    and "four_digit_day a" and "a \<le> b" and "lx_fromISO lx (iso_date a) tz = Some (mid a)"
  shows "\<exists>entry m. getEffectiveRangesForDateRange lx w c (iso_date a) (iso_date 2932896) tz =
      map_option Inr (range_loop lx tz (iso_date 2932896) entry (mid b) m) \<and>
    (\<forall>d. a \<le> d \<and> d < b \<longrightarrow> iso_date d \<in> dom m)"
proof -
  have l: "four_digit_day 2932896" by (simp add: four_digit_day_def)
  have a: "- 719528 \<le> a" using assms(2) by (simp add: four_digit_day_def)
  obtain entry where e: "getEffectiveRangesForDateRange lx w c (iso_date a) (iso_date 2932896) tz =
      map_option Inr (range_loop lx tz (iso_date 2932896) entry (mid a) Map.empty)"
    by (simp add: getEffectiveRangesForDateRange_def toDateOnly_def utc_midnight_iso_date assms(2,4) l
        Let_def)
  obtain m where "range_loop lx tz (iso_date 2932896) entry (mid a) Map.empty =
      range_loop lx tz (iso_date 2932896) entry (mid b) m"
    and m: "\<forall>d. a \<le> d \<and> d < b \<longrightarrow> iso_date d \<in> dom m"
    using range_loop_runs_on [of a b lx tz mid entry Map.empty, OF assms(1) a assms(3)] by auto
  with e have "getEffectiveRangesForDateRange lx w c (iso_date a) (iso_date 2932896) tz =
      map_option Inr (range_loop lx tz (iso_date 2932896) entry (mid b) m)" by simp
  with m show ?thesis by blast
qed

lemma range_loop_never_stops_witness:
  "\<exists>entry m. getEffectiveRangesForDateRange demo_lx demo_world ''c1'' (iso_date 2932896)
      (iso_date 2932896) ''Etc/UTC'' =
    map_option Inr (range_loop demo_lx ''Etc/UTC'' (iso_date 2932896) entry (4000000 * ms_per_day) m) \<and>
    (\<forall>d. 2932896 \<le> d \<and> d < 4000000 \<longrightarrow> iso_date d \<in> dom m)"
proof -
  have l: "four_digit_day 2932896" by (simp add: four_digit_day_def)
  have s: "lx_toISODate demo_lx tz (d * ms_per_day) = iso_date d \<and>
      lx_plusDays demo_lx tz (d * ms_per_day) 1 = (d + 1) * ms_per_day" for d tz
    by (simp add: demo_lx_def zone_clock_def to_local_def of_local_def algebra_simps)
  show ?thesis
    using range_loop_never_stops [of 2932896 4000000 demo_lx "''Etc/UTC''" "\<lambda>d. d * ms_per_day",
        OF s l _ luxon_zoneD(6) [OF demo_zone(1) l], of demo_world "''c1''"] by simp
qed

section \<open>The offer\<close>

text \<open>
  A well-posed query: the event type is active and has a length, its coach's settings are
  read, the library knows the coach's zone, and the dates are days \<open>a\<close> to \<open>b\<close> of that zone.
\<close>

definition slot_query ::
  "luxon \<Rightarrow> world \<Rightarrow> querySlotsDto \<Rightarrow> eventType \<Rightarrow> settings \<Rightarrow> world \<Rightarrow> (int \<Rightarrow> int) \<Rightarrow> int \<Rightarrow> int \<Rightarrow> bool" where
  "slot_query lx w q et st w1 mid a b \<longleftrightarrow>
     findUnique et_id (q_eventTypeId q) (eventTypes w) = Some et \<and> et_isActive et \<and>
     0 < et_durationMinutes et \<and> settings_get (et_coachId et) w = (Inr st, w1) \<and>
     luxon_zone lx (s_businessTimezone st) mid \<and> q_from q = iso_date a \<and> q_to q = iso_date b \<and>
     four_digit_day a \<and> four_digit_day b \<and> four_digit_day (b + 1) \<and> dates_midnight (overrides w)"


definition demo_query :: querySlotsDto where
  "demo_query = \<lparr> q_eventTypeId = ''e1'', q_from = iso_date 20517, q_to = iso_date 20517,
     q_excludeBookingId = None \<rparr>"

lemma demo_settings_get: "settings_get ''c1'' demo_world = (Inr demo_settings, demo_world)"
  by code_simp

lemma demo_slot_query:
  "slot_query demo_lx demo_world demo_query demo_event demo_settings demo_world
     (\<lambda>d. d * ms_per_day) 20517 20517"
proof -
  have "findUnique et_id ''e1'' (eventTypes demo_world) = Some demo_event" "et_coachId demo_event = ''c1''"
    "overrides demo_world = []" "s_businessTimezone demo_settings = ''Etc/UTC''"
    by (simp_all add: demo_world_def empty_world_def demo_event_def demo_settings_def)
  then show ?thesis
    using demo_zone(1)
    by (simp add: slot_query_def demo_query_def demo_settings_get dates_midnight_def
        four_digit_day_def) (simp add: demo_event_def)
qed

lemma demo_offer:
  "offered_slots demo_lx demo_world (slots_context demo_lx demo_now demo_query demo_world demo_event
     demo_settings (20517 * ms_per_day) (20517 * ms_per_day)) (\<lambda>d. d * ms_per_day) 20517 20517 =
   map (slot_at demo_lx (slots_context demo_lx demo_now demo_query demo_world demo_event
     demo_settings (20517 * ms_per_day) (20517 * ms_per_day)) (20517 * ms_per_day))
     [540, 600, 660, 720, 780, 840, 900, 960]"
proof -
  let ?sc = "slots_context demo_lx demo_now demo_query demo_world demo_event demo_settings
    (20517 * ms_per_day) (20517 * ms_per_day)"
  have sel: "et_coachId demo_event = ''c1''" "et_durationMinutes demo_event = 60"
    "s_businessTimezone demo_settings = ''Etc/UTC''" "bookings demo_world = []"
    "s_cancellationNoticeHours demo_settings = 48"
    by (simp_all add: demo_event_def demo_settings_def demo_world_def empty_world_def default_settings_def)
  have starts: "range_starts 60 \<lparr>startMinute = 540, endMinute = 1020\<rparr> =
      [540, 600, 660, 720, 780, 840, 900, 960]" by code_simp
  have "slot_free demo_lx ?sc (20517 * ms_per_day) m"
    if "m \<in> set [540, 600, 660, 720, 780, 840, 900, 960]" for m
    using that
    by (auto simp: slot_free_def slot_start_def slots_context_def sel demo_lx_def zone_clock_def
        to_local_def of_local_def demo_now_def findMany_def)
  then have "filter (slot_free demo_lx ?sc (20517 * ms_per_day)) [540, 600, 660, 720, 780, 840, 900, 960] =
      [540, 600, 660, 720, 780, 840, 900, 960]" by (intro filter_True) blast
  then show ?thesis
    by (simp add: offered_slots_def day_slots_def effective_def sel demo_effective starts)
qed


text \<open>Days on which the zone does not change its offset, with dates the library can write.\<close>

definition plain_days :: "luxon \<Rightarrow> string \<Rightarrow> (int \<Rightarrow> int) \<Rightarrow> int \<Rightarrow> int \<Rightarrow> bool" where
  "plain_days lx tz mid a b \<longleftrightarrow>
     (\<forall>d. a \<le> d \<and> d \<le> b + 1 \<longrightarrow> four_digit_day (mid d div ms_per_day)) \<and>
     (\<forall>d. a \<le> d \<and> d \<le> b \<longrightarrow> regular_day lx tz mid d)"

lemma effective_wf:
  assumes "availability_wf w" and "r \<in> set (effective lx w c tz d)"
  shows "0 \<le> startMinute r \<and> startMinute r < endMinute r \<and> endMinute r \<le> 24 * 60"
proof -
  from assms(2) consider o1 where "o1 \<in> set (overrides w)" "\<not> o_isUnavailable o1" "r = override_range o1"
    | r1 where "r1 \<in> set (weeklies w)" "r = weekly_range r1"
    by (auto simp: effective_def getEffectiveRangesForDate_def override_ranges_def Let_def list_ex_iff
        split: sum.splits option.splits if_splits)
  then show ?thesis
  proof cases
    case 1
    with assms(1) have "override_wf o1" by (auto simp: availability_wf_def)
    with 1 show ?thesis by (auto simp: override_wf_def override_range_def minute_number_def)
  next
    case 2
    with assms(1) show ?thesis by (auto simp: availability_wf_def weekly_wf_def weekly_range_def)
  qed
qed

lemma day_between:
  assumes "four_digit_day (x div ms_per_day)" "four_digit_day (y div ms_per_day)" "x \<le> t" "t \<le> y"
  shows "four_digit_day (t div ms_per_day)"
proof -
  have "x div ms_per_day \<le> t div ms_per_day" "t div ms_per_day \<le> y div ms_per_day"
    using assms(3,4) by (simp_all add: zdiv_mono1)
  with assms(1,2) show ?thesis unfolding four_digit_day_def by linarith
qed

text \<open>The instants of an offered slot on a plain day, with the range it comes from.\<close>

lemma offered_slot_times:
  assumes wf: "availability_wf w" and i: "luxon_instants lx"
    and p: "plain_days lx (sc_timezone sc) mid a b" and dur: "0 < sc_durationMinutes sc"
    and s: "s \<in> set (offered_slots lx w sc mid a b)"
  obtains d r m where "a \<le> d" "d \<le> b" "r \<in> set (effective lx w (sc_coachId sc) (sc_timezone sc) d)"
    "startMinute r \<le> m" "m + sc_durationMinutes sc \<le> endMinute r" "0 \<le> m" "endMinute r \<le> 24 * 60"
    "slot_free lx sc (mid d) m" "slot_start lx sc (mid d) m = mid d + m * ms_per_min"
    "slot_end lx sc (mid d) m = mid d + (m + sc_durationMinutes sc) * ms_per_min"
    "mid (d + 1) = mid d + ms_per_day" "regular_day lx (sc_timezone sc) mid d"
    "s = slot_at lx sc (mid d) m"
    "lx_fromISOSetZone lx (sl_startAt s) = Some (mid d + m * ms_per_min)"
    "lx_fromISOSetZone lx (sl_endAt s) = Some (mid d + (m + sc_durationMinutes sc) * ms_per_min)"
proof -
  from offered_slotsD [OF s dur] obtain d r m where d: "a \<le> d" "d \<le> b"
    and r: "r \<in> set (effective lx w (sc_coachId sc) (sc_timezone sc) d)"
    and m: "startMinute r \<le> m" "m + sc_durationMinutes sc \<le> endMinute r"
    and f: "slot_free lx sc (mid d) m" "s = slot_at lx sc (mid d) m" .
  from effective_wf [OF wf r] have b: "0 \<le> startMinute r" "endMinute r \<le> 24 * 60" by simp_all
  have reg: "regular_day lx (sc_timezone sc) mid d" using p d by (simp add: plain_days_def)
  have mb: "0 \<le> m" "m < 24 * 60" using b m dur by linarith+
  have len: "mid (d + 1) = mid d + ms_per_day" using reg by (simp add: regular_day_def)
  have st: "slot_start lx sc (mid d) m = mid d + m * ms_per_min"
    by (rule slot_start_regular [OF reg mb])
  have en: "slot_end lx sc (mid d) m = mid d + (m + sc_durationMinutes sc) * ms_per_min"
    by (simp add: slot_end_eq [OF i] st algebra_simps)
  have fd: "four_digit_day (mid d div ms_per_day)" "four_digit_day (mid (d + 1) div ms_per_day)"
    using p d by (simp_all add: plain_days_def)
  have "mid d \<le> mid d + m * ms_per_min" using mb by simp
  moreover have "mid d + m * ms_per_min \<le> mid d + (m + sc_durationMinutes sc) * ms_per_min"
    using dur by simp
  moreover have "mid d + (m + sc_durationMinutes sc) * ms_per_min \<le> mid (d + 1)"
    using m(2) b(2) by (simp add: len)
  ultimately have "four_digit_day ((mid d + m * ms_per_min) div ms_per_day)"
    "four_digit_day ((mid d + (m + sc_durationMinutes sc) * ms_per_min) div ms_per_day)"
    by (meson day_between [OF fd] order_trans)+
  then have "lx_fromISOSetZone lx (sl_startAt s) = Some (mid d + m * ms_per_min)"
    "lx_fromISOSetZone lx (sl_endAt s) = Some (mid d + (m + sc_durationMinutes sc) * ms_per_min)"
    by (simp_all only: f(2) slot_at_def slot.select_convs st en luxon_instantsD(4) [OF i])
  with that [OF d r m mb(1) b(2) f(1) st en len reg f(2)] show thesis by blast
qed

text \<open>An offered slot of a well-posed query on plain days: its day, range and starting minute.\<close>

lemma offered_slot_facts:
  assumes q: "slot_query lx w q et st w1 mid a b" and i: "luxon_instants lx"
    and p: "plain_days lx (s_businessTimezone st) mid a b" and wf: "availability_wf w"
    and one: "one_day_bookings mid (bookings w)"
    and c: "computeSlots lx now q w = Some (Inr slots, w1)" and s: "s \<in> set slots"
  obtains d r m where "a \<le> d" "d \<le> b"
    "r \<in> set (effective lx w (et_coachId et) (s_businessTimezone st) d)"
    "startMinute r \<le> m" "m + et_durationMinutes et \<le> endMinute r" "0 \<le> m" "endMinute r \<le> 24 * 60"
    "regular_day lx (s_businessTimezone st) mid d"
    "lx_fromISOSetZone lx (sl_startAt s) = Some (mid d + m * ms_per_min)"
    "lx_fromISOSetZone lx (sl_endAt s) = Some (mid d + (m + et_durationMinutes et) * ms_per_min)"
    "now + s_cancellationNoticeHours st * 3600000 \<le> mid d + m * ms_per_min"
    "\<forall>bk \<in> set (bookings w). b_coachId bk = et_coachId et \<and> b_status bk = CONFIRMED \<and>
       (truthy (q_excludeBookingId q) \<longrightarrow> Some (b_id bk) \<noteq> q_excludeBookingId q) \<longrightarrow>
       \<not> (b_startAt bk < mid d + (m + et_durationMinutes et) * ms_per_min \<and>
          mid d + m * ms_per_min < b_endAt bk)"
proof -
  let ?sc = "slots_context lx now q w et st (mid a) (mid b)"
  from q have z: "luxon_zone lx (s_businessTimezone st) mid" and dur: "0 < et_durationMinutes et"
    and ab: "four_digit_day a" "four_digit_day b" "four_digit_day (b + 1)"
    by (simp_all add: slot_query_def)
  have "computeSlots lx now q w = Some
    (if b < a then Inl (BadRequest (I18n ''errors.invalidDateRange'' None []))
     else if 90 < b - a
     then Inl (BadRequest (I18n ''errors.rangeTooLong'' None [(''days'', 90)]))
     else Inr (offered_slots lx w ?sc mid a b), w1)"
    using q unfolding slot_query_def by (intro computeSlots_eq) simp_all
  with c have "slots = offered_slots lx w ?sc mid a b" by (auto split: if_splits)
  with s have off: "s \<in> set (offered_slots lx w ?sc mid a b)" by simp
  from offered_slot_times [OF wf i _ _ off] p dur obtain d r m where d: "a \<le> d" "d \<le> b"
    and r: "r \<in> set (effective lx w (et_coachId et) (s_businessTimezone st) d)"
    and m: "startMinute r \<le> m" "m + et_durationMinutes et \<le> endMinute r" "0 \<le> m" "endMinute r \<le> 24 * 60"
    and free: "slot_free lx ?sc (mid d) m" and st: "slot_start lx ?sc (mid d) m = mid d + m * ms_per_min"
    and en: "slot_end lx ?sc (mid d) m = mid d + (m + et_durationMinutes et) * ms_per_min"
    and len: "mid (d + 1) = mid d + ms_per_day" and reg: "regular_day lx (s_businessTimezone st) mid d"
    and parse: "lx_fromISOSetZone lx (sl_startAt s) = Some (mid d + m * ms_per_min)"
      "lx_fromISOSetZone lx (sl_endAt s) = Some (mid d + (m + et_durationMinutes et) * ms_per_min)"
    by (metis slots_context_sel)
  let ?S = "mid d + m * ms_per_min" and ?E = "mid d + (m + et_durationMinutes et) * ms_per_min"
  have cut: "now + s_cancellationNoticeHours st * 3600000 \<le> ?S"
    using free st by (simp add: slot_free_def slots_context_def luxon_instantsD(1) [OF i])
  have inside: "mid d \<le> ?S" "?S < ?E" "?E \<le> mid (d + 1)"
    using m dur by (simp_all add: len)
  have "\<not> list_ex (\<lambda>(s', e'). s' < ?E \<and> ?S < e') (sc_existing ?sc)"
    using free unfolding slot_free_def st en by simp
  from free_among_all [OF z ab d inside this one] have clear:
    "\<forall>bk \<in> set (bookings w). b_coachId bk = et_coachId et \<and> b_status bk = CONFIRMED \<and>
       (truthy (q_excludeBookingId q) \<longrightarrow> Some (b_id bk) \<noteq> q_excludeBookingId q) \<longrightarrow>
       \<not> (b_startAt bk < ?E \<and> ?S < b_endAt bk)" by blast
  show thesis by (rule that [OF d r m reg parse cut clear])
qed


text \<open>The first slot offered in the demonstration data.\<close>

lemma demo_plain: "plain_days demo_lx ''Etc/UTC'' (\<lambda>d. d * ms_per_day) 20517 20517"
proof -
  have "local_midnight 0 0 0 = (\<lambda>d. d * ms_per_day)"
    by (simp add: fun_eq_iff local_midnight_def of_local_def)
  with zone_clock_regular [of 0 0 0 20517 "''Etc/UTC''"]
  have "regular_day demo_lx ''Etc/UTC'' (\<lambda>d. d * ms_per_day) 20517"
    by (simp add: demo_lx_def midnight_clear_def)
  moreover have "d = 20517" if "20517 \<le> d" "d \<le> 20517" for d :: int using that by simp
  ultimately show ?thesis by (auto simp: plain_days_def four_digit_day_def)
qed

lemma demo_wf: "availability_wf demo_world" "one_day_bookings mid (bookings demo_world)"
  by (simp_all add: availability_wf_def weekly_wf_def demo_world_def demo_weekly_def empty_world_def
      one_day_bookings_def)

lemma demo_slots:
  "computeSlots demo_lx demo_now demo_query demo_world = Some (Inr (map (slot_at demo_lx
     (slots_context demo_lx demo_now demo_query demo_world demo_event
     demo_settings (20517 * ms_per_day) (20517 * ms_per_day)) (20517 * ms_per_day))
     [540, 600, 660, 720, 780, 840, 900, 960]), demo_world)"
  using computeSlots_eq [of demo_query demo_world demo_event demo_settings demo_world demo_lx
      "\<lambda>d. d * ms_per_day" 20517 20517 demo_now] demo_slot_query
  unfolding demo_offer [symmetric] slot_query_def by simp


end
