(* ===== verification/OfferSpecs.thy ===== *)
theory OfferSpecs
  imports SlotSpecs
begin

text \<open>
  How the slots that \<open>computeSlots\<close> offers relate to what \<open>create\<close> accepts.  The two
  agree on a day on which the zone keeps its offset, except for a slot that ends at the
  following midnight; on the day of a change they disagree.
\<close>

section \<open>An offered slot is booked\<close>

text \<open>The request that books an offered slot, and the answer \<open>create\<close> gives it.\<close>

lemma create_within:
  assumes z: "luxon_zone lx tz mid" and i: "luxon_instants lx" and reg: "regular_day lx tz mid d"
    and fd: "four_digit_day d" "four_digit_day (d + 1)"
    and m: "0 \<le> m" "m < m'" "m' \<le> 24 * 60" and e: "m' < 24 * 60"
    and r: "r \<in> set (effective lx w c tz d)" "startMinute r \<le> m" "m' \<le> endMinute r"
  shows "assertWithinSchedule lx c (mid d + m * ms_per_min) (mid d + m' * ms_per_min) tz loc w = Inr ()"
proof -
  let ?S = "mid d + m * ms_per_min" and ?E = "mid d + m' * ms_per_min"
  have len: "mid (d + 1) = mid d + ms_per_day" using reg by (simp add: regular_day_def)
  have S: "mid d \<le> ?S" "?S < mid (d + 1)" using m by (simp_all add: len)
  have "lx_hour lx tz ?S * 60 + lx_minute lx tz ?S = (?S - mid d) div ms_per_min"
    using reg S unfolding regular_day_def by blast
  then have hm: "lx_hour lx tz ?S * 60 + lx_minute lx tz ?S = m" by simp
  have sod: "lx_startOfDay lx tz ?S = mid d" "lx_toISODate lx tz ?S = iso_date d"
    using luxon_zoneD(2,3) [OF z fd(1) S] by simp_all
  have "lx_diffMinutes lx ?E (mid d) = of_int (?E - mid d) / 60000"
    by (rule luxon_instantsD(3) [OF i])
  also have "\<dots> = of_int m'" by simp
  finally have cand: "candidate_range lx tz ?S ?E = \<lparr> startMinute = of_int m, endMinute = of_int m' \<rparr>"
    unfolding candidate_range_def sod hm by simp
  obtain rs where rs: "getEffectiveRangesForDate lx w c (iso_date d) tz = Inr rs" "r \<in> set rs"
    using r(1) by (cases "getEffectiveRangesForDate lx w c (iso_date d) tz") (auto simp: effective_def)
  then have "within_ranges (candidate_range lx tz ?S ?E) rs"
    using r(2,3) by (auto simp: cand within_ranges_def list_ex_iff)
  with rs show ?thesis by (simp add: assertWithinSchedule_def isWithinEffectiveRange_def sod)
qed

text \<open>What the request of an offered slot meets, step by step.\<close>

lemma same_day_before_midnight:
  assumes z: "luxon_zone lx tz mid" and fd: "four_digit_day d" "four_digit_day (d + 1)"
    and S: "mid d \<le> S" "S < mid (d + 1)" and E: "mid d \<le> E" "E \<le> mid (d + 1)"
  shows "lx_toISODate lx tz E = lx_toISODate lx tz S \<longleftrightarrow> E < mid (d + 1)"
proof (cases "E < mid (d + 1)")
  case True
  with luxon_zoneD(3) [OF z fd(1) S] luxon_zoneD(3) [OF z fd(1) E(1)] show ?thesis by simp
next
  case False
  with E(2) have "E = mid (d + 1)" by simp
  with luxon_zoneD(3) [OF z fd(1) S] luxon_zone_midnight(2) [OF z fd(2)] iso_date_inject [OF fd(2,1)]
  show ?thesis by simp
qed

lemma end_of_some_day:
  assumes z: "luxon_zone lx tz mid" and ab: "four_digit_day a" "four_digit_day (b + 1)"
    and d: "a \<le> d" "d \<le> b" and E: "mid d < E" "E \<le> mid (d + 1)"
  shows "(\<exists>d'. a \<le> d' \<and> d' \<le> b \<and> E = mid (d' + 1)) \<longleftrightarrow> \<not> E < mid (d + 1)"
proof
  have fd: "four_digit_day d" "four_digit_day (d + 1)" using ab d by (simp_all add: four_digit_day_def)
  assume "\<exists>d'. a \<le> d' \<and> d' \<le> b \<and> E = mid (d' + 1)"
  then obtain d' where d': "a \<le> d'" "d' \<le> b" "E = mid (d' + 1)" by blast
  have fd': "four_digit_day (d' + 1)" using ab d' by (simp add: four_digit_day_def)
  have "d + 1 \<le> d' + 1" using luxon_zone_less_iff [OF z fd(1) fd'] E(1) d'(3) by simp
  with d'(3) show "\<not> E < mid (d + 1)" using luxon_zone_le_iff [OF z fd(2) fd'] by simp
next
  assume "\<not> E < mid (d + 1)"
  with E(2) d show "\<exists>d'. a \<le> d' \<and> d' \<le> b \<and> E = mid (d' + 1)" by (intro exI [of _ d]) simp
qed

lemma create_prepare_at:
  assumes "findUnique et_id (cb_eventTypeId dto) (eventTypes w) = Some et" "et_isActive et"
    and "cb_location dto \<in> set (et_locations et)" and "settings_get (et_coachId et) w = (Inr st, w1)"
    and "lx_fromISOSetZone lx (cb_startAt dto) = Some S" "\<not> S < now"
    and "lx_plusMinutes lx S (of_int (et_durationMinutes et)) = E"
  shows "create_prepare lx now dto w =
    (if lx_toISODate lx (s_businessTimezone st) E = lx_toISODate lx (s_businessTimezone st) S
     then (Inr (et, s_businessTimezone st, S, E), w1)
     else (Inl (i18n_error BadRequest ''spanMultipleDays'' (Some (cb_locale dto))), w1))"
  using assms by (auto simp: create_prepare_def parseStartAt_def assertSameCalendarDay_def Let_def)

lemma create_tx_clear:
  assumes "assertWithinSchedule lx (b_coachId bk) (b_startAt bk) (b_endAt bk) tz loc w = Inr ()"
    and "clear_of (b_coachId bk) (b_startAt bk) (b_endAt bk) None (bookings w)"
    and "coach_exists (b_coachId bk) w" "b_eventTypeId bk \<in> et_id ` set (eventTypes w)"
    and "\<forall>b \<in> set (bookings w). b_id b \<noteq> b_id bk \<and> b_manageToken b \<noteq> b_manageToken bk"
  shows "create_tx lx tz loc bk w = (Inr bk, w\<lparr>bookings := bookings w @ [bk]\<rparr>)"
proof -
  have "booking_create bk w = (Inr bk, w\<lparr>bookings := bookings w @ [bk]\<rparr>)"
    using assms(3-5) by (auto simp: booking_create_def createRow_def)
  with assms(1,2) show ?thesis by (simp add: create_tx_def reserve_def assertNotOverlapping_iff)
qed



section \<open>The day of a change of the offset\<close>

text \<open>
  25 October 2026 in a zone that falls back from two hours to one at 01:00 UTC; a session of
  four hours, bookable on Sundays from 9 to 17.
\<close>

definition dst_lx :: luxon where
  "dst_lx = zone_clock (20751 * ms_per_day + 3600000) 7200000 3600000"

definition dst_event :: eventType where
  "dst_event = demo_event\<lparr>et_durationMinutes := 240\<rparr>"

definition dst_world :: world where
  "dst_world = demo_world\<lparr>eventTypes := [dst_event], weeklies := [demo_weekly\<lparr>w_weekday := 7\<rparr>]\<rparr>"

definition dst_query :: querySlotsDto where
  "dst_query = \<lparr> q_eventTypeId = ''e1'', q_from = iso_date 20751, q_to = iso_date 20751,
     q_excludeBookingId = None \<rparr>"

definition dst_start :: int where "dst_start = 20751 * ms_per_day + 780 * ms_per_min - 3600000"

definition dst_mid :: "int \<Rightarrow> int" where
  "dst_mid = local_midnight (20751 * ms_per_day + 3600000) 7200000 3600000"

lemma dst_zone:
  "luxon_zone dst_lx tz dst_mid"
  "dst_mid 20751 = 20751 * ms_per_day - 7200000"
proof -
  have "midnight_clear (20751 * ms_per_day + 3600000) 7200000 3600000"
    unfolding midnight_clear_def
  proof (intro allI notI)
    fix d :: int
    assume "20751 * ms_per_day + 3600000 + min 7200000 3600000 \<le> d * ms_per_day \<and>
      d * ms_per_day < 20751 * ms_per_day + 3600000 + max 7200000 3600000"
    then show False by (cases "d \<le> 20751") simp_all
  qed
  then show "luxon_zone dst_lx tz dst_mid"
    unfolding dst_lx_def dst_mid_def by (rule zone_clock_zone) simp
  show "dst_mid 20751 = 20751 * ms_per_day - 7200000"
    by (simp add: dst_mid_def local_midnight_def of_local_def)
qed

lemma dst_settings: "settings_get ''c1'' dst_world = (Inr demo_settings, dst_world)"
  by code_simp

lemma dst_sel:
  "et_coachId dst_event = ''c1''" "et_durationMinutes dst_event = 240" "et_isActive dst_event"
  "et_locations dst_event = [PHONE, GOOGLE_MEET]" "et_id dst_event = ''e1''"
  "s_businessTimezone demo_settings = ''Etc/UTC''" "s_cancellationNoticeHours demo_settings = 48"
  "bookings dst_world = []" "overrides dst_world = []" "eventTypes dst_world = [dst_event]"
  "weeklies dst_world = [demo_weekly\<lparr>w_weekday := 7\<rparr>]" "four_digit_day 20751" "four_digit_day 20752"
  by (simp_all add: dst_event_def demo_event_def demo_settings_def dst_world_def demo_world_def
      empty_world_def default_settings_def four_digit_day_def)

lemma dst_effective:
  "getEffectiveRangesForDate dst_lx dst_world ''c1'' (iso_date 20751) ''Etc/UTC'' =
     Inr [\<lparr>startMinute = 540, endMinute = 1020\<rparr>]"
proof -
  have "isoWeekdayOf dst_lx (iso_date 20751) ''Etc/UTC'' = Some 7"
    by (simp add: isoWeekdayOf_def luxon_zoneD(6) [OF dst_zone(1) dst_sel(12)] dst_zone(2))
      (simp add: dst_lx_def zone_clock_def to_local_def iso_weekday_def)
  then show ?thesis
    by (simp add: getEffectiveRangesForDate_def toDateOnly_def utc_midnight_iso_date dst_sel
        findMany_def demo_weekly_def weekly_range_def)
qed

lemma dst_clock:
  "lx_startOfDay dst_lx tz dst_start = 20751 * ms_per_day - 7200000"
  "lx_toISODate dst_lx tz dst_start = iso_date 20751"
  "lx_toISODate dst_lx tz (dst_start + 240 * ms_per_min) = iso_date 20751"
  "lx_hour dst_lx tz dst_start = 13" "lx_minute dst_lx tz dst_start = 0"
  "lx_setTime dst_lx tz (20751 * ms_per_day - 7200000) 13 0 = dst_start"
  "lx_plusMinutes dst_lx dst_start 240 = dst_start + 240 * ms_per_min"
  "lx_fromISOSetZone dst_lx (toISOString dst_start) = Some dst_start"
  "lx_toUTCISO dst_lx = toISOString"
proof -
  have "four_digit_day (dst_start div ms_per_day)" by (simp add: dst_start_def four_digit_day_def)
  then show "lx_fromISOSetZone dst_lx (toISOString dst_start) = Some dst_start"
    by (simp add: dst_lx_def zone_clock_def read_instant_iso)
qed (simp_all add: dst_lx_def zone_clock_def dst_start_def to_local_def of_local_def local_midnight_def)

text \<open>
  C30: on the day the clocks go back, the offer includes the session from 13 to 17 o'clock,
  which lies inside the coach's hours, and a client who asks for it is refused as outside
  the availability: the end of the candidate is counted in minutes elapsed since midnight,
  an hour more than the wall clock shows.
\<close>

theorem dst_slot_refused:
  "\<exists>slots s. computeSlots dst_lx demo_now dst_query dst_world = Some (Inr slots, dst_world) \<and>
     s \<in> set slots \<and> lx_hour dst_lx ''Etc/UTC'' dst_start = 13 \<and> sl_startAt s = toISOString dst_start \<and>
     create dst_lx demo_now (\<lambda>_. False) ''b1'' ''t1'' (demo_dto\<lparr>cb_startAt := sl_startAt s\<rparr>) None dst_world =
       (Inl (i18n_error Conflict ''outsideAvailability'' (Some ''hu'')), dst_world)"
proof -
  let ?mid = dst_mid
  let ?sc = "slots_context dst_lx demo_now dst_query dst_world dst_event demo_settings (?mid 20751) (?mid 20751)"
  let ?s = "slot_at dst_lx ?sc (?mid 20751) 780"
  have "slot_query dst_lx dst_world dst_query dst_event demo_settings dst_world ?mid 20751 20751"
    using dst_zone(1) by (simp add: slot_query_def dst_query_def dst_settings dst_sel dates_midnight_def)
  then have offer: "computeSlots dst_lx demo_now dst_query dst_world =
      Some (Inr (offered_slots dst_lx dst_world ?sc ?mid 20751 20751), dst_world)"
    using computeSlots_eq [of dst_query dst_world dst_event demo_settings dst_world dst_lx ?mid 20751 20751]
    by (simp add: slot_query_def)
  have start: "slot_start dst_lx ?sc (?mid 20751) 780 = dst_start"
    by (simp add: slot_start_def slots_context_def dst_zone(2) [simplified] dst_clock [simplified])
  have "slot_free dst_lx ?sc (?mid 20751) 780"
    unfolding slot_free_def start
    by (simp add: slots_context_def dst_sel findMany_def)
      (simp add: dst_lx_def zone_clock_def demo_now_def dst_start_def)
  moreover have "range_starts 240 \<lparr>startMinute = 540, endMinute = 1020\<rparr> = [540, 780]" by code_simp
  ultimately have mem: "?s \<in> set (offered_slots dst_lx dst_world ?sc ?mid 20751 20751)"
    by (simp add: offered_slots_def day_slots_def effective_def dst_sel dst_effective)
  have iso: "sl_startAt ?s = toISOString dst_start"
    by (simp add: slot_at_def start dst_clock)
  have "\<not> dst_start < demo_now" by (simp add: dst_start_def demo_now_def)
  then have prep: "create_prepare dst_lx demo_now (demo_dto\<lparr>cb_startAt := sl_startAt ?s\<rparr>) dst_world =
      (Inr (dst_event, ''Etc/UTC'', dst_start, dst_start + 240 * ms_per_min), dst_world)"
    unfolding iso
    by (simp add: create_prepare_def demo_dto_def dst_sel dst_settings parseStartAt_def
        assertSameCalendarDay_def dst_clock dst_clock(3) [simplified] Let_def)
  have "lx_diffMinutes dst_lx (dst_start + 240 * ms_per_min) (20751 * ms_per_day - 7200000) = 1080"
    by (simp add: dst_lx_def zone_clock_def dst_start_def)
  then have "assertWithinSchedule dst_lx ''c1'' dst_start (dst_start + 240 * ms_per_min) ''Etc/UTC'' loc
      dst_world = Inl (i18n_error Conflict ''outsideAvailability'' (Some loc))" for loc
    by (simp add: assertWithinSchedule_def isWithinEffectiveRange_def candidate_range_def dst_clock
        dst_effective within_ranges_def)
  then have "create dst_lx demo_now (\<lambda>_. False) ''b1'' ''t1'' (demo_dto\<lparr>cb_startAt := sl_startAt ?s\<rparr>) None
      dst_world = (Inl (i18n_error Conflict ''outsideAvailability'' (Some ''hu'')), dst_world)"
    unfolding create_def prep
    by (simp add: runSerializable_undisturbed create_tx_def new_booking_def dst_sel demo_dto_def
        i18n_error_def)
  with offer mem iso dst_clock(4) show ?thesis by blast
qed

end
