(* ===== verification/Tokens.thy ===== *)
theory Tokens
  imports Common
begin

text \<open>
  The signed tokens (token.service.ts): the access tokens, and the tokens of one purpose that
  travel through the browser or a mail.  The library that signs them is a parameter: a
  function that signs a payload with a secret, for a lifetime in seconds at a clock in
  milliseconds, and one that verifies a token at a clock.  \<open>jwt_laws\<close> is its documented
  behaviour, and \<open>toy_jwt\<close> one concrete library that has it.
\<close>

section \<open>The library\<close>

text \<open>The members of a payload; a member that is absent is None.\<close>

record payload =
  p_sub :: "string option"
  p_email :: "string option"
  p_role :: "coachRole option"
  p_iat :: "int option"
  p_exp :: "int option"
  p_purpose :: "string option"
  p_name :: "string option"
  p_frontendUrl :: "string option"

definition no_claims :: payload where
  "no_claims = \<lparr> p_sub = None, p_email = None, p_role = None, p_iat = None, p_exp = None,
     p_purpose = None, p_name = None, p_frontendUrl = None \<rparr>"

record jwt =
  jw_sign :: "payload \<Rightarrow> string \<Rightarrow> int \<Rightarrow> int \<Rightarrow> string"
  jw_verify :: "string \<Rightarrow> string \<Rightarrow> int \<Rightarrow> payload option"

text \<open>
  Signing stamps the payload with the second it is issued in, unless the payload brings
  one, and with the second it expires in; a token verifies until that second begins.
\<close>

definition issued_at :: "payload \<Rightarrow> int \<Rightarrow> int" where
  "issued_at p now =
    (case p_iat p of None \<Rightarrow> now div 1000 | Some i \<Rightarrow> if i = 0 then now div 1000 else i)"

definition stamped :: "payload \<Rightarrow> int \<Rightarrow> int \<Rightarrow> payload" where
  "stamped p ttl now = p\<lparr>p_iat := Some (issued_at p now), p_exp := Some (issued_at p now + ttl)\<rparr>"

definition jwt_laws :: "jwt \<Rightarrow> bool" where
  "jwt_laws j \<longleftrightarrow>
    (\<forall>p secret ttl now now'. p_exp p = None \<longrightarrow> jw_sign j p secret ttl now \<noteq> [] \<and>
       jw_verify j (jw_sign j p secret ttl now) secret now' =
         (if now' div 1000 < issued_at p now + ttl then Some (stamped p ttl now) else None))"

section \<open>The service\<close>

record tokenService =
  tk_jwt :: jwt
  tk_jwtSecret :: string

definition TOKEN_TTL :: int where "TOKEN_TTL = 30 * 24 * 3600"
definition GOOGLE_CONNECT_STATE_TTL :: int where "GOOGLE_CONNECT_STATE_TTL = 5 * 60"
definition COACH_INVITE_TTL :: int where "COACH_INVITE_TTL = 7 * 24 * 3600"
definition PASSWORD_RESET_TTL :: int where "PASSWORD_RESET_TTL = 3600"

definition GOOGLE_CONNECT_STATE_PURPOSE :: string where
  "GOOGLE_CONNECT_STATE_PURPOSE = ''google-connect''"
definition COACH_INVITE_PURPOSE :: string where "COACH_INVITE_PURPOSE = ''coach-invite''"
definition PASSWORD_RESET_PURPOSE :: string where "PASSWORD_RESET_PURPOSE = ''password-reset''"

lemmas purposes =
  GOOGLE_CONNECT_STATE_PURPOSE_def COACH_INVITE_PURPOSE_def PASSWORD_RESET_PURPOSE_def
lemmas lifetimes =
  TOKEN_TTL_def GOOGLE_CONNECT_STATE_TTL_def COACH_INVITE_TTL_def PASSWORD_RESET_TTL_def

definition access_claims :: "string \<Rightarrow> string \<Rightarrow> coachRole \<Rightarrow> int option \<Rightarrow> payload" where
  "access_claims sub email role iat =
    no_claims\<lparr>p_sub := Some sub, p_email := Some email, p_role := Some role, p_iat := iat\<rparr>"

definition sign :: "tokenService \<Rightarrow> int \<Rightarrow> payload \<Rightarrow> string" where
  "sign ts now payload = jw_sign (tk_jwt ts) payload (tk_jwtSecret ts) TOKEN_TTL now"

definition verify :: "tokenService \<Rightarrow> int \<Rightarrow> string \<Rightarrow> err + payload" where
  "verify ts now token =
    (case jw_verify (tk_jwt ts) token (tk_jwtSecret ts) now of
       None \<Rightarrow> Inl (Unauthorized (Text ''Invalid or expired token''))
     | Some p \<Rightarrow> Inr p)"

definition signGoogleConnectState :: "tokenService \<Rightarrow> int \<Rightarrow> string \<Rightarrow> string" where
  "signGoogleConnectState ts now coachId =
    jw_sign (tk_jwt ts)
      (no_claims\<lparr>p_sub := Some coachId, p_purpose := Some GOOGLE_CONNECT_STATE_PURPOSE\<rparr>)
      (tk_jwtSecret ts) GOOGLE_CONNECT_STATE_TTL now"

definition verifyGoogleConnectState :: "tokenService \<Rightarrow> int \<Rightarrow> string \<Rightarrow> err + string option" where
  "verifyGoogleConnectState ts now token =
    (let failed = Unauthorized (Text ''Invalid or expired connect link'') in
     case jw_verify (tk_jwt ts) token (tk_jwtSecret ts) now of
       None \<Rightarrow> Inl failed
     | Some p \<Rightarrow>
         if p_purpose p \<noteq> Some GOOGLE_CONNECT_STATE_PURPOSE then Inl failed else Inr (p_sub p))"

record coachInvitePayload =
  ci_email :: "string option"
  ci_name :: "string option"
  ci_frontendUrl :: "string option"

definition signCoachInviteToken :: "tokenService \<Rightarrow> int \<Rightarrow> coachInvitePayload \<Rightarrow> string" where
  "signCoachInviteToken ts now invite =
    jw_sign (tk_jwt ts)
      (no_claims\<lparr>p_email := ci_email invite, p_name := ci_name invite,
         p_frontendUrl := ci_frontendUrl invite, p_purpose := Some COACH_INVITE_PURPOSE\<rparr>)
      (tk_jwtSecret ts) COACH_INVITE_TTL now"

definition verifyCoachInviteToken :: "tokenService \<Rightarrow> int \<Rightarrow> string \<Rightarrow> err + coachInvitePayload" where
  "verifyCoachInviteToken ts now token =
    (let failed = Unauthorized (Text ''Invalid or expired invite link'') in
     case jw_verify (tk_jwt ts) token (tk_jwtSecret ts) now of
       None \<Rightarrow> Inl failed
     | Some p \<Rightarrow>
         if p_purpose p \<noteq> Some COACH_INVITE_PURPOSE then Inl failed
         else Inr \<lparr> ci_email = p_email p, ci_name = p_name p, ci_frontendUrl = p_frontendUrl p \<rparr>)"

definition signPasswordResetToken :: "tokenService \<Rightarrow> int \<Rightarrow> string \<Rightarrow> string" where
  "signPasswordResetToken ts now coachId =
    jw_sign (tk_jwt ts)
      (no_claims\<lparr>p_sub := Some coachId, p_purpose := Some PASSWORD_RESET_PURPOSE\<rparr>)
      (tk_jwtSecret ts) PASSWORD_RESET_TTL now"

definition verifyPasswordResetToken ::
  "tokenService \<Rightarrow> int \<Rightarrow> string \<Rightarrow> err + string option \<times> int" where
  "verifyPasswordResetToken ts now token =
    (let failed = Unauthorized (Text ''Invalid or expired reset link'') in
     case jw_verify (tk_jwt ts) token (tk_jwtSecret ts) now of
       None \<Rightarrow> Inl failed
     | Some p \<Rightarrow>
         (case p_iat p of
            None \<Rightarrow> Inl failed
          | Some iat \<Rightarrow>
              if p_purpose p \<noteq> Some PASSWORD_RESET_PURPOSE then Inl failed else Inr (p_sub p, iat)))"

text \<open>What the library makes of the tokens of the service.\<close>

lemmas token_defs =
  sign_def verify_def signGoogleConnectState_def verifyGoogleConnectState_def
  signCoachInviteToken_def verifyCoachInviteToken_def signPasswordResetToken_def
  verifyPasswordResetToken_def

lemma jwt_verify_sign:
  assumes "jwt_laws j" and "p_exp p = None"
  shows "jw_verify j (jw_sign j p secret ttl now) secret now' =
    (if now' div 1000 < issued_at p now + ttl then Some (stamped p ttl now) else None)"
  using assms by (simp add: jwt_laws_def)

lemma sign_not_empty: "jwt_laws j \<Longrightarrow> p_exp p = None \<Longrightarrow> jw_sign j p secret ttl now \<noteq> []"
  by (simp add: jwt_laws_def)

lemma verify_sign:
  assumes "jwt_laws (tk_jwt ts)" and "p_exp p = None"
  shows "verify ts now' (sign ts now p) =
    (if now' div 1000 < issued_at p now + TOKEN_TTL then Inr (stamped p TOKEN_TTL now)
     else Inl (Unauthorized (Text ''Invalid or expired token'')))"
  by (simp add: sign_def verify_def jwt_verify_sign [OF assms])

lemma verifyPasswordReset_sign:
  assumes "jwt_laws (tk_jwt ts)"
  shows "verifyPasswordResetToken ts now' (signPasswordResetToken ts now k) =
    (if now' div 1000 < now div 1000 + PASSWORD_RESET_TTL then Inr (Some k, now div 1000)
     else Inl (Unauthorized (Text ''Invalid or expired reset link'')))"
  by (simp add: token_defs jwt_verify_sign [OF assms] no_claims_def stamped_def issued_at_def)

lemma verifyCoachInvite_sign:
  assumes "jwt_laws (tk_jwt ts)"
  shows "verifyCoachInviteToken ts now' (signCoachInviteToken ts now i) =
    (if now' div 1000 < now div 1000 + COACH_INVITE_TTL then Inr i
     else Inl (Unauthorized (Text ''Invalid or expired invite link'')))"
  by (simp add: token_defs jwt_verify_sign [OF assms] no_claims_def stamped_def issued_at_def)

lemma verifyGoogleConnect_sign:
  assumes "jwt_laws (tk_jwt ts)"
  shows "verifyGoogleConnectState ts now' (signGoogleConnectState ts now k) =
    (if now' div 1000 < now div 1000 + GOOGLE_CONNECT_STATE_TTL then Inr (Some k)
     else Inl (Unauthorized (Text ''Invalid or expired connect link'')))"
  by (simp add: token_defs jwt_verify_sign [OF assms] no_claims_def stamped_def issued_at_def)

text \<open>
  C25: a token of one purpose gives back what it was signed for until its lifetime is over
  (five minutes for the Google state, seven days for an invitation, an hour for a reset), and
  is refused from then on; a verifier of one purpose refuses the tokens of the other
  purposes and access tokens at every time.
\<close>

theorem purpose_tokens_correct:
  assumes "jwt_laws (tk_jwt ts)"
  shows "(verifyGoogleConnectState ts t' (signGoogleConnectState ts t k) =
      (if t' div 1000 < t div 1000 + 300 then Inr (Some k)
       else Inl (Unauthorized (Text ''Invalid or expired connect link'')))) \<and>
    (verifyCoachInviteToken ts t' (signCoachInviteToken ts t i) =
      (if t' div 1000 < t div 1000 + 604800 then Inr i
       else Inl (Unauthorized (Text ''Invalid or expired invite link'')))) \<and>
    (verifyPasswordResetToken ts t' (signPasswordResetToken ts t k) =
      (if t' div 1000 < t div 1000 + 3600 then Inr (Some k, t div 1000)
       else Inl (Unauthorized (Text ''Invalid or expired reset link'')))) \<and>
    (\<forall>token \<in> {signCoachInviteToken ts t i, signPasswordResetToken ts t k,
        sign ts t (access_claims k email role iat)}.
       verifyGoogleConnectState ts t' token = Inl (Unauthorized (Text ''Invalid or expired connect link''))) \<and>
    (\<forall>token \<in> {signGoogleConnectState ts t k, signPasswordResetToken ts t k,
        sign ts t (access_claims k email role iat)}.
       verifyCoachInviteToken ts t' token = Inl (Unauthorized (Text ''Invalid or expired invite link''))) \<and>
    (\<forall>token \<in> {signGoogleConnectState ts t k, signCoachInviteToken ts t i,
        sign ts t (access_claims k email role iat)}.
       verifyPasswordResetToken ts t' token = Inl (Unauthorized (Text ''Invalid or expired reset link'')))"
proof (intro conjI)
  show "verifyGoogleConnectState ts t' (signGoogleConnectState ts t k) =
      (if t' div 1000 < t div 1000 + 300 then Inr (Some k)
       else Inl (Unauthorized (Text ''Invalid or expired connect link'')))"
    "verifyCoachInviteToken ts t' (signCoachInviteToken ts t i) =
      (if t' div 1000 < t div 1000 + 604800 then Inr i
       else Inl (Unauthorized (Text ''Invalid or expired invite link'')))"
    "verifyPasswordResetToken ts t' (signPasswordResetToken ts t k) =
      (if t' div 1000 < t div 1000 + 3600 then Inr (Some k, t div 1000)
       else Inl (Unauthorized (Text ''Invalid or expired reset link'')))"
    using verifyGoogleConnect_sign [OF assms] verifyCoachInvite_sign [OF assms]
      verifyPasswordReset_sign [OF assms] by (simp_all add: lifetimes)
qed (simp_all add: token_defs jwt_verify_sign [OF assms] no_claims_def stamped_def
    access_claims_def purposes)

section \<open>An instance of the library\<close>

text \<open>Texts that read back: a number in unary, an option behind a mark, a text behind its length.\<close>

definition enc_nat :: "nat \<Rightarrow> string" where
  "enc_nat n = replicate n CHR ''1'' @ ''0''"

fun dec_nat :: "string \<Rightarrow> (nat \<times> string) option" where
  "dec_nat [] = None"
| "dec_nat (c # s) =
    (if c = CHR ''0'' then Some (0, s)
     else case dec_nat s of None \<Rightarrow> None | Some (n, r) \<Rightarrow> Some (Suc n, r))"

definition enc_string :: "string \<Rightarrow> string" where
  "enc_string s = enc_nat (length s) @ s"

definition dec_string :: "string \<Rightarrow> (string \<times> string) option" where
  "dec_string t = (case dec_nat t of None \<Rightarrow> None | Some (n, r) \<Rightarrow> Some (take n r, drop n r))"

definition enc_int :: "int \<Rightarrow> string" where
  "enc_int i = (if i < 0 then ''-'' else ''+'') @ enc_nat (nat \<bar>i\<bar>)"

definition dec_int :: "string \<Rightarrow> (int \<times> string) option" where
  "dec_int t =
    (case dec_nat (drop 1 t) of
       None \<Rightarrow> None
     | Some (n, r) \<Rightarrow> Some (if take 1 t = ''-'' then - int n else int n, r))"

definition enc_role :: "coachRole \<Rightarrow> string" where
  "enc_role r = (case r of ADMIN \<Rightarrow> ''a'' | COACH \<Rightarrow> ''c'')"

definition dec_role :: "string \<Rightarrow> (coachRole \<times> string) option" where
  "dec_role t = Some (if take 1 t = ''a'' then ADMIN else COACH, drop 1 t)"

definition enc_opt :: "('a \<Rightarrow> string) \<Rightarrow> 'a option \<Rightarrow> string" where
  "enc_opt f x = (case x of None \<Rightarrow> ''n'' | Some y \<Rightarrow> ''s'' @ f y)"

definition dec_opt :: "(string \<Rightarrow> ('a \<times> string) option) \<Rightarrow> string \<Rightarrow> ('a option \<times> string) option" where
  "dec_opt f t =
    (if take 1 t = ''n'' then Some (None, drop 1 t)
     else case f (drop 1 t) of None \<Rightarrow> None | Some (x, r) \<Rightarrow> Some (Some x, r))"

lemma dec_enc_nat: "dec_nat (enc_nat n @ r) = Some (n, r)"
  by (induction n) (simp_all add: enc_nat_def)

lemma dec_enc_string: "dec_string (enc_string s @ r) = Some (s, r)"
  by (simp add: dec_string_def enc_string_def dec_enc_nat)

lemma dec_enc_int: "dec_int (enc_int i @ r) = Some (i, r)"
  by (simp add: dec_int_def enc_int_def dec_enc_nat)

lemma dec_enc_role: "dec_role (enc_role x @ r) = Some (x, r)"
  by (cases x) (simp_all add: dec_role_def enc_role_def)

lemma dec_enc_opt:
  "(\<And>x r. dec (enc x @ r) = Some (x, r)) \<Longrightarrow> dec_opt dec (enc_opt enc x @ r) = Some (x, r)"
  by (cases x) (simp_all add: dec_opt_def enc_opt_def)

lemmas dec_enc =
  dec_enc_opt [OF dec_enc_string, where r = "[]", simplified] dec_enc_string dec_enc_opt [OF dec_enc_string] dec_enc_opt [OF dec_enc_int]
  dec_enc_opt [OF dec_enc_role]

definition enc_payload :: "payload \<Rightarrow> string" where
  "enc_payload p = enc_opt enc_string (p_sub p) @ enc_opt enc_string (p_email p) @
     enc_opt enc_role (p_role p) @ enc_opt enc_int (p_iat p) @ enc_opt enc_int (p_exp p) @
     enc_opt enc_string (p_purpose p) @ enc_opt enc_string (p_name p) @
     enc_opt enc_string (p_frontendUrl p)"

definition dec_payload :: "string \<Rightarrow> payload option" where
  "dec_payload t =
    Option.bind (dec_opt dec_string t) (\<lambda>(sub, t).
    Option.bind (dec_opt dec_string t) (\<lambda>(email, t).
    Option.bind (dec_opt dec_role t) (\<lambda>(role, t).
    Option.bind (dec_opt dec_int t) (\<lambda>(iat, t).
    Option.bind (dec_opt dec_int t) (\<lambda>(exp, t).
    Option.bind (dec_opt dec_string t) (\<lambda>(purpose, t).
    Option.bind (dec_opt dec_string t) (\<lambda>(name, t).
    Option.bind (dec_opt dec_string t) (\<lambda>(site, t).
      Some \<lparr> p_sub = sub, p_email = email, p_role = role, p_iat = iat, p_exp = exp,
        p_purpose = purpose, p_name = name, p_frontendUrl = site \<rparr>))))))))"

lemma dec_enc_payload: "dec_payload (enc_payload p) = Some p"
  unfolding dec_payload_def enc_payload_def by (simp add: dec_enc)

definition toy_jwt :: jwt where
  "toy_jwt =
    \<lparr> jw_sign = (\<lambda>p secret ttl now. enc_string secret @ enc_payload (stamped p ttl now)),
      jw_verify = (\<lambda>token secret now.
        Option.bind (dec_string token) (\<lambda>(secret', t).
        Option.bind (dec_payload t) (\<lambda>p.
          if secret' = secret \<and> (case p_exp p of None \<Rightarrow> True | Some e \<Rightarrow> now div 1000 < e)
          then Some p else None))) \<rparr>"

lemma toy_jwt_laws: "jwt_laws toy_jwt"
proof -
  have "enc_string s \<noteq> []" for s by (simp add: enc_string_def enc_nat_def)
  then show ?thesis
    by (simp add: jwt_laws_def toy_jwt_def dec_enc_string dec_enc_payload stamped_def)
qed

definition demo_tokens :: tokenService where
  "demo_tokens = \<lparr> tk_jwt = toy_jwt, tk_jwtSecret = ''secret'' \<rparr>"

lemma demo_tokens_laws: "jwt_laws (tk_jwt demo_tokens)"
  by (simp add: demo_tokens_def toy_jwt_laws)

lemma purpose_tokens_correct_witness:
  "verifyGoogleConnectState demo_tokens 299000 (signGoogleConnectState demo_tokens 0 ''c1'') = Inr (Some ''c1'') \<and>
   verifyGoogleConnectState demo_tokens 300000 (signGoogleConnectState demo_tokens 0 ''c1'') =
     Inl (Unauthorized (Text ''Invalid or expired connect link''))"
  using purpose_tokens_correct [OF demo_tokens_laws, of 299000 0 "''c1''"]
    purpose_tokens_correct [OF demo_tokens_laws, of 300000 0 "''c1''"] by simp

end
