(* ===== verification/Response.thy ===== *)
theory Response
  imports Common
begin

text \<open>
  What leaves and enters the program as text: the escaping of HTML in mails
  (html.util.ts), the removal of password hashes from response bodies
  (strip-password-hash.interceptor.ts), and the origin of a request (origin.util.ts).
  The parser of URLs is a parameter, giving the host name and the origin of a URL.
\<close>

section \<open>Escaping\<close>

text \<open>The global replacement of one character by a text.\<close>

definition replace_all :: "char \<Rightarrow> string \<Rightarrow> string \<Rightarrow> string" where
  "replace_all c r s = concat (map (\<lambda>x. if x = c then r else [x]) s)"

definition escapeHtml :: "string \<Rightarrow> string" where
  "escapeHtml s =
    replace_all (CHR 0x22) ''&quot;''
      (replace_all CHR ''>'' ''&gt;''
        (replace_all CHR ''<'' ''&lt;''
          (replace_all CHR ''&'' ''&amp;'' s)))"

lemma replace_all_Nil [simp]: "replace_all c r [] = []"
  by (simp add: replace_all_def)

lemma replace_all_Cons [simp]:
  "replace_all c r (x # s) = (if x = c then r else [x]) @ replace_all c r s"
  by (simp add: replace_all_def)

lemma replace_all_append: "replace_all c r (s @ t) = replace_all c r s @ replace_all c r t"
  by (simp add: replace_all_def)

text \<open>The four passes do what one pass over the characters does.\<close>

fun escape_char :: "char \<Rightarrow> string" where
  "escape_char c =
    (if c = CHR ''&'' then ''&amp;'' else if c = CHR ''<'' then ''&lt;''
     else if c = CHR ''>'' then ''&gt;'' else if c = CHR 0x22 then ''&quot;'' else [c])"

lemma escapeHtml_Nil: "escapeHtml [] = []"
  by (simp add: escapeHtml_def)

lemma escapeHtml_Cons: "escapeHtml (c # s) = escape_char c @ escapeHtml s"
  by (simp add: escapeHtml_def replace_all_append)

text \<open>A reader of HTML text: it turns the four entities back into their characters.\<close>

function read_entities :: "string \<Rightarrow> string" where
  "read_entities s =
    (if s = [] then []
     else if take 5 s = ''&amp;'' then CHR ''&'' # read_entities (drop 5 s)
     else if take 4 s = ''&lt;'' then CHR ''<'' # read_entities (drop 4 s)
     else if take 4 s = ''&gt;'' then CHR ''>'' # read_entities (drop 4 s)
     else if take 6 s = ''&quot;'' then CHR 0x22 # read_entities (drop 6 s)
     else hd s # read_entities (tl s))"
  by pat_completeness auto
termination
  by (relation "measure length") auto

declare read_entities.simps [simp del]

lemma read_entities_escape: "read_entities (escape_char c @ s) = c # read_entities s"
  by (subst read_entities.simps) auto

lemma read_escapeHtml: "read_entities (escapeHtml s) = s"
  by (induction s)
    (simp_all only: escapeHtml_Nil escapeHtml_Cons read_entities_escape,
      simp add: read_entities.simps)

lemma escape_char_safe: "set (escape_char c) \<inter> {CHR ''<'', CHR ''>'', CHR 0x22} = {}"
  by auto

lemma escapeHtml_safe: "set (escapeHtml s) \<inter> {CHR ''<'', CHR ''>'', CHR 0x22} = {}"
proof (induction s)
  case (Cons c s)
  then show ?case
    by (simp only: escapeHtml_Cons set_append Int_Un_distrib2 escape_char_safe Un_empty)
qed (simp add: escapeHtml_Nil)

section \<open>Password hashes in responses\<close>

fun strip :: "json \<Rightarrow> json" where
  "strip (JArr xs) = JArr (map strip xs)"
| "strip (JObj kvs) =
     JObj (map (\<lambda>(k, v). (k, strip v)) (filter (\<lambda>(k, v). k \<noteq> ''passwordHash'') kvs))"
| "strip v = v"

text \<open>The keys that occur anywhere in a value, and the values reached by a path of keys and indices.\<close>

fun keys_of :: "json \<Rightarrow> string set" where
  "keys_of (JArr xs) = (\<Union>x \<in> set xs. keys_of x)"
| "keys_of (JObj kvs) = (\<Union>kv \<in> set kvs. insert (fst kv) (keys_of (snd kv)))"
| "keys_of v = {}"

datatype path_step = Key string | Index nat

fun at_path :: "path_step list \<Rightarrow> json \<Rightarrow> json option" where
  "at_path [] v = Some v"
| "at_path (Key k # p) (JObj kvs) =
     (case map_of kvs k of None \<Rightarrow> None | Some v \<Rightarrow> at_path p v)"
| "at_path (Index n # p) (JArr xs) = (if n < length xs then at_path p (xs ! n) else None)"
| "at_path _ _ = None"

lemma strip_keys: "''passwordHash'' \<notin> keys_of (strip v)"
  by (induction v rule: strip.induct) fastforce+

lemma strip_idem: "strip (strip v) = strip v"
  by (induction v rule: strip.induct) (auto simp: filter_map o_def case_prod_unfold filter_True)

lemma map_of_strip:
  "map_of (map (\<lambda>(k, v). (k, strip v)) (filter (\<lambda>(k, v). k \<noteq> p) kvs)) k =
    (if k = p then None else map_option strip (map_of kvs k))"
  by (induction kvs) auto

text \<open>Nothing else is lost: every path that names no password hash leads to the stripped value.\<close>

lemma strip_at_path:
  "Key ''passwordHash'' \<notin> set p \<Longrightarrow> at_path p (strip v) = map_option strip (at_path p v)"
proof (induction p v rule: at_path.induct)
  case (2 k p kvs)
  then show ?case by (cases "map_of kvs k") (auto simp: map_of_strip)
qed auto

section \<open>Origins\<close>

type_synonym url_parser = "string \<Rightarrow> (string \<times> string) option"  \<comment> \<open>hostname and origin\<close>

definition LOCAL_HOSTNAMES :: "string list" where
  "LOCAL_HOSTNAMES = [''localhost'', ''127.0.0.1'', ''[::1]'', ''::1'']"

definition isLocalhostOrigin :: "url_parser \<Rightarrow> string \<Rightarrow> bool" where
  "isLocalhostOrigin parse origin =
    (case parse origin of None \<Rightarrow> False | Some (hostname, _) \<Rightarrow> hostname \<in> set LOCAL_HOSTNAMES)"

definition resolveRequestOrigin ::
  "url_parser \<Rightarrow> string option \<Rightarrow> string option \<Rightarrow> string option" where
  "resolveRequestOrigin parse originHeader refererHeader =
    (if truthy originHeader then originHeader
     else case refererHeader of
       None \<Rightarrow> None
     | Some r \<Rightarrow> if r = [] then None else map_option snd (parse r))"

section \<open>Properties\<close>

text \<open>
  C33: escaping for HTML leaves no angle bracket and no double quote in a value, and loses
  nothing: reading the entities back gives the value.
\<close>

theorem escapeHtml_correct:
  "set (escapeHtml s) \<inter> {CHR ''<'', CHR ''>'', CHR 0x22} = {} \<and>
   read_entities (escapeHtml s) = s"
  by (simp add: escapeHtml_safe read_escapeHtml)

text \<open>
  The interceptor removes every password hash of a response body, at every depth, and
  nothing else: along any path that names no password hash the value is the stripped one.
\<close>

theorem strip_correct:
  "''passwordHash'' \<notin> keys_of (strip v) \<and> strip (strip v) = strip v \<and>
   at_path (filter (\<lambda>s. s \<noteq> Key ''passwordHash'') p) (strip v) =
     map_option strip (at_path (filter (\<lambda>s. s \<noteq> Key ''passwordHash'') p) v)"
  by (simp add: strip_keys strip_idem strip_at_path)

end
