(* ===== verification/Email.thy ===== *)
theory Email
  imports Response
begin

text \<open>
  The sending of mails (email.service.ts) and the two mails to coaches
  (password-reset-email.service.ts, coach-invite-email.service.ts).

  The services that carry the mails are outside the program: \<open>ml_answer\<close> gives, for a
  mail handed over, the error it is answered with, or None when it is accepted.  Accepted
  mails are kept in \<open>externals\<close>.  Texts are their bytes in UTF-8.
\<close>

section \<open>Texts\<close>

text \<open>The letters of the Hungarian texts outside ASCII.\<close>

abbreviation a_acute :: string where "a_acute \<equiv> [CHR 0xC3, CHR 0xA1]"
abbreviation e_acute :: string where "e_acute \<equiv> [CHR 0xC3, CHR 0xA9]"
abbreviation i_acute :: string where "i_acute \<equiv> [CHR 0xC3, CHR 0xAD]"
abbreviation o_acute :: string where "o_acute \<equiv> [CHR 0xC3, CHR 0xB3]"
abbreviation o_uml :: string where "o_uml \<equiv> [CHR 0xC3, CHR 0xB6]"
abbreviation o_dacute :: string where "o_dacute \<equiv> [CHR 0xC5, CHR 0x91]"
abbreviation u_acute :: string where "u_acute \<equiv> [CHR 0xC3, CHR 0xBA]"
abbreviation u_uml :: string where "u_uml \<equiv> [CHR 0xC3, CHR 0xBC]"
abbreviation u_dacute :: string where "u_dacute \<equiv> [CHR 0xC5, CHR 0xB1]"
abbreviation U_acute :: string where "U_acute \<equiv> [CHR 0xC3, CHR 0x9A]"
abbreviation em_dash :: string where "em_dash \<equiv> [CHR 0xE2, CHR 0x80, CHR 0x94]"

text \<open>A template literal that begins with a line break: its lines, each after a break.\<close>

definition html_lines :: "string list \<Rightarrow> string" where
  "html_lines ls = concat (map (\<lambda>l. CHR 0x0A # l) ls)"

lemma html_lines_simps:
  "html_lines [] = []" "html_lines (l # ls) = CHR 0x0A # l @ html_lines ls"
  by (simp_all add: html_lines_def)

text \<open>
  \<open>encodeURIComponent\<close>: letters, digits and nine marks stay, every other byte becomes a
  percent sign and two hexadecimal digits.
\<close>

definition uri_unreserved :: "char \<Rightarrow> bool" where
  "uri_unreserved c \<longleftrightarrow> c \<in> set ''ABCDEFGHIJKLMNOPQRSTUVWXYZabcdefghijklmnopqrstuvwxyz0123456789-_.!~*()'' \<or>
     c = CHR 0x27"

definition hex_alphabet :: string where "hex_alphabet = ''0123456789ABCDEF''"

definition hex_char :: "nat \<Rightarrow> char" where
  "hex_char n = hex_alphabet ! n"

definition percent :: "char \<Rightarrow> string" where
  "percent c = [CHR ''%'', hex_char (of_char c div 16), hex_char (of_char c mod 16)]"

definition encodeURIComponent :: "string \<Rightarrow> string" where
  "encodeURIComponent s = concat (map (\<lambda>c. if uri_unreserved c then [c] else percent c) s)"

text \<open>The reading of such a text, as the receiving site does it.\<close>

definition hex_value :: "char \<Rightarrow> nat" where
  "hex_value c = length (takeWhile (\<lambda>d. d \<noteq> c) hex_alphabet)"

fun read_percent :: "string \<Rightarrow> string" where
  "read_percent [] = []"
| "read_percent (c # s) =
    (if c = CHR ''%'' then
       (case s of
          h # l # s' \<Rightarrow> char_of (16 * hex_value h + hex_value l) # read_percent s'
        | _ \<Rightarrow> [])
     else c # read_percent s)"

lemma hex_value_char: "n < 16 \<Longrightarrow> hex_value (hex_char n) = n"
proof -
  assume "n < 16"
  then have "n \<in> set [0..<16]" by simp
  moreover have "\<forall>k \<in> set [0..<16]. hex_value (hex_char k) = k" by code_simp
  ultimately show ?thesis by blast
qed

lemma read_percent_char:
  "read_percent (percent c @ s) = c # read_percent s"
proof -
  have "of_char c div 16 < (16 :: nat)" using nat_of_char_less_256 [of c] by linarith
  moreover have "of_char c mod 16 < (16 :: nat)" by simp
  moreover have "16 * (of_char c div 16) + of_char c mod 16 = (of_char c :: nat)" by simp
  ultimately show ?thesis by (simp add: percent_def hex_value_char)
qed

lemma unreserved_not_percent: "uri_unreserved c \<Longrightarrow> c \<noteq> CHR ''%''"
  by (auto simp: uri_unreserved_def)

lemma encode_cons:
  "encodeURIComponent (c # s) = (if uri_unreserved c then [c] else percent c) @ encodeURIComponent s"
  by (simp add: encodeURIComponent_def)

lemma read_encode: "read_percent (encodeURIComponent s) = s"
proof (induction s)
  case Nil
  then show ?case by (simp add: encodeURIComponent_def)
next
  case (Cons c s)
  then show ?case
    using unreserved_not_percent [of c] read_percent_char [of c "encodeURIComponent s"]
    by (simp add: encode_cons del: read_percent.simps(2)) simp
qed

section \<open>Sending (email.service.ts)\<close>

record deliverInput =
  di_to :: string
  di_subject :: string
  di_html :: string
  di_icsContent :: "string option"
  di_icsFilename :: "string option"
  di_from :: "string option"

record mailer =
  ml_resendApiKey :: "string option"
  ml_answer :: "mail \<Rightarrow> string option"

definition attachment :: "deliverInput \<Rightarrow> (string \<times> string) option" where
  "attachment input =
    (if truthy (di_icsContent input)
     then Some (case di_icsFilename input of None \<Rightarrow> ''booking.ics'' | Some f \<Rightarrow> f,
                the (di_icsContent input))
     else None)"

definition mail_of :: "string option \<Rightarrow> deliverInput \<Rightarrow> mail" where
  "mail_of from_addr input =
    \<lparr> m_from = from_addr, m_to = di_to input, m_subject = di_subject input,
      m_html = di_html input, m_attachment = attachment input \<rparr>"

definition sent :: "mail \<Rightarrow> world \<Rightarrow> world" where
  "sent m w = w\<lparr>externals := externals w @ [MailSent m]\<rparr>"

definition sendViaResend ::
  "mailer \<Rightarrow> string \<Rightarrow> deliverInput \<Rightarrow> world \<Rightarrow> (world, unit) outcome" where
  "sendViaResend ml from_addr input w =
    (if \<not> truthy (ml_resendApiKey ml)
     then (Inl (PlainError (''Settings.emailFrom is set to '' @ [CHR 0x22] @ from_addr @ [CHR 0x22] @
             '' but RESEND_API_KEY is not configured'')), w)
     else let m = mail_of (Some from_addr) input in
       (case ml_answer ml m of
          Some message \<Rightarrow> (Inl (PlainError (''Resend send failed: '' @ message)), w)
        | None \<Rightarrow> (Inr (), sent m w)))"

definition deliver :: "mailer \<Rightarrow> deliverInput \<Rightarrow> world \<Rightarrow> (world, unit) outcome" where
  "deliver ml input w =
    (if truthy (di_from input) then sendViaResend ml (the (di_from input)) input w
     else let m = mail_of None input in
       (case ml_answer ml m of
          Some message \<Rightarrow> (Inl (PlainError message), w)
        | None \<Rightarrow> (Inr (), sent m w)))"

definition sendRaw :: "mailer \<Rightarrow> string \<Rightarrow> string \<Rightarrow> string \<Rightarrow> world \<Rightarrow> (world, unit) outcome" where
  "sendRaw ml to_addr subject html w =
    deliver ml \<lparr> di_to = to_addr, di_subject = subject, di_html = html, di_icsContent = None,
      di_icsFilename = None, di_from = None \<rparr> w"

lemma sent_frame [simp]:
  "coaches (sent m w) = coaches w" "eventTypes (sent m w) = eventTypes w"
  "weeklies (sent m w) = weeklies w" "overrides (sent m w) = overrides w"
  "bookings (sent m w) = bookings w" "settingsRows (sent m w) = settingsRows w"
  "googleIntegrations (sent m w) = googleIntegrations w"
  "allowedOrigins (sent m w) = allowedOrigins w" "jobs (sent m w) = jobs w"
  "externals (sent m w) = externals w @ [MailSent m]"
  "constraints_ok (sent m w) = constraints_ok w"
  by (simp_all add: sent_def)

text \<open>A delivery fails without an effect, or hands over exactly the mail of its input.\<close>

lemma deliver_cases:
  assumes "deliver ml input w = (x, w')"
  obtains (failed) e where "x = Inl (PlainError e)" "w' = w"
    | (handed) from_addr where "x = Inr ()" "w' = sent (mail_of from_addr input) w"
      "from_addr = (if truthy (di_from input) then di_from input else None)"
      "ml_answer ml (mail_of from_addr input) = None"
      "truthy (di_from input) \<Longrightarrow> truthy (ml_resendApiKey ml)"
  using assms
  by (auto simp: deliver_def sendViaResend_def Let_def truthy_def split: if_splits option.splits)

section \<open>The mails to coaches\<close>

definition reset_html :: "string \<Rightarrow> string \<Rightarrow> string" where
  "reset_html resetUrl name =
    html_lines
      [''      <div style=\"font-family: sans-serif; max-width: 480px; margin: 0 auto;\">'',
       ''        <h1 style=\"font-size: 20px;\">Jelsz'' @ o_acute @ '' vissza'' @ a_acute @
         ''ll'' @ i_acute @ ''t'' @ a_acute @ ''sa</h1>'',
       ''        <p>Szia '' @ escapeHtml name @ ''!</p>'',
       ''        <p>'' @ U_acute @ ''j jelsz'' @ o_acute @ ''t k'' @ e_acute @ ''rt'' @
         e_acute @ ''l a fi'' @ o_acute @ ''kodhoz. Az al'' @ a_acute @
         ''bbi linkre kattintva '' @ a_acute @ ''ll'' @ i_acute @ ''thatsz be egy '' @ u_acute @
         ''jat:</p>'',
       ''        <p>'',
       ''          <a href=\"'' @ resetUrl @
         ''\" style=\"display: inline-block; padding: 10px 20px; background: #1a1a1f; color: #fff; text-decoration: none; border-radius: 6px;\">'',
       ''            '' @ U_acute @ ''j jelsz'' @ o_acute @ '' be'' @ a_acute @ ''ll'' @
         i_acute @ ''t'' @ a_acute @ ''sa'',
       ''          </a>'',
       ''        </p>'',
       ''        <p style=\"color: #666; font-size: 13px;\">'',
       ''          Ha a gomb nem m'' @ u_dacute @ ''k'' @ o_uml @ ''dik, m'' @ a_acute @
         ''sold be ezt a linket a b'' @ o_uml @ ''ng'' @ e_acute @ ''sz'' @ o_dacute @ ''dbe: '' @
         resetUrl,
       ''        </p>'',
       ''        <p style=\"color: #666; font-size: 13px;\">A link 1 '' @ o_acute @ ''r'' @
         a_acute @ ''ig '' @ e_acute @ ''rv'' @ e_acute @ ''nyes. Ha nem te k'' @ e_acute @
         ''rted, nyugodtan hagyd figyelmen k'' @ i_acute @ ''v'' @ u_uml @
         ''l ezt az emailt.</p>'',
       ''      </div>'',
       ''    '']"

definition reset_url :: "string \<Rightarrow> string \<Rightarrow> string" where
  "reset_url frontendUrl token = frontendUrl @ ''/reset-password?token='' @ encodeURIComponent token"

definition reset_subject :: string where
  "reset_subject = ''Jelsz'' @ o_acute @ '' vissza'' @ a_acute @ ''ll'' @ i_acute @ ''t'' @ a_acute @ ''sa''"

definition sendReset ::
  "mailer \<Rightarrow> string \<Rightarrow> string \<Rightarrow> string \<Rightarrow> string \<Rightarrow> world \<Rightarrow> (world, unit) outcome" where
  "sendReset ml email name frontendUrl token w =
    sendRaw ml email reset_subject (reset_html (reset_url frontendUrl token) name) w"

definition invite_html :: "string \<Rightarrow> string \<Rightarrow> string" where
  "invite_html acceptUrl name =
    html_lines
      [''      <div style=\"font-family: sans-serif; max-width: 480px; margin: 0 auto;\">'',
       ''        <h1 style=\"font-size: 20px;\">Megh'' @ i_acute @ ''v'' @ o_acute @ ''</h1>'',
       ''        <p>Szia '' @ escapeHtml name @ ''!</p>'',
       ''        <p>L'' @ e_acute @ ''trehoztunk neked egy fi'' @ o_acute @
         ''kot. A jelszavad be'' @ a_acute @ ''ll'' @ i_acute @ ''t'' @ a_acute @ ''s'' @
         a_acute @ ''hoz kattints az al'' @ a_acute @ ''bbi linkre:</p>'',
       ''        <p>'',
       ''          <a href=\"'' @ acceptUrl @
         ''\" style=\"display: inline-block; padding: 10px 20px; background: #1a1a1f; color: #fff; text-decoration: none; border-radius: 6px;\">'',
       ''            Jelsz'' @ o_acute @ '' be'' @ a_acute @ ''ll'' @ i_acute @ ''t'' @
         a_acute @ ''sa'',
       ''          </a>'',
       ''        </p>'',
       ''        <p style=\"color: #666; font-size: 13px;\">'',
       ''          Ha a gomb nem m'' @ u_dacute @ ''k'' @ o_uml @ ''dik, m'' @ a_acute @
         ''sold be ezt a linket a b'' @ o_uml @ ''ng'' @ e_acute @ ''sz'' @ o_dacute @ ''dbe: '' @
         acceptUrl,
       ''        </p>'',
       ''        <p style=\"color: #666; font-size: 13px;\">A link 7 napig '' @ e_acute @
         ''rv'' @ e_acute @ ''nyes.</p>'',
       ''      </div>'',
       ''    '']"

definition accept_url :: "string \<Rightarrow> string \<Rightarrow> string" where
  "accept_url frontendUrl token = frontendUrl @ ''/accept-invite?token='' @ encodeURIComponent token"

definition invite_subject :: string where
  "invite_subject = ''Megh'' @ i_acute @ ''v'' @ o_acute @ '' a fi'' @ o_acute @ ''kod be'' @ a_acute @ ''ll'' @
     i_acute @ ''t'' @ a_acute @ ''s'' @ a_acute @ ''hoz''"

definition sendInvite ::
  "mailer \<Rightarrow> string \<Rightarrow> string \<Rightarrow> string \<Rightarrow> string \<Rightarrow> world \<Rightarrow> (world, unit) outcome" where
  "sendInvite ml email name frontendUrl token w =
    sendRaw ml email invite_subject (invite_html (accept_url frontendUrl token) name) w"

definition reset_mail :: "string \<Rightarrow> string \<Rightarrow> string \<Rightarrow> string \<Rightarrow> mail" where
  "reset_mail email name frontendUrl token =
    \<lparr> m_from = None, m_to = email, m_subject = reset_subject,
      m_html = reset_html (reset_url frontendUrl token) name, m_attachment = None \<rparr>"

definition invite_mail :: "string \<Rightarrow> string \<Rightarrow> string \<Rightarrow> string \<Rightarrow> mail" where
  "invite_mail email name frontendUrl token =
    \<lparr> m_from = None, m_to = email, m_subject = invite_subject,
      m_html = invite_html (accept_url frontendUrl token) name, m_attachment = None \<rparr>"

lemma sendReset_eq:
  "sendReset ml email name frontendUrl token w =
    (let m = reset_mail email name frontendUrl token in
     case ml_answer ml m of Some e \<Rightarrow> (Inl (PlainError e), w) | None \<Rightarrow> (Inr (), sent m w))"
  by (simp add: sendReset_def sendRaw_def deliver_def mail_of_def attachment_def reset_mail_def
      truthy_def)

lemma sendInvite_eq:
  "sendInvite ml email name frontendUrl token w =
    (let m = invite_mail email name frontendUrl token in
     case ml_answer ml m of Some e \<Rightarrow> (Inl (PlainError e), w) | None \<Rightarrow> (Inr (), sent m w))"
  by (simp add: sendInvite_def sendRaw_def deliver_def mail_of_def attachment_def invite_mail_def
      truthy_def)

text \<open>What would end an attribute or an element, or a parameter of a link.\<close>

abbreviation markup :: "char set" where
  "markup \<equiv> {CHR ''<'', CHR ''>'', CHR 0x22}"

lemma set_percent: "set (percent c) \<subseteq> insert (CHR ''%'') (set hex_alphabet)"
proof -
  have hex: "hex_char n \<in> set hex_alphabet" if "n < 16" for n
    unfolding hex_char_def using that by (intro nth_mem) (simp add: hex_alphabet_def)
  then show ?thesis
    using hex [of "of_char c div 16"] hex [of "of_char c mod 16"] nat_of_char_less_256 [of c]
    by (simp add: percent_def less_mult_imp_div_less)
qed

lemma encode_safe:
  "set (encodeURIComponent s) \<inter> (markup \<union> {CHR ''&'', CHR ''#'', CHR ''+'', CHR '' '', CHR ''=''}) = {}"
proof -
  have "insert (CHR ''%'') (set hex_alphabet) \<inter>
      (markup \<union> {CHR ''&'', CHR ''#'', CHR ''+'', CHR '' '', CHR ''=''}) = {}"
    by (simp add: hex_alphabet_def)
  with set_percent have "set (percent c) \<inter> (markup \<union> {CHR ''&'', CHR ''#'', CHR ''+'', CHR '' '', CHR ''=''}) = {}" for c
    by blast
  moreover have "\<not> uri_unreserved c"
    if "c \<in> markup \<union> {CHR ''&'', CHR ''#'', CHR ''+'', CHR '' '', CHR ''=''}" for c
    using that by (auto simp: uri_unreserved_def)
  ultimately show ?thesis
    by (induction s) (auto simp: encodeURIComponent_def split: if_splits)
qed

lemma escape_filter: "filter (\<lambda>c. c \<in> markup) (escapeHtml name) = []"
  using escapeHtml_safe [of name] by (auto simp: filter_empty_conv)

lemma html_filter:
  "filter P (html_lines ls) = concat (map (\<lambda>l. filter P (CHR 0x0A # l)) ls)"
  by (simp add: html_lines_def filter_concat comp_def)

text \<open>
  C38: the link of a reset mail and of an invitation carries the token so that the site reads
  it back unchanged, and nothing in the token can end the parameter or the attribute it
  stands in; the name of the coach, whatever it is, adds no markup to either mail.
\<close>

theorem coach_mails_safe:
  "read_percent (drop (length (site @ ''/reset-password?token='')) (reset_url site token)) = token \<and>
   read_percent (drop (length (site @ ''/accept-invite?token='')) (accept_url site token)) = token \<and>
   set (encodeURIComponent token) \<inter> {CHR ''<'', CHR ''>'', CHR 0x22, CHR ''&'', CHR ''#'', CHR '' ''} = {} \<and>
   filter (\<lambda>c. c \<in> markup) (reset_html url name) = filter (\<lambda>c. c \<in> markup) (reset_html url []) \<and>
   filter (\<lambda>c. c \<in> markup) (invite_html url name) = filter (\<lambda>c. c \<in> markup) (invite_html url [])"
proof (intro conjI)
  show "read_percent (drop (length (site @ ''/reset-password?token='')) (reset_url site token)) = token"
    "read_percent (drop (length (site @ ''/accept-invite?token='')) (accept_url site token)) = token"
    using read_encode [of token] by (simp_all add: reset_url_def accept_url_def)
  show "set (encodeURIComponent token) \<inter> {CHR ''<'', CHR ''>'', CHR 0x22, CHR ''&'', CHR ''#'', CHR '' ''} = {}"
    using encode_safe [of token] by blast
  show "filter (\<lambda>c. c \<in> markup) (reset_html url name) = filter (\<lambda>c. c \<in> markup) (reset_html url [])"
    "filter (\<lambda>c. c \<in> markup) (invite_html url name) = filter (\<lambda>c. c \<in> markup) (invite_html url [])"
    unfolding reset_html_def invite_html_def html_filter
    by (simp_all only: list.map filter_append escape_filter append_Nil filter.simps(2) [of _ "CHR 0x0A"])
qed

end
