(* ===== verification/Auth.thy ===== *)
theory Auth
  imports Tokens Email
begin

text \<open>
  Authentication (auth.service.ts, password.service.ts, jwt-auth.guard.ts, roles.guard.ts and
  the routes of auth.controller.ts): logging in, the password reset, and the guards in front
  of the routes of a coach.  The library that hashes passwords is a parameter.

  Instants are arguments, one per reading of the clock.
\<close>

section \<open>Passwords (password.service.ts)\<close>

record bcrypt =
  bc_hash :: "string \<Rightarrow> nat \<Rightarrow> string \<Rightarrow> string"  \<comment> \<open>password, rounds, the random salt\<close>
  bc_compare :: "string \<Rightarrow> string \<Rightarrow> bool"

definition bcrypt_laws :: "bcrypt \<Rightarrow> bool" where
  "bcrypt_laws b \<longleftrightarrow> (\<forall>p r s. bc_compare b p (bc_hash b p r s))"

definition SALT_ROUNDS :: nat where "SALT_ROUNDS = 12"

record authEnv =
  ae_tokens :: tokenService
  ae_bcrypt :: bcrypt
  ae_mailer :: mailer

definition hashPassword :: "authEnv \<Rightarrow> string \<Rightarrow> string \<Rightarrow> string" where
  "hashPassword env plainText salt = bc_hash (ae_bcrypt env) plainText SALT_ROUNDS salt"

definition comparePassword :: "authEnv \<Rightarrow> string \<Rightarrow> string \<Rightarrow> bool" where
  "comparePassword env plainText hash = bc_compare (ae_bcrypt env) plainText hash"

lemma compare_hash: "bcrypt_laws (ae_bcrypt env) \<Longrightarrow> comparePassword env p (hashPassword env p s)"
  by (simp add: bcrypt_laws_def comparePassword_def hashPassword_def)

section \<open>Logging in and resetting (auth.service.ts)\<close>

definition login ::
  "authEnv \<Rightarrow> int \<Rightarrow> string \<Rightarrow> string \<Rightarrow> world \<Rightarrow> (world, string \<times> coach) outcome" where
  "login env now email password w =
    (case findUnique c_email email (coaches w) of
       None \<Rightarrow> (Inl (Unauthorized (Text ''Invalid email or password'')), w)
     | Some c \<Rightarrow>
         if \<not> comparePassword env password (c_passwordHash c)
         then (Inl (Unauthorized (Text ''Invalid email or password'')), w)
         else (Inr (sign (ae_tokens env) now (access_claims (c_id c) (c_email c) (c_role c) None), c), w))"

definition forgotPassword ::
  "authEnv \<Rightarrow> int \<Rightarrow> string \<Rightarrow> string option \<Rightarrow> world \<Rightarrow> (world, unit) outcome" where
  "forgotPassword env now email requestOrigin w =
    (case findUnique c_email email (coaches w) of
       None \<Rightarrow> (Inr (), w)
     | Some c \<Rightarrow>
         (let frontendUrl = (case c_frontendUrl c of None \<Rightarrow> requestOrigin | Some u \<Rightarrow> Some u) in
          if \<not> truthy frontendUrl then (Inr (), w)
          else sendReset (ae_mailer env) (c_email c) (c_name c) (the frontendUrl)
                 (signPasswordResetToken (ae_tokens env) now (c_id c)) w))"

text \<open>A token issued in second \<open>iat\<close> is older than the last revocation of the sessions.\<close>

definition revoked_before :: "coach \<Rightarrow> int \<Rightarrow> bool" where
  "revoked_before c iat \<longleftrightarrow>
    (case c_sessionsRevokedAt c of None \<Rightarrow> False | Some r \<Rightarrow> iat * 1000 < r)"

text \<open>
  \<open>resetPassword\<close> in its two phases: the check of the token against the row of the coach, and,
  after the password has been hashed, the write.
\<close>

definition reset_check :: "authEnv \<Rightarrow> int \<Rightarrow> string \<Rightarrow> world \<Rightarrow> err + coach" where
  "reset_check env verified_at token w =
    (case verifyPasswordResetToken (ae_tokens env) verified_at token of
       Inl e \<Rightarrow> Inl e
     | Inr (None, _) \<Rightarrow> Inl PrismaValidation
     | Inr (Some coachId, iat) \<Rightarrow>
         (case findUnique c_id coachId (coaches w) of
            None \<Rightarrow> Inl (Unauthorized (Text ''Invalid or expired reset link''))
          | Some c \<Rightarrow>
              if revoked_before c iat
              then Inl (Unauthorized (Text ''This reset link has already been used''))
              else Inr c))"

definition new_password :: "string \<Rightarrow> int \<Rightarrow> coach \<Rightarrow> coach" where
  "new_password hash revokedAt r = r\<lparr>c_passwordHash := hash, c_sessionsRevokedAt := Some revokedAt\<rparr>"

definition reset_write ::
  "authEnv \<Rightarrow> int \<Rightarrow> int \<Rightarrow> string \<Rightarrow> string \<Rightarrow> coach \<Rightarrow> world \<Rightarrow> (world, string \<times> coach) outcome" where
  "reset_write env sessionsRevokedAt signed_at salt newPassword c w =
    andThen (coach_update (c_id c)
      (new_password (hashPassword env newPassword salt) sessionsRevokedAt) w)
      (\<lambda>u w. (Inr (sign (ae_tokens env) signed_at
         (access_claims (c_id u) (c_email u) (c_role u) (Some (sessionsRevokedAt div 1000 + 1))), u), w))"

definition resetPassword ::
  "authEnv \<Rightarrow> int \<Rightarrow> int \<Rightarrow> int \<Rightarrow> string \<Rightarrow> string \<Rightarrow> string \<Rightarrow> world \<Rightarrow> (world, string \<times> coach) outcome" where
  "resetPassword env verified_at sessionsRevokedAt signed_at salt token newPassword w =
    (case reset_check env verified_at token w of
       Inl e \<Rightarrow> (Inl e, w)
     | Inr c \<Rightarrow> reset_write env sessionsRevokedAt signed_at salt newPassword c w)"

text \<open>The route of the forgotten password, which resolves the origin of the request.\<close>

definition auth_forgotPassword ::
  "url_parser \<Rightarrow> authEnv \<Rightarrow> int \<Rightarrow> string \<Rightarrow> string option \<Rightarrow> string option \<Rightarrow> world \<Rightarrow> (world, unit) outcome" where
  "auth_forgotPassword parse env now email origin referer w =
    forgotPassword env now email (resolveRequestOrigin parse origin referer) w"

section \<open>The guards (jwt-auth.guard.ts, roles.guard.ts)\<close>

definition extractToken :: "string option \<Rightarrow> string option" where
  "extractToken authorization =
    (case authorization of
       None \<Rightarrow> None
     | Some h \<Rightarrow> if take 7 h \<noteq> ''Bearer '' then None else Some (drop 7 h))"

text \<open>The guard gives the coach it attaches to the request.\<close>

definition canActivate :: "authEnv \<Rightarrow> int \<Rightarrow> string option \<Rightarrow> world \<Rightarrow> err + coach" where
  "canActivate env now authorization w =
    (let token = extractToken authorization in
     if \<not> truthy token then Inl (Unauthorized (Text ''Missing bearer token''))
     else case verify (ae_tokens env) now (the token) of
       Inl e \<Rightarrow> Inl e
     | Inr p \<Rightarrow>
         (case p_sub p of
            None \<Rightarrow> Inl PrismaValidation
          | Some sub \<Rightarrow>
              (case findUnique c_id sub (coaches w) of
                 None \<Rightarrow> Inl (Unauthorized (Text ''Account no longer exists''))
               | Some c \<Rightarrow>
                   if (case p_iat p of None \<Rightarrow> False | Some iat \<Rightarrow> revoked_before c iat)
                   then Inl (Unauthorized (Text ''Session has been revoked, please log in again''))
                   else Inr c)))"

definition roles_canActivate :: "coachRole list option \<Rightarrow> coach option \<Rightarrow> err + unit" where
  "roles_canActivate requiredRoles requestCoach =
    (case requiredRoles of
       None \<Rightarrow> Inr ()
     | Some roles \<Rightarrow>
         if roles = [] then Inr ()
         else (case requestCoach of
           None \<Rightarrow> Inl (Forbidden (Text ''Insufficient role''))
         | Some c \<Rightarrow>
             if c_role c \<notin> set roles then Inl (Forbidden (Text ''Insufficient role'')) else Inr ()))"

text \<open>The guards in the order the controllers list them.\<close>

definition authorize ::
  "authEnv \<Rightarrow> int \<Rightarrow> coachRole list option \<Rightarrow> string option \<Rightarrow> world \<Rightarrow> err + coach" where
  "authorize env now requiredRoles authorization w =
    (case canActivate env now authorization w of
       Inl e \<Rightarrow> Inl e
     | Inr c \<Rightarrow>
         (case roles_canActivate requiredRoles (Some c) of Inl e \<Rightarrow> Inl e | Inr _ \<Rightarrow> Inr c))"

section \<open>What the guard makes of a signed token\<close>

definition bearer :: "string \<Rightarrow> string option" where
  "bearer token = Some (''Bearer '' @ token)"

text \<open>The answer of the guard to a token of coach \<open>k\<close> issued in second \<open>iat\<close>.\<close>

definition session_answer :: "int \<Rightarrow> int \<Rightarrow> int \<Rightarrow> string \<Rightarrow> world \<Rightarrow> err + coach" where
  "session_answer now ttl iat k w =
    (if iat + ttl \<le> now div 1000 then Inl (Unauthorized (Text ''Invalid or expired token''))
     else case findUnique c_id k (coaches w) of
       None \<Rightarrow> Inl (Unauthorized (Text ''Account no longer exists''))
     | Some c \<Rightarrow>
         if revoked_before c iat
         then Inl (Unauthorized (Text ''Session has been revoked, please log in again''))
         else Inr c)"

lemma guard_signed:
  assumes "jwt_laws (tk_jwt (ae_tokens env))" and "p_exp p = None" and "p_sub p = Some k"
  shows "canActivate env now (bearer (jw_sign (tk_jwt (ae_tokens env)) p
      (tk_jwtSecret (ae_tokens env)) ttl t)) w =
    session_answer now ttl (issued_at p t) k w"
proof -
  have "extractToken (bearer token) = Some token" for token by (simp add: extractToken_def bearer_def)
  then show ?thesis
    using sign_not_empty [OF assms(1,2)] assms(3)
    by (simp add: canActivate_def truthy_def verify_def jwt_verify_sign [OF assms(1,2)] stamped_def
        session_answer_def split: option.split del: findUnique_None)
qed

lemma guard_login:
  assumes "jwt_laws (tk_jwt (ae_tokens env))"
  shows "canActivate env now (bearer (sign (ae_tokens env) t (access_claims k email role iat))) w =
    session_answer now TOKEN_TTL (issued_at (access_claims k email role iat) t) k w"
  unfolding sign_def by (rule guard_signed [OF assms]) (simp_all add: access_claims_def no_claims_def)

lemma issued_access: "issued_at (access_claims k email role None) t = t div 1000"
  by (simp add: issued_at_def access_claims_def no_claims_def)

lemma issued_access_Some: "i \<noteq> 0 \<Longrightarrow> issued_at (access_claims k email role (Some i)) t = i"
  by (simp add: issued_at_def access_claims_def no_claims_def)

lemma login_cases:
  assumes "login env now email password w = (x, w')"
  obtains (refused) "x = Inl (Unauthorized (Text ''Invalid email or password''))" "w' = w"
      "\<And>c. findUnique c_email email (coaches w) = Some c \<Longrightarrow> \<not> comparePassword env password (c_passwordHash c)"
    | (opened) c where "w' = w" "findUnique c_email email (coaches w) = Some c"
      "comparePassword env password (c_passwordHash c)"
      "x = Inr (sign (ae_tokens env) now (access_claims (c_id c) (c_email c) (c_role c) None), c)"
  using assms by (auto simp: login_def split: option.splits if_splits)

lemma reset_check_InrD:
  assumes "reset_check env t token w = Inr c"
  obtains k iat where "verifyPasswordResetToken (ae_tokens env) t token = Inr (Some k, iat)"
    "findUnique c_id k (coaches w) = Some c" "c_id c = k" "\<not> revoked_before c iat"
proof -
  from assms obtain k iat where "verifyPasswordResetToken (ae_tokens env) t token = Inr (Some k, iat)"
    and k: "findUnique c_id k (coaches w) = Some c" and "\<not> revoked_before c iat"
    by (auto simp: reset_check_def split: sum.splits option.splits if_splits)
  with findUnique_key [OF k] that show thesis by blast
qed

lemma new_password_sel [simp]:
  "c_id (new_password h t c) = c_id c" "c_email (new_password h t c) = c_email c"
  "c_role (new_password h t c) = c_role c" "c_name (new_password h t c) = c_name c"
  "c_frontendUrl (new_password h t c) = c_frontendUrl c"
  "c_passwordHash (new_password h t c) = h" "c_sessionsRevokedAt (new_password h t c) = Some t"
  by (simp_all add: new_password_def)

text \<open>The write of a reset always succeeds on a row that is still there.\<close>

lemma reset_write_found:
  assumes "constraints_ok w" and "findUnique c_id (c_id c) (coaches w) = Some r"
  shows "reset_write env t2 t3 salt new c w =
    (let u = new_password (hashPassword env new salt) t2 r in
     (Inr (sign (ae_tokens env) t3
        (access_claims (c_id u) (c_email u) (c_role u) (Some (t2 div 1000 + 1))), u),
      w\<lparr>coaches := updateRow c_id (c_id c) (new_password (hashPassword env new salt) t2) (coaches w)\<rparr>))"
  using coach_update_same [OF assms(1,2), of "new_password (hashPassword env new salt) t2"]
  by (simp add: reset_write_def Let_def)

lemma reset_InrD:
  assumes "resetPassword env t1 t2 t3 salt token new w = (Inr (access, u), w')" and "constraints_ok w"
  obtains k iat c where "verifyPasswordResetToken (ae_tokens env) t1 token = Inr (Some k, iat)"
    "findUnique c_id k (coaches w) = Some c" "\<not> revoked_before c iat"
    "u = new_password (hashPassword env new salt) t2 c"
    "w' = w\<lparr>coaches := updateRow c_id k (new_password (hashPassword env new salt) t2) (coaches w)\<rparr>"
    "access = sign (ae_tokens env) t3
       (access_claims (c_id u) (c_email u) (c_role u) (Some (t2 div 1000 + 1)))"
proof -
  from assms(1) obtain c where c: "reset_check env t1 token w = Inr c"
    and wr: "reset_write env t2 t3 salt new c w = (Inr (access, u), w')"
    by (auto simp: resetPassword_def split: sum.splits)
  from c show thesis
  proof (rule reset_check_InrD)
    fix k iat
    assume k: "verifyPasswordResetToken (ae_tokens env) t1 token = Inr (Some k, iat)"
      "findUnique c_id k (coaches w) = Some c" "c_id c = k" "\<not> revoked_before c iat"
    from k(2,3) have "findUnique c_id (c_id c) (coaches w) = Some c" by simp
    note w = reset_write_found [OF assms(2) this]
    show thesis by (rule that [OF k(1,2,4)]) (use wr w k(3) in \<open>auto simp: Let_def\<close>)
  qed
qed

end
