(* ===== verification/AuthSpecs.thy ===== *)
theory AuthSpecs
  imports Auth
begin

text \<open>
  What authentication promises: which sessions a login, a reset and a revocation open and
  close, what the password reset does and how often its link works, what the guards let
  through, and what the public routes tell about an account.
\<close>

section \<open>Demonstration data\<close>

definition demo_hasher :: bcrypt where
  "demo_hasher = \<lparr> bc_hash = (\<lambda>p r s. p), bc_compare = (\<lambda>p h. p = h) \<rparr>"

definition demo_auth :: authEnv where
  "demo_auth = \<lparr> ae_tokens = demo_tokens, ae_bcrypt = demo_hasher,
     ae_mailer = \<lparr> ml_resendApiKey = None, ml_answer = (\<lambda>m. None) \<rparr> \<rparr>"

definition demo_anna :: coach where
  "demo_anna = \<lparr> c_id = ''c1'', c_email = ''a@b.hu'', c_passwordHash = ''pw'', c_name = ''Anna'',
     c_preferredLocale = ''hu'', c_role = COACH, c_sessionsRevokedAt = None, c_frontendUrl = None \<rparr>"

definition anna_world :: world where
  "anna_world = empty_world\<lparr>coaches := [demo_anna]\<rparr>"

lemma demo_auth_laws:
  "jwt_laws (tk_jwt (ae_tokens demo_auth))" "bcrypt_laws (ae_bcrypt demo_auth)"
  by (simp_all add: demo_auth_def demo_tokens_laws bcrypt_laws_def demo_hasher_def)

lemma anna_world_sel:
  "coaches anna_world = [demo_anna]" "c_id demo_anna = ''c1''" "c_email demo_anna = ''a@b.hu''"
  "c_passwordHash demo_anna = ''pw''" "c_role demo_anna = COACH" "c_sessionsRevokedAt demo_anna = None"
  "c_frontendUrl demo_anna = None" "c_name demo_anna = ''Anna''"
  by (simp_all add: anna_world_def empty_world_def demo_anna_def)

lemma anna_constraints: "constraints_ok anna_world"
  by (simp add: constraints_ok_def anna_world_def empty_world_def sites_unique_def)

lemma demo_compare: "comparePassword demo_auth p h \<longleftrightarrow> p = h"
  by (simp add: comparePassword_def demo_auth_def demo_hasher_def)

section \<open>Sessions\<close>

text \<open>
  C16: a login succeeds exactly for an email and a password that belong together, gives one
  error for both failures and writes nothing; its token opens the session of that coach for
  thirty days, in every later state in which the coach still exists and her sessions have
  not been revoked after the second of the login.
\<close>

theorem login_correct:
  assumes "jwt_laws (tk_jwt (ae_tokens env))" and "login env t email password w = (x, w')"
  shows "w' = w \<and>
    (case x of
       Inl e \<Rightarrow> e = Unauthorized (Text ''Invalid email or password'') \<and>
         (\<forall>c. findUnique c_email email (coaches w) = Some c \<longrightarrow>
            \<not> comparePassword env password (c_passwordHash c))
     | Inr (token, c) \<Rightarrow>
         findUnique c_email email (coaches w) = Some c \<and>
         comparePassword env password (c_passwordHash c) \<and>
         (\<forall>now later. canActivate env now (bearer token) later =
            (if t div 1000 + 2592000 \<le> now div 1000
             then Inl (Unauthorized (Text ''Invalid or expired token''))
             else case findUnique c_id (c_id c) (coaches later) of
               None \<Rightarrow> Inl (Unauthorized (Text ''Account no longer exists''))
             | Some c' \<Rightarrow>
                 if revoked_before c' (t div 1000)
                 then Inl (Unauthorized (Text ''Session has been revoked, please log in again''))
                 else Inr c')))"
  using assms(2)
proof (cases rule: login_cases)
  case refused
  then show ?thesis by simp
next
  case (opened c)
  have "canActivate env now (bearer (sign (ae_tokens env) t
      (access_claims (c_id c) (c_email c) (c_role c) None))) later =
    session_answer now TOKEN_TTL (t div 1000) (c_id c) later" for now later
    by (simp only: guard_login [OF assms(1)] issued_access)
  with opened show ?thesis
    by (simp add: session_answer_def TOKEN_TTL_def)
qed

lemma login_correct_witness:
  "\<exists>token. login demo_auth 5000 ''a@b.hu'' ''pw'' anna_world = (Inr (token, demo_anna), anna_world) \<and>
     canActivate demo_auth 6000 (bearer token) anna_world = Inr demo_anna"
proof -
  obtain token where l: "login demo_auth 5000 ''a@b.hu'' ''pw'' anna_world =
      (Inr (token, demo_anna), anna_world)"
    by (simp add: login_def anna_world_sel demo_compare)
  have "\<forall>now later. canActivate demo_auth now (bearer token) later =
            (if (5000 :: int) div 1000 + 2592000 \<le> now div 1000
             then Inl (Unauthorized (Text ''Invalid or expired token''))
             else case findUnique c_id (c_id demo_anna) (coaches later) of
               None \<Rightarrow> Inl (Unauthorized (Text ''Account no longer exists''))
             | Some c' \<Rightarrow>
                 if revoked_before c' (5000 div 1000)
                 then Inl (Unauthorized (Text ''Session has been revoked, please log in again''))
                 else Inr c')"
    using login_correct [OF demo_auth_laws(1) l] by simp
  then have "canActivate demo_auth 6000 (bearer token) anna_world = Inr demo_anna"
    by (simp add: anna_world_sel revoked_before_def)
  with l show ?thesis by blast
qed

text \<open>
  A coach who logs in right after her sessions were revoked, or right after a reset, is
  locked out with the token she gets: it carries the whole second, which lies before the
  instant of the revocation, although it was issued after it.
\<close>

theorem login_after_revocation:
  assumes "jwt_laws (tk_jwt (ae_tokens env))"
    and "login env t email password w = (Inr (token, c), w')"
    and "findUnique c_id (c_id c) (coaches w) = Some c"
    and "c_sessionsRevokedAt c = Some revoked" "revoked \<le> t" "t div 1000 = revoked div 1000"
      "revoked mod 1000 \<noteq> 0" and "now div 1000 < t div 1000 + 2592000"
  shows "canActivate env now (bearer token) w =
    Inl (Unauthorized (Text ''Session has been revoked, please log in again''))"
proof -
  have "revoked div 1000 * 1000 < revoked"
    using div_mult_mod_eq [of revoked 1000] pos_mod_sign [of 1000 revoked] assms(7) by linarith
  then have "revoked_before c (t div 1000)" using assms(4,6) by (simp add: revoked_before_def)
  moreover from assms(2) have "token = sign (ae_tokens env) t
      (access_claims (c_id c) (c_email c) (c_role c) None)"
    by (cases rule: login_cases) auto
  ultimately show ?thesis
    using assms(3,8)
    by (simp add: guard_login [OF assms(1)] issued_access session_answer_def TOKEN_TTL_def)
qed

definition revoked_world :: world where
  "revoked_world = empty_world\<lparr>coaches := [demo_anna\<lparr>c_sessionsRevokedAt := Some 5500\<rparr>]\<rparr>"

lemma login_after_revocation_witness:
  "\<exists>token c. login demo_auth 5900 ''a@b.hu'' ''pw'' revoked_world = (Inr (token, c), revoked_world) \<and>
     canActivate demo_auth 6000 (bearer token) revoked_world =
       Inl (Unauthorized (Text ''Session has been revoked, please log in again''))"
proof -
  let ?c = "demo_anna\<lparr>c_sessionsRevokedAt := Some 5500\<rparr>"
  obtain token where l: "login demo_auth 5900 ''a@b.hu'' ''pw'' revoked_world =
      (Inr (token, ?c), revoked_world)"
    by (simp add: login_def revoked_world_def empty_world_def anna_world_sel demo_compare)
  have "canActivate demo_auth 6000 (bearer token) revoked_world =
      Inl (Unauthorized (Text ''Session has been revoked, please log in again''))"
    by (rule login_after_revocation [OF demo_auth_laws(1) l, of 5500])
      (simp_all add: revoked_world_def empty_world_def anna_world_sel)
  with l show ?thesis by blast
qed

section \<open>The guards\<close>

text \<open>
  C15: whoever passes the guards of a route carries a token of the service that has not expired
  and names an existing coach, whose sessions were not revoked after it was issued; on a
  route with required roles she has one of them.
\<close>

theorem authorize_sound:
  assumes "authorize env now roles authorization w = Inr c"
  shows "(\<exists>token p. authorization = Some (''Bearer '' @ token) \<and> token \<noteq> [] \<and>
      verify (ae_tokens env) now token = Inr p \<and> p_sub p = Some (c_id c) \<and>
      findUnique c_id (c_id c) (coaches w) = Some c \<and>
      (\<forall>iat. p_iat p = Some iat \<longrightarrow> \<not> revoked_before c iat)) \<and>
    (\<forall>rs. roles = Some rs \<and> rs \<noteq> [] \<longrightarrow> c_role c \<in> set rs)"
proof -
  from assms have g: "canActivate env now authorization w = Inr c"
    and r: "roles_canActivate roles (Some c) = Inr ()"
    by (auto simp: authorize_def split: sum.splits)
  from g obtain token p k where t: "extractToken authorization = Some token" "token \<noteq> []"
    and p: "verify (ae_tokens env) now token = Inr p" "p_sub p = Some k"
    and c: "findUnique c_id k (coaches w) = Some c"
    and v: "\<not> (case p_iat p of None \<Rightarrow> False | Some iat \<Rightarrow> revoked_before c iat)"
    by (auto simp: canActivate_def Let_def truthy_def split: if_splits sum.splits option.splits)
  from t(1) obtain h where "authorization = Some h" "take 7 h = ''Bearer ''" "drop 7 h = token"
    by (auto simp: extractToken_def split: option.splits if_splits)
  then have "authorization = Some (''Bearer '' @ token)" by (metis append_take_drop_id)
  moreover have "\<forall>rs. roles = Some rs \<and> rs \<noteq> [] \<longrightarrow> c_role c \<in> set rs"
    using r by (auto simp: roles_canActivate_def split: if_splits)
  ultimately show ?thesis
    using t p c v findUnique_key [OF c] by auto
qed

lemma authorize_sound_witness:
  "\<exists>token. authorize demo_auth 6000 (Some [COACH]) (bearer token) anna_world = Inr demo_anna \<and>
     c_role demo_anna \<in> set [COACH]"
proof -
  have g: "authorize demo_auth 6000 (Some [COACH])
      (bearer (sign (ae_tokens demo_auth) 5000 (access_claims ''c1'' ''a@b.hu'' COACH None))) anna_world =
      Inr demo_anna"
    by (simp add: authorize_def guard_login [OF demo_auth_laws(1)] issued_access session_answer_def
        TOKEN_TTL_def anna_world_sel revoked_before_def roles_canActivate_def)
  from authorize_sound [OF g] g show ?thesis by auto
qed

text \<open>
  C34: the guard does not look at the purpose of a token.  A reset token opens the full
  session of its coach for an hour, and the state token of the Google connection, which
  travels in the address of a page, for five minutes; the token of an invitation, which
  names no coach, makes the guard fail with a database error.
\<close>

theorem purpose_token_opens_session:
  assumes "jwt_laws (tk_jwt (ae_tokens env))" and "findUnique c_id k (coaches w) = Some c"
    and "\<not> revoked_before c (t div 1000)"
  shows "canActivate env now (bearer (signPasswordResetToken (ae_tokens env) t k)) w =
      (if now div 1000 < t div 1000 + 3600 then Inr c
       else Inl (Unauthorized (Text ''Invalid or expired token''))) \<and>
    canActivate env now (bearer (signGoogleConnectState (ae_tokens env) t k)) w =
      (if now div 1000 < t div 1000 + 300 then Inr c
       else Inl (Unauthorized (Text ''Invalid or expired token''))) \<and>
    canActivate env now (bearer (signCoachInviteToken (ae_tokens env) t i)) w =
      (if now div 1000 < t div 1000 + 604800 then Inl PrismaValidation
       else Inl (Unauthorized (Text ''Invalid or expired token'')))"
proof (intro conjI)
  have i: "issued_at (no_claims\<lparr>p_sub := s, p_purpose := q\<rparr>) t = t div 1000" for s q
    by (simp add: issued_at_def no_claims_def)
  have b: "extractToken (bearer token) = Some token" for token by (simp add: extractToken_def bearer_def)
  show "canActivate env now (bearer (signPasswordResetToken (ae_tokens env) t k)) w =
      (if now div 1000 < t div 1000 + 3600 then Inr c
       else Inl (Unauthorized (Text ''Invalid or expired token'')))"
    using assms(2,3) unfolding signPasswordResetToken_def
    by (subst guard_signed [OF assms(1)])
      (simp_all add: i session_answer_def lifetimes, simp_all add: no_claims_def)
  show "canActivate env now (bearer (signGoogleConnectState (ae_tokens env) t k)) w =
      (if now div 1000 < t div 1000 + 300 then Inr c
       else Inl (Unauthorized (Text ''Invalid or expired token'')))"
    using assms(2,3) unfolding signGoogleConnectState_def
    by (subst guard_signed [OF assms(1)])
      (simp_all add: i session_answer_def lifetimes, simp_all add: no_claims_def)
  show "canActivate env now (bearer (signCoachInviteToken (ae_tokens env) t i)) w =
      (if now div 1000 < t div 1000 + 604800 then Inl PrismaValidation
       else Inl (Unauthorized (Text ''Invalid or expired token'')))"
    by (simp add: canActivate_def b truthy_def signCoachInviteToken_def verify_def no_claims_def
        sign_not_empty [OF assms(1)] jwt_verify_sign [OF assms(1)] stamped_def issued_at_def lifetimes)
qed

lemma purpose_token_opens_session_witness:
  "canActivate demo_auth 6000 (bearer (signPasswordResetToken demo_tokens 5000 ''c1'')) anna_world =
     Inr demo_anna"
proof -
  have "findUnique c_id ''c1'' (coaches anna_world) = Some demo_anna" by (simp add: anna_world_sel)
  moreover have "\<not> revoked_before demo_anna (5000 div 1000)" by (simp add: revoked_before_def anna_world_sel)
  moreover have "ae_tokens demo_auth = demo_tokens" by (simp add: demo_auth_def)
  ultimately show ?thesis
    using purpose_token_opens_session [OF demo_auth_laws(1), of "''c1''" anna_world demo_anna 5000 6000]
    by simp
qed

section \<open>The password reset\<close>

lemma findUnique_email:
  assumes "constraints_ok w" and "findUnique c_id k (coaches w) = Some u"
  shows "findUnique c_email (c_email u) (coaches w) = Some u"
  by (rule findUnique_distinct [OF _ findUnique_in [OF assms(2)]])
    (use assms(1) in \<open>simp add: constraints_ok_def\<close>)

lemma new_password_update:
  fixes h :: string and t :: int
  assumes "constraints_ok w" and "findUnique c_id k (coaches w) = Some c"
  defines "w' \<equiv> w\<lparr>coaches := updateRow c_id k (new_password h t) (coaches w)\<rparr>"
  shows "constraints_ok w'" and "findUnique c_id k (coaches w') = Some (new_password h t c)"
    and "k' \<noteq> k \<Longrightarrow> findUnique c_id k' (coaches w') = findUnique c_id k' (coaches w)"
proof -
  have "coach_update k (new_password h t) w = (Inr (new_password h t c), w')"
    unfolding w'_def by (rule coach_update_same [OF assms(1,2)]) simp_all
  from coach_update_ok [OF assms(1) this] show "constraints_ok w'" by simp
  show "findUnique c_id k (coaches w') = Some (new_password h t c)"
    by (simp add: w'_def findUnique_updateRow assms(2))
  show "k' \<noteq> k \<Longrightarrow> findUnique c_id k' (coaches w') = findUnique c_id k' (coaches w)"
    by (simp add: w'_def findUnique_updateRow)
qed

text \<open>
  C14: a reset with the link mailed to a coach changes her row and nothing else; she can log in
  with the new password, and the token she gets opens her session for thirty days.  Every
  session opened before the reset is closed, and the link does not work a second time.
\<close>

theorem resetPassword_correct:
  assumes j: "jwt_laws (tk_jwt (ae_tokens env))" and b: "bcrypt_laws (ae_bcrypt env)"
    and w: "constraints_ok w" and t: "t0 < t2" "0 \<le> t2"
    and token: "token = signPasswordResetToken (ae_tokens env) t0 k"
    and r: "resetPassword env t1 t2 t3 salt token new w = (Inr (access, u), w')"
  shows "\<exists>c. findUnique c_id k (coaches w) = Some c \<and>
    u = new_password (hashPassword env new salt) t2 c \<and>
    w' = w\<lparr>coaches := coaches w'\<rparr> \<and> findUnique c_id k (coaches w') = Some u \<and>
    (\<forall>k'. k' \<noteq> k \<longrightarrow> findUnique c_id k' (coaches w') = findUnique c_id k' (coaches w)) \<and>
    (\<forall>s. \<exists>a. login env s (c_email c) new w' = (Inr (a, u), w')) \<and>
    (\<forall>now. now div 1000 < t2 div 1000 + 2592001 \<longrightarrow> canActivate env now (bearer access) w' = Inr u) \<and>
    (\<forall>s email role now. s < t2 \<longrightarrow>
       (\<exists>why. canActivate env now (bearer (sign (ae_tokens env) s (access_claims k email role None))) w' =
          Inl (Unauthorized why))) \<and>
    (\<forall>s1 s2 s3 salt' new'. \<exists>why.
       resetPassword env s1 s2 s3 salt' token new' w' = (Inl (Unauthorized why), w'))"
  using r w
proof (rule reset_InrD)
  fix k1 iat c
  let ?h = "hashPassword env new salt"
  assume v: "verifyPasswordResetToken (ae_tokens env) t1 token = Inr (Some k1, iat)"
    and c1: "findUnique c_id k1 (coaches w) = Some c" and u: "u = new_password ?h t2 c"
    and w': "w' = w\<lparr>coaches := updateRow c_id k1 (new_password ?h t2) (coaches w)\<rparr>"
    and access: "access = sign (ae_tokens env) t3
       (access_claims (c_id u) (c_email u) (c_role u) (Some (t2 div 1000 + 1)))"
  have k: "k1 = k" using v by (auto simp: token verifyPasswordReset_sign [OF j] split: if_splits)
  note c = c1 [unfolded k]
  note up = new_password_update [OF w c, where h = ?h and t = t2, folded w' [unfolded k]]
  have old: "s div 1000 * 1000 < t2" if "s < t2" for s
    using that div_mult_mod_eq [of s 1000] pos_mod_sign [of 1000 s] by linarith
  have id: "c_id c = k" by (rule findUnique_key [OF c])
  have "c_email u = c_email c" by (simp add: u)
  then have l: "\<exists>a. login env s (c_email c) new w' = (Inr (a, u), w')" for s
    using findUnique_email [OF up(1,2)] compare_hash [OF b, of new salt]
    by (simp add: login_def u)
  have open': "canActivate env now (bearer access) w' = Inr u"
    if "now div 1000 < t2 div 1000 + 2592001" for now
  proof -
    have "t2 div 1000 + 1 \<noteq> 0" using t(2) by (simp add: pos_imp_zdiv_nonneg_iff)
    moreover have "\<not> revoked_before u (t2 div 1000 + 1)"
      using div_mult_mod_eq [of t2 1000] pos_mod_bound [of 1000 t2] by (simp add: revoked_before_def u)
    ultimately show ?thesis
      using that up(2) by (simp add: access guard_login [OF j] issued_access_Some session_answer_def
          TOKEN_TTL_def u id)
  qed
  have closed': "\<exists>why. canActivate env now (bearer (sign (ae_tokens env) s
      (access_claims k email role None))) w' = Inl (Unauthorized why)" if "s < t2" for s email role now
    using up(2) old [OF that]
    by (simp add: guard_login [OF j] issued_access session_answer_def revoked_before_def u)
  have used: "\<exists>why. resetPassword env s1 s2 s3 salt' token new' w' = (Inl (Unauthorized why), w')"
    for s1 s2 s3 salt' new'
    using up(2) old [OF t(1)]
    by (simp add: resetPassword_def reset_check_def token verifyPasswordReset_sign [OF j]
        revoked_before_def)
  have "w' = w\<lparr>coaches := coaches w'\<rparr>" by (simp add: w')
  with c u up(2,3) l open' closed' used show ?thesis unfolding u by blast
qed

lemma demo_reset:
  "\<exists>access u w'. resetPassword demo_auth 60000 60300 60300 [] (signPasswordResetToken demo_tokens 5000 ''c1'')
     ''new'' anna_world = (Inr (access, u), w')"
proof -
  have "ae_tokens demo_auth = demo_tokens" by (simp add: demo_auth_def)
  then have "verifyPasswordResetToken demo_tokens 60000 (signPasswordResetToken demo_tokens 5000 ''c1'') =
      Inr (Some ''c1'', 5)"
    using verifyPasswordReset_sign [OF demo_tokens_laws, of 60000 5000 "''c1''"]
    by (simp add: PASSWORD_RESET_TTL_def)
  then have "reset_check demo_auth 60000 (signPasswordResetToken demo_tokens 5000 ''c1'') anna_world =
      Inr demo_anna"
    by (simp add: reset_check_def demo_auth_def anna_world_sel revoked_before_def)
  then show ?thesis
    using reset_write_found [OF anna_constraints, of demo_anna demo_anna]
    by (simp add: resetPassword_def Let_def anna_world_sel)
qed

lemma resetPassword_correct_witness:
  "\<exists>w' u. findUnique c_id ''c1'' (coaches w') = Some u \<and> c_passwordHash u = ''new'' \<and>
     (\<exists>a. login demo_auth 70000 ''a@b.hu'' ''new'' w' = (Inr (a, u), w')) \<and>
     (\<exists>why. canActivate demo_auth 70000 (bearer (sign demo_tokens 5000
        (access_claims ''c1'' ''a@b.hu'' COACH None))) w' = Inl (Unauthorized why))"
proof -
  from demo_reset obtain access u w' where r: "resetPassword demo_auth 60000 60300 60300 []
      (signPasswordResetToken demo_tokens 5000 ''c1'') ''new'' anna_world = (Inr (access, u), w')" by blast
  have s: "signPasswordResetToken demo_tokens 5000 ''c1'' =
      signPasswordResetToken (ae_tokens demo_auth) 5000 ''c1''" and d: "ae_tokens demo_auth = demo_tokens"
    by (simp_all add: demo_auth_def)
  have h: "hashPassword demo_auth ''new'' [] = ''new''"
    by (simp add: hashPassword_def demo_auth_def demo_hasher_def)
  have a: "findUnique c_id ''c1'' (coaches anna_world) = Some demo_anna" by (simp add: anna_world_sel)
  from resetPassword_correct [OF demo_auth_laws anna_constraints _ _ s r]
  obtain c where f: "findUnique c_id ''c1'' (coaches anna_world) = Some c"
    and u: "u = new_password (hashPassword demo_auth ''new'' []) 60300 c"
    and m: "findUnique c_id ''c1'' (coaches w') = Some u"
    and l: "\<forall>s. \<exists>a. login demo_auth s (c_email c) ''new'' w' = (Inr (a, u), w')"
    and o: "\<forall>s email role now. s < 60300 \<longrightarrow>
       (\<exists>why. canActivate demo_auth now (bearer (sign (ae_tokens demo_auth) s
          (access_claims ''c1'' email role None))) w' = Inl (Unauthorized why))"
    by (auto simp del: findUnique_None)
  from f a have c: "c = demo_anna" by simp
  have "\<exists>a. login demo_auth 70000 ''a@b.hu'' ''new'' w' = (Inr (a, u), w')"
    using l unfolding c anna_world_sel by blast
  moreover have "\<exists>why. canActivate demo_auth 70000 (bearer (sign demo_tokens 5000
      (access_claims ''c1'' ''a@b.hu'' COACH None))) w' = Inl (Unauthorized why)"
    using o [rule_format, of 5000] unfolding d by simp
  moreover have "c_passwordHash u = ''new''" by (simp add: u h)
  ultimately show ?thesis using m by blast
qed

text \<open>
  Two requests with the same reset link that are both checked before either writes both
  succeed, and the second password stands: the check and the write are not one transaction,
  so the link is not single-use under concurrent requests.
\<close>

theorem reset_link_raced:
  assumes "constraints_ok w" and "reset_check env t token w = Inr c"
    and "reset_check env t' token w = Inr c"
  shows "\<exists>a1 u1 w1 a2 u2 w2. reset_write env t2 t3 salt new c w = (Inr (a1, u1), w1) \<and>
    reset_write env t2' t3' salt' new' c w1 = (Inr (a2, u2), w2) \<and>
    c_id u2 = c_id c \<and> c_passwordHash u2 = hashPassword env new' salt' \<and>
    findUnique c_id (c_id c) (coaches w2) = Some u2"
proof -
  from assms(2) have c: "findUnique c_id (c_id c) (coaches w) = Some c"
    by (auto elim: reset_check_InrD)
  note up = new_password_update [OF assms(1) c, where h = "hashPassword env new salt" and t = t2]
  show ?thesis
    using new_password_update(2) [OF up(1,2), where h = "hashPassword env new' salt'" and t = t2']
    by (simp add: reset_write_found [OF assms(1) c] reset_write_found [OF up(1,2)] Let_def)
qed

lemma reset_link_raced_witness:
  "\<exists>token a1 u1 w1 a2 u2 w2. reset_write demo_auth 60300 60300 [] ''new'' demo_anna anna_world = (Inr (a1, u1), w1) \<and>
    reset_write demo_auth 60400 60400 [] ''evil'' demo_anna w1 = (Inr (a2, u2), w2) \<and>
    reset_check demo_auth 60000 token anna_world = Inr demo_anna \<and> c_passwordHash u2 = ''evil''"
proof -
  have "ae_tokens demo_auth = demo_tokens" by (simp add: demo_auth_def)
  then have c: "reset_check demo_auth 60000 (signPasswordResetToken demo_tokens 5000 ''c1'') anna_world =
      Inr demo_anna"
    using verifyPasswordReset_sign [OF demo_tokens_laws, of 60000 5000 "''c1''"]
    by (simp add: PASSWORD_RESET_TTL_def reset_check_def anna_world_sel revoked_before_def)
  have h: "hashPassword demo_auth ''evil'' [] = ''evil''"
    by (simp add: hashPassword_def demo_auth_def demo_hasher_def)
  from reset_link_raced [OF anna_constraints c c, of 60300 60300 "[]" "''new''" 60400 60400 "[]" "''evil''"]
  show ?thesis using c unfolding h by blast
qed

section \<open>The forgotten password\<close>



text \<open>
  When the mail service refuses the mail, the public route answers with a server error for
  the address of a coach and as usual for any other address, which tells them apart.
\<close>

theorem forgotPassword_reveals:
  assumes "\<forall>m. ml_answer (ae_mailer env) m = Some why"
    and "findUnique c_email email (coaches w) = Some c" "truthy (c_frontendUrl c)"
    and "other \<notin> c_email ` set (coaches w)"
  shows "forgotPassword env now email origin w = (Inl (PlainError why), w) \<and>
    http_status (PlainError why) = 500 \<and> forgotPassword env now other origin w = (Inr (), w)"
proof (intro conjI)
  from assms(4) have "findUnique c_email other (coaches w) = None" by simp
  then show "forgotPassword env now other origin w = (Inr (), w)"
    by (simp add: forgotPassword_def del: findUnique_None)
  from assms(3) obtain u where "c_frontendUrl c = Some u" by (auto simp: truthy_def)
  with assms(1-3) show "forgotPassword env now email origin w = (Inl (PlainError why), w)"
    by (simp add: forgotPassword_def sendReset_eq Let_def)
qed (simp add: http_status_def prismaFilter_def)

lemma forgotPassword_reveals_witness:
  "fst (forgotPassword (demo_auth\<lparr>ae_mailer := \<lparr> ml_resendApiKey = None, ml_answer = (\<lambda>m. Some ''quota'') \<rparr>\<rparr>)
     5000 ''a@b.hu'' None (anna_world\<lparr>coaches := [demo_anna\<lparr>c_frontendUrl := Some ''https://a.hu''\<rparr>]\<rparr>)) =
   Inl (PlainError ''quota'')"
proof -
  let ?env = "demo_auth\<lparr>ae_mailer := \<lparr> ml_resendApiKey = None, ml_answer = (\<lambda>m. Some ''quota'') \<rparr>\<rparr>"
  let ?c = "demo_anna\<lparr>c_frontendUrl := Some ''https://a.hu''\<rparr>"
  have "\<forall>m. ml_answer (ae_mailer ?env) m = Some ''quota''" by simp
  moreover have "findUnique c_email ''a@b.hu'' (coaches (anna_world\<lparr>coaches := [?c]\<rparr>)) = Some ?c"
    by (simp add: anna_world_sel)
  moreover have "truthy (c_frontendUrl ?c)" by (simp add: truthy_def)
  moreover have "''x'' \<notin> c_email ` set (coaches (anna_world\<lparr>coaches := [?c]\<rparr>))" by (simp add: anna_world_sel)
  ultimately show ?thesis
    using forgotPassword_reveals [of ?env "''quota''" "''a@b.hu''" "anna_world\<lparr>coaches := [?c]\<rparr>" ?c "''x''" 5000 None]
    by simp
qed

end
