(* ===== verification/Coaches.thy ===== *)
theory Coaches
  imports AuthSpecs
begin

text \<open>
  The accounts of the coaches (coaches.service.ts): listing, the update of one's own profile,
  the invitation of a coach to a site and its acceptance, the assignment of a site, the
  revocation of sessions and the change of the password.
\<close>

section \<open>Requests\<close>

record inviteCoachDto =
  ic_email :: string
  ic_name :: string
  ic_frontendUrl :: string

record updateCoachDto =
  uc_name :: "string patch"
  uc_preferredLocale :: "string patch"

section \<open>Operations\<close>

text \<open>The order of names is the collation of the database, here a rank.\<close>

definition findAllCoaches :: "(string \<Rightarrow> nat) \<Rightarrow> world \<Rightarrow> coach list" where
  "findAllCoaches collate w = sort_key (\<lambda>c. collate (c_name c)) (findMany (\<lambda>_. True) (coaches w))"

definition updateCoach :: "string \<Rightarrow> updateCoachDto \<Rightarrow> world \<Rightarrow> (world, coach) outcome" where
  "updateCoach coachId dto w =
    (if uc_name dto = Null \<or> uc_preferredLocale dto = Null then (Inl PrismaValidation, w)
     else coach_update coachId
       (\<lambda>c. c\<lparr>c_name := patched (uc_name dto) (c_name c),
              c_preferredLocale := patched (uc_preferredLocale dto) (c_preferredLocale c)\<rparr>) w)"

definition invite :: "authEnv \<Rightarrow> int \<Rightarrow> inviteCoachDto \<Rightarrow> world \<Rightarrow> (world, unit) outcome" where
  "invite env now dto w =
    (if findUnique c_email (ic_email dto) (coaches w) \<noteq> None
     then (Inl (Conflict (Text ''A coach with that email already exists'')), w)
     else if findUnique ao_origin (ic_frontendUrl dto) (allowedOrigins w) = None
     then (Inl (NotFound (Text ''That site is not an allowed origin'')), w)
     else if findUnique c_frontendUrl (Some (ic_frontendUrl dto)) (coaches w) \<noteq> None
     then (Inl (Conflict (Text ''This site already has a coach assigned'')), w)
     else sendInvite (ae_mailer env) (ic_email dto) (ic_name dto) (ic_frontendUrl dto)
       (signCoachInviteToken (ae_tokens env) now
          \<lparr> ci_email = Some (ic_email dto), ci_name = Some (ic_name dto),
            ci_frontendUrl = Some (ic_frontendUrl dto) \<rparr>) w)"

definition invited_coach :: "string \<Rightarrow> string \<Rightarrow> string \<Rightarrow> string option \<Rightarrow> string \<Rightarrow> coach" where
  "invited_coach new_id email name frontendUrl passwordHash =
    \<lparr> c_id = new_id, c_email = email, c_passwordHash = passwordHash, c_name = name,
      c_preferredLocale = ''hu'', c_role = COACH, c_sessionsRevokedAt = None,
      c_frontendUrl = frontendUrl \<rparr>"

definition acceptInvite ::
  "authEnv \<Rightarrow> int \<Rightarrow> int \<Rightarrow> string \<Rightarrow> string \<Rightarrow> string \<Rightarrow> string \<Rightarrow> world \<Rightarrow> (world, string \<times> coach) outcome" where
  "acceptInvite env verified_at signed_at salt new_id token password w =
    (case verifyCoachInviteToken (ae_tokens env) verified_at token of
       Inl e \<Rightarrow> (Inl e, w)
     | Inr i \<Rightarrow>
         (case ci_email i of
            None \<Rightarrow> (Inl PrismaValidation, w)
          | Some email \<Rightarrow>
              if findUnique c_email email (coaches w) \<noteq> None
              then (Inl (Conflict (Text ''This invite has already been used'')), w)
              else (case ci_name i of
                None \<Rightarrow> (Inl PrismaValidation, w)
              | Some name \<Rightarrow>
                  andThen (coach_create (invited_coach new_id email name (ci_frontendUrl i)
                      (hashPassword env password salt)) w)
                    (\<lambda>c w. (Inr (sign (ae_tokens env) signed_at
                       (access_claims (c_id c) (c_email c) (c_role c) None), c), w)))))"

definition setFrontendUrl :: "string \<Rightarrow> string \<Rightarrow> world \<Rightarrow> (world, coach) outcome" where
  "setFrontendUrl coachId frontendUrl w =
    (if findUnique ao_origin frontendUrl (allowedOrigins w) = None
     then (Inl (NotFound (Text ''That site is not an allowed origin'')), w)
     else case findUnique c_frontendUrl (Some frontendUrl) (coaches w) of
       Some coachForSite \<Rightarrow>
         if c_id coachForSite \<noteq> coachId
         then (Inl (Conflict (Text ''This site already has a coach assigned'')), w)
         else coach_update coachId (\<lambda>c. c\<lparr>c_frontendUrl := Some frontendUrl\<rparr>) w
     | None \<Rightarrow> coach_update coachId (\<lambda>c. c\<lparr>c_frontendUrl := Some frontendUrl\<rparr>) w)"

definition revokeSessions :: "int \<Rightarrow> string \<Rightarrow> world \<Rightarrow> (world, coach) outcome" where
  "revokeSessions now coachId w =
    coach_update coachId (\<lambda>c. c\<lparr>c_sessionsRevokedAt := Some now\<rparr>) w"

text \<open>The coach is the row the guard attached to the request.\<close>

definition changePassword ::
  "authEnv \<Rightarrow> string \<Rightarrow> coach \<Rightarrow> string \<Rightarrow> string \<Rightarrow> world \<Rightarrow> (world, unit) outcome" where
  "changePassword env salt coach currentPassword newPassword w =
    (if \<not> comparePassword env currentPassword (c_passwordHash coach)
     then (Inl (Unauthorized (Text ''Current password is incorrect'')), w)
     else andThen (coach_update (c_id coach)
         (\<lambda>c. c\<lparr>c_passwordHash := hashPassword env newPassword salt\<rparr>) w)
       (\<lambda>_ w. (Inr (), w)))"

section \<open>What the operations keep\<close>

lemmas coach_ops =
  updateCoach_def invite_def acceptInvite_def setFrontendUrl_def revokeSessions_def
  changePassword_def

lemma sendInvite_ok: "sendInvite ml e n f t w = (x, w') \<Longrightarrow> constraints_ok w' = constraints_ok w"
  by (auto simp: sendInvite_eq Let_def split: option.splits)

lemma updateCoach_ok:
  "constraints_ok w \<Longrightarrow> updateCoach k dto w = (x, w') \<Longrightarrow> constraints_ok w'"
  by (auto simp: updateCoach_def split: if_splits elim: coach_update_ok)

lemma invite_ok: "constraints_ok w \<Longrightarrow> invite env now dto w = (x, w') \<Longrightarrow> constraints_ok w'"
  by (auto simp: invite_def sendInvite_ok split: if_splits)

lemma acceptInvite_ok:
  "constraints_ok w \<Longrightarrow> acceptInvite env t1 t2 salt i token pw w = (x, w') \<Longrightarrow> constraints_ok w'"
  by (auto simp: acceptInvite_def split: sum.splits option.splits if_splits
      elim!: andThen_cases intro: coach_create_ok)

lemma setFrontendUrl_ok:
  "constraints_ok w \<Longrightarrow> setFrontendUrl k url w = (x, w') \<Longrightarrow> constraints_ok w'"
  by (auto simp: setFrontendUrl_def split: option.splits if_splits elim: coach_update_ok)

lemma revokeSessions_ok:
  "constraints_ok w \<Longrightarrow> revokeSessions now k w = (x, w') \<Longrightarrow> constraints_ok w'"
  by (auto simp: revokeSessions_def elim: coach_update_ok)

lemma changePassword_ok:
  "constraints_ok w \<Longrightarrow> changePassword env salt c old new w = (x, w') \<Longrightarrow> constraints_ok w'"
  by (auto simp: changePassword_def split: if_splits elim!: andThen_cases intro: coach_update_ok)

lemma acceptInvite_InrD:
  assumes "acceptInvite env t1 t2 salt new_id token password w = (Inr (access, c), w')"
  obtains i email name where "verifyCoachInviteToken (ae_tokens env) t1 token = Inr i"
    "ci_email i = Some email" "ci_name i = Some name" "email \<notin> c_email ` set (coaches w)"
    "c = invited_coach new_id email name (ci_frontendUrl i) (hashPassword env password salt)"
    "coach_create c w = (Inr c, w')" "w' = w\<lparr>coaches := createRow c (coaches w)\<rparr>"
    "access = sign (ae_tokens env) t2 (access_claims (c_id c) (c_email c) (c_role c) None)"
  using assms
  by (auto simp: acceptInvite_def coach_create_def elim!: andThen_InrD
      split: sum.splits option.splits if_splits)

section \<open>Properties\<close>

lemma coach_created_found:
  assumes "coach_create c w = (Inr c', w')"
  shows "c' = c \<and> w' = w\<lparr>coaches := createRow c (coaches w)\<rparr> \<and>
    (\<forall>d \<in> set (coaches w). c_id d \<noteq> c_id c \<and> \<not> coach_clash d c) \<and>
    findUnique c_id (c_id c) (coaches w') = Some c \<and> findUnique c_email (c_email c) (coaches w') = Some c"
proof -
  from assms have w': "c' = c" "w' = w\<lparr>coaches := createRow c (coaches w)\<rparr>"
    and n: "\<forall>d \<in> set (coaches w). c_id d \<noteq> c_id c \<and> \<not> coach_clash d c"
    by (auto simp: coach_create_def split: if_splits)
  from n have "findUnique c_id (c_id c) (coaches w) = None" "findUnique c_email (c_email c) (coaches w) = None"
    by (auto simp: coach_clash_def)
  then show ?thesis using w' n by (simp add: findUnique_createRow del: findUnique_None)
qed

text \<open>
  C22: an invitation that is accepted within seven days creates exactly one coach, with the
  invited email, name and site, the chosen password and no more than the role of a coach;
  she can log in, her token opens her session, and the same invitation is refused from then
  on, whatever state the system reaches that still has her account.
\<close>

theorem accepted_invite:
  assumes j: "jwt_laws (tk_jwt (ae_tokens env))" and b: "bcrypt_laws (ae_bcrypt env)"
    and a: "acceptInvite env t1 t2 salt new_id
      (signCoachInviteToken (ae_tokens env) t0 \<lparr> ci_email = Some email, ci_name = Some name,
         ci_frontendUrl = Some site \<rparr>) password w = (Inr (access, c), w')"
  shows "t1 div 1000 < t0 div 1000 + 604800 \<and> email \<notin> c_email ` set (coaches w) \<and>
    Some site \<notin> c_frontendUrl ` set (coaches w) \<and>
    w' = w\<lparr>coaches := coaches w @ [c]\<rparr> \<and>
    c_email c = email \<and> c_name c = name \<and> c_frontendUrl c = Some site \<and> c_role c = COACH \<and>
    (\<forall>s. \<exists>token. login env s email password w' = (Inr (token, c), w')) \<and>
    (\<forall>now. now div 1000 < t2 div 1000 + 2592000 \<longrightarrow> canActivate env now (bearer access) w' = Inr c) \<and>
    (\<forall>later s1 s2 salt' i' pw'. email \<in> c_email ` set (coaches later) \<and>
       s1 div 1000 < t0 div 1000 + 604800 \<longrightarrow>
       acceptInvite env s1 s2 salt' i' (signCoachInviteToken (ae_tokens env) t0
         \<lparr> ci_email = Some email, ci_name = Some name, ci_frontendUrl = Some site \<rparr>) pw' later =
       (Inl (Conflict (Text ''This invite has already been used'')), later))"
  using a
proof (rule acceptInvite_InrD)
  fix i email1 name1
  assume v: "verifyCoachInviteToken (ae_tokens env) t1 (signCoachInviteToken (ae_tokens env) t0
      \<lparr> ci_email = Some email, ci_name = Some name, ci_frontendUrl = Some site \<rparr>) = Inr i"
    and e: "ci_email i = Some email1" "ci_name i = Some name1" "email1 \<notin> c_email ` set (coaches w)"
    and c: "c = invited_coach new_id email1 name1 (ci_frontendUrl i) (hashPassword env password salt)"
    and cr: "coach_create c w = (Inr c, w')"
    and access: "access = sign (ae_tokens env) t2 (access_claims (c_id c) (c_email c) (c_role c) None)"
  from v have i: "i = \<lparr> ci_email = Some email, ci_name = Some name, ci_frontendUrl = Some site \<rparr>"
    and t: "t1 div 1000 < t0 div 1000 + 604800"
    by (auto simp: verifyCoachInvite_sign [OF j] COACH_INVITE_TTL_def split: if_splits)
  have sel: "c_email c = email" "c_name c = name" "c_frontendUrl c = Some site" "c_role c = COACH"
    "c_sessionsRevokedAt c = None" "c_passwordHash c = hashPassword env password salt"
    using i e(1,2) by (simp_all add: c invited_coach_def)
  note f = coach_created_found [OF cr]
  have site: "Some site \<notin> c_frontendUrl ` set (coaches w)"
  proof
    assume "Some site \<in> c_frontendUrl ` set (coaches w)"
    then obtain d where "d \<in> set (coaches w)" "c_frontendUrl d = Some site" by force
    with f sel(3) show False by (auto simp: coach_clash_def)
  qed
  from f have fi: "findUnique c_id (c_id c) (coaches w') = Some c" by blast
  from f have "findUnique c_email (c_email c) (coaches w') = Some c" by blast
  then have fe: "findUnique c_email email (coaches w') = Some c" by (simp only: sel(1))
  have l: "\<exists>token. login env s email password w' = (Inr (token, c), w')" for s
    using fe sel compare_hash [OF b, of password salt] by (simp add: login_def)
  have g: "canActivate env now (bearer access) w' = Inr c"
    if "now div 1000 < t2 div 1000 + 2592000" for now
    using fi that by (simp add: access guard_login [OF j] issued_access session_answer_def
        TOKEN_TTL_def revoked_before_def sel)
  have again: "acceptInvite env s1 s2 salt' i' (signCoachInviteToken (ae_tokens env) t0
         \<lparr> ci_email = Some email, ci_name = Some name, ci_frontendUrl = Some site \<rparr>) pw' later =
       (Inl (Conflict (Text ''This invite has already been used'')), later)"
    if "email \<in> c_email ` set (coaches later)" "s1 div 1000 < t0 div 1000 + 604800"
    for later s1 s2 salt' i' pw'
    using that by (simp add: acceptInvite_def verifyCoachInvite_sign [OF j] COACH_INVITE_TTL_def)
  show ?thesis
    using t e(1,3) i site f sel(1-4) l g again by (simp add: createRow_def)
qed

lemma accepted_invite_witness:
  "\<exists>access c w'. acceptInvite demo_auth 6000 6000 [] ''c2''
     (signCoachInviteToken demo_tokens 5000 \<lparr> ci_email = Some ''z@b.hu'', ci_name = Some ''Zoe'',
        ci_frontendUrl = Some ''https://z.hu'' \<rparr>) ''pass'' anna_world = (Inr (access, c), w') \<and>
     c_role c = COACH \<and> length (coaches w') = 2"
proof -
  let ?i = "\<lparr> ci_email = Some ''z@b.hu'', ci_name = Some ''Zoe'', ci_frontendUrl = Some ''https://z.hu'' \<rparr>"
  have d: "ae_tokens demo_auth = demo_tokens" by (simp add: demo_auth_def)
  have "verifyCoachInviteToken demo_tokens 6000 (signCoachInviteToken demo_tokens 5000 ?i) = Inr ?i"
    using verifyCoachInvite_sign [OF demo_tokens_laws, of 6000 5000 ?i] by (simp add: COACH_INVITE_TTL_def)
  then obtain access c w' where a: "acceptInvite demo_auth 6000 6000 [] ''c2''
      (signCoachInviteToken (ae_tokens demo_auth) 5000 ?i) ''pass'' anna_world = (Inr (access, c), w')"
    by (simp add: acceptInvite_def d anna_world_sel coach_create_def coach_clash_def invited_coach_def)
  from accepted_invite [OF demo_auth_laws a] have "c_role c = COACH"
    "w' = anna_world\<lparr>coaches := coaches anna_world @ [c]\<rparr>" by blast+
  then have "c_role c = COACH \<and> length (coaches w') = 2" by (simp add: anna_world_sel)
  with a d show ?thesis by metis
qed

text \<open>
  C36: an invitation goes out only for an address without an account and to a site that is
  allowed and belongs to no coach; it writes nothing but the mail, whose link carries a
  token that, within seven days and as long as the address and the site stay free, is
  accepted and creates that coach.
\<close>

theorem invite_correct:
  assumes j: "jwt_laws (tk_jwt (ae_tokens env))"
    and "invite env now dto w = (Inr (), w')"
  shows "ic_email dto \<notin> c_email ` set (coaches w) \<and>
    ic_frontendUrl dto \<in> ao_origin ` set (allowedOrigins w) \<and>
    Some (ic_frontendUrl dto) \<notin> c_frontendUrl ` set (coaches w) \<and>
    (\<exists>token. w' = sent (invite_mail (ic_email dto) (ic_name dto) (ic_frontendUrl dto) token) w \<and>
      (\<forall>later t1 t2 salt new_id password.
         t1 div 1000 < now div 1000 + 604800 \<and> ic_email dto \<notin> c_email ` set (coaches later) \<and>
         Some (ic_frontendUrl dto) \<notin> c_frontendUrl ` set (coaches later) \<and>
         new_id \<notin> c_id ` set (coaches later) \<longrightarrow>
         (\<exists>access c. acceptInvite env t1 t2 salt new_id token password later =
            (Inr (access, c), later\<lparr>coaches := coaches later @ [c]\<rparr>) \<and>
            c = invited_coach new_id (ic_email dto) (ic_name dto) (Some (ic_frontendUrl dto))
              (hashPassword env password salt))))"
proof -
  let ?i = "\<lparr> ci_email = Some (ic_email dto), ci_name = Some (ic_name dto),
    ci_frontendUrl = Some (ic_frontendUrl dto) \<rparr>"
  let ?token = "signCoachInviteToken (ae_tokens env) now ?i"
  from assms(2) have g: "ic_email dto \<notin> c_email ` set (coaches w)"
    "ic_frontendUrl dto \<in> ao_origin ` set (allowedOrigins w)"
    "Some (ic_frontendUrl dto) \<notin> c_frontendUrl ` set (coaches w)"
    and m: "w' = sent (invite_mail (ic_email dto) (ic_name dto) (ic_frontendUrl dto) ?token) w"
    by (auto simp: invite_def sendInvite_eq Let_def dest: findUnique_Some split: if_splits option.splits)
  have acc: "\<exists>access c. acceptInvite env t1 t2 salt new_id ?token password later =
        (Inr (access, c), later\<lparr>coaches := coaches later @ [c]\<rparr>) \<and>
        c = invited_coach new_id (ic_email dto) (ic_name dto) (Some (ic_frontendUrl dto))
          (hashPassword env password salt)"
    if t: "t1 div 1000 < now div 1000 + 604800" and e: "ic_email dto \<notin> c_email ` set (coaches later)"
      and s: "Some (ic_frontendUrl dto) \<notin> c_frontendUrl ` set (coaches later)"
      and n: "new_id \<notin> c_id ` set (coaches later)" for later t1 t2 salt new_id password
  proof -
    let ?c = "invited_coach new_id (ic_email dto) (ic_name dto) (Some (ic_frontendUrl dto))
          (hashPassword env password salt)"
    have "\<not> (\<exists>d \<in> set (coaches later). c_id d = c_id ?c \<or> coach_clash d ?c)"
      using e s n by (auto simp: coach_clash_def invited_coach_def image_iff)
    then have "coach_create ?c later = (Inr ?c, later\<lparr>coaches := coaches later @ [?c]\<rparr>)"
      by (simp add: coach_create_def createRow_def)
    then show ?thesis
      using t e by (simp add: acceptInvite_def verifyCoachInvite_sign [OF j] COACH_INVITE_TTL_def)
  qed
  show ?thesis using g m acc by blast
qed

lemma invite_correct_witness:
  "\<exists>token. fst (acceptInvite demo_auth 6000 6000 [] ''c2'' token ''pass'' anna_world) \<noteq>
     Inl (Conflict (Text ''This invite has already been used'')) \<and>
   invite demo_auth 5000 \<lparr> ic_email = ''z@b.hu'', ic_name = ''Zoe'', ic_frontendUrl = ''https://z.hu'' \<rparr>
     (anna_world\<lparr>allowedOrigins := [\<lparr> ao_id = ''o1'', ao_origin = ''https://z.hu'', ao_label = None,
        ao_createdAt = 0 \<rparr>]\<rparr>) =
     (Inr (), sent (invite_mail ''z@b.hu'' ''Zoe'' ''https://z.hu'' token)
       (anna_world\<lparr>allowedOrigins := [\<lparr> ao_id = ''o1'', ao_origin = ''https://z.hu'', ao_label = None,
        ao_createdAt = 0 \<rparr>]\<rparr>))"
proof -
  let ?dto = "\<lparr> ic_email = ''z@b.hu'', ic_name = ''Zoe'', ic_frontendUrl = ''https://z.hu'' \<rparr>"
  let ?w = "anna_world\<lparr>allowedOrigins := [\<lparr> ao_id = ''o1'', ao_origin = ''https://z.hu'', ao_label = None,
        ao_createdAt = 0 \<rparr>]\<rparr>"
  have "ml_answer (ae_mailer demo_auth) m = None" for m by (simp add: demo_auth_def)
  then have i: "invite demo_auth 5000 ?dto ?w = (Inr (), snd (invite demo_auth 5000 ?dto ?w))"
    by (simp add: invite_def anna_world_sel sendInvite_eq Let_def)
  from invite_correct [OF demo_auth_laws(1) i] obtain token where
    s: "snd (invite demo_auth 5000 ?dto ?w) = sent (invite_mail ''z@b.hu'' ''Zoe'' ''https://z.hu'' token) ?w"
    and acc: "\<forall>later t1 t2 salt new_id password.
         t1 div 1000 < (5000 :: int) div 1000 + 604800 \<and> ic_email ?dto \<notin> c_email ` set (coaches later) \<and>
         Some (ic_frontendUrl ?dto) \<notin> c_frontendUrl ` set (coaches later) \<and>
         new_id \<notin> c_id ` set (coaches later) \<longrightarrow>
         (\<exists>access c. acceptInvite demo_auth t1 t2 salt new_id token password later =
            (Inr (access, c), later\<lparr>coaches := coaches later @ [c]\<rparr>) \<and>
            c = invited_coach new_id (ic_email ?dto) (ic_name ?dto) (Some (ic_frontendUrl ?dto))
              (hashPassword demo_auth password salt))" by auto
  have "\<exists>access c. acceptInvite demo_auth 6000 6000 [] ''c2'' token ''pass'' anna_world =
      (Inr (access, c), anna_world\<lparr>coaches := coaches anna_world @ [c]\<rparr>)"
    using acc [rule_format, of 6000 anna_world "''c2''" 6000 "[]" "''pass''"] by (auto simp: anna_world_sel)
  with i s show ?thesis by (intro exI [of _ token]) auto
qed

lemma site_update:
  assumes "constraints_ok w" and "\<not> (\<exists>d \<in> set (coaches w). c_frontendUrl d = Some site \<and> c_id d \<noteq> k)"
  shows "coach_update k (\<lambda>c. c\<lparr>c_frontendUrl := Some site\<rparr>) w = (case findUnique c_id k (coaches w) of
       None \<Rightarrow> (Inl P2025, w)
     | Some c \<Rightarrow> (Inr (c\<lparr>c_frontendUrl := Some site\<rparr>),
         w\<lparr>coaches := updateRow c_id k (\<lambda>c. c\<lparr>c_frontendUrl := Some site\<rparr>) (coaches w)\<rparr>))"
proof (cases "findUnique c_id k (coaches w)")
  case (Some c)
  have "\<not> coach_clash d (c\<lparr>c_frontendUrl := Some site\<rparr>)" if "d \<in> set (coaches w)" "c_id d \<noteq> k" for d
    using coach_no_clash [OF assms(1) that(1) findUnique_in [OF Some]] that findUnique_key [OF Some] assms(2)
    by (auto simp: coach_clash_def)
  with Some show ?thesis by (auto simp: coach_update_def)
qed (simp add: coach_update_def del: findUnique_None)

text \<open>
  Assigning a site succeeds exactly when the site is allowed and no other coach has it
  and the coach exists; it changes the site of that coach only, and assigning the site she
  has again changes nothing.
\<close>

theorem setFrontendUrl_correct:
  assumes "constraints_ok w"
  shows "setFrontendUrl k site w =
    (if site \<notin> ao_origin ` set (allowedOrigins w)
     then (Inl (NotFound (Text ''That site is not an allowed origin'')), w)
     else if \<exists>d \<in> set (coaches w). c_frontendUrl d = Some site \<and> c_id d \<noteq> k
     then (Inl (Conflict (Text ''This site already has a coach assigned'')), w)
     else case findUnique c_id k (coaches w) of
       None \<Rightarrow> (Inl P2025, w)
     | Some c \<Rightarrow> (Inr (c\<lparr>c_frontendUrl := Some site\<rparr>),
         w\<lparr>coaches := updateRow c_id k (\<lambda>c. c\<lparr>c_frontendUrl := Some site\<rparr>) (coaches w)\<rparr>)) \<and>
    (\<forall>c. findUnique c_id k (coaches w) = Some c \<and> c_frontendUrl c = Some site \<longrightarrow>
       snd (setFrontendUrl k site w) = w)"
proof
  let ?f = "\<lambda>c. c\<lparr>c_frontendUrl := Some site\<rparr>"
  have uni: "c_id d = c_id e" if "d \<in> set (coaches w)" "e \<in> set (coaches w)"
    "c_frontendUrl d = Some site" "c_frontendUrl e = Some site" for d e
    using assms that unfolding constraints_ok_def sites_unique_def by (metis option.distinct(1))
  note up = site_update [OF assms]
  show eq: "setFrontendUrl k site w =
    (if site \<notin> ao_origin ` set (allowedOrigins w)
     then (Inl (NotFound (Text ''That site is not an allowed origin'')), w)
     else if \<exists>d \<in> set (coaches w). c_frontendUrl d = Some site \<and> c_id d \<noteq> k
     then (Inl (Conflict (Text ''This site already has a coach assigned'')), w)
     else case findUnique c_id k (coaches w) of
       None \<Rightarrow> (Inl P2025, w)
     | Some c \<Rightarrow> (Inr (?f c), w\<lparr>coaches := updateRow c_id k ?f (coaches w)\<rparr>))"
  proof (cases "findUnique c_frontendUrl (Some site) (coaches w)")
    case None
    then have free: "\<not> (\<exists>d \<in> set (coaches w). c_frontendUrl d = Some site \<and> c_id d \<noteq> k)" by force
    have eqn: "setFrontendUrl k site w =
      (if site \<notin> ao_origin ` set (allowedOrigins w)
       then (Inl (NotFound (Text ''That site is not an allowed origin'')), w)
       else coach_update k ?f w)"
      unfolding setFrontendUrl_def None option.case findUnique_None [symmetric] by (rule refl)
    show ?thesis by (simp only: eqn up [OF free] free if_False)
  next
    case (Some d)
    then have d: "d \<in> set (coaches w)" "c_frontendUrl d = Some site"
      by (auto dest: findUnique_Some)
    then have "(\<exists>d \<in> set (coaches w). c_frontendUrl d = Some site \<and> c_id d \<noteq> k) \<longleftrightarrow> c_id d \<noteq> k"
      using uni by metis
    with up Some show ?thesis by (auto simp: setFrontendUrl_def)
  qed
  show "\<forall>c. findUnique c_id k (coaches w) = Some c \<and> c_frontendUrl c = Some site \<longrightarrow>
       snd (setFrontendUrl k site w) = w"
  proof (intro allI impI)
    fix c assume c: "findUnique c_id k (coaches w) = Some c \<and> c_frontendUrl c = Some site"
    have "distinct (map c_id (coaches w))" using assms by (simp add: constraints_ok_def)
    then have "d = c" if "d \<in> set (coaches w)" "c_id d = k" for d
      using findUnique_distinct [of c_id "coaches w" d] that c by simp
    then have "updateRow c_id k ?f (coaches w) = coaches w"
      using c by (auto simp: updateRow_def intro!: map_idI)
    then show "snd (setFrontendUrl k site w) = w" using c by (simp add: eq)
  qed
qed

lemma setFrontendUrl_correct_witness:
  "setFrontendUrl ''c1'' ''https://x'' anna_world =
     (Inl (NotFound (Text ''That site is not an allowed origin'')), anna_world)"
  using setFrontendUrl_correct [OF anna_constraints, of "''c1''" "''https://x''"]
  by (simp add: anna_world_def empty_world_def)

text \<open>
  Revoking the sessions of a coach closes every session opened in an earlier second, at
  every later time, and touches no other account; logging in again from the next second on
  opens a session as before.
\<close>

theorem revokeSessions_correct:
  assumes j: "jwt_laws (tk_jwt (ae_tokens env))" and w: "constraints_ok w"
    and r: "revokeSessions t k w = (Inr c, w')"
  shows "findUnique c_id k (coaches w') = Some c \<and>
    (\<forall>k'. k' \<noteq> k \<longrightarrow> findUnique c_id k' (coaches w') = findUnique c_id k' (coaches w)) \<and>
    w' = w\<lparr>coaches := coaches w'\<rparr> \<and>
    (\<forall>s email role now. s < t \<longrightarrow>
       (\<exists>why. canActivate env now (bearer (sign (ae_tokens env) s (access_claims k email role None))) w' =
          Inl (Unauthorized why))) \<and>
    (\<forall>s email role now. t div 1000 < s div 1000 \<and> now div 1000 < s div 1000 + 2592000 \<longrightarrow>
       canActivate env now (bearer (sign (ae_tokens env) s (access_claims k email role None))) w' = Inr c)"
proof -
  from r obtain c0 where c0: "findUnique c_id k (coaches w) = Some c0"
    and c: "c = c0\<lparr>c_sessionsRevokedAt := Some t\<rparr>"
    and w': "w' = w\<lparr>coaches := updateRow c_id k (\<lambda>c. c\<lparr>c_sessionsRevokedAt := Some t\<rparr>) (coaches w)\<rparr>"
    unfolding revokeSessions_def by (rule coach_update_InrD)
  have f: "findUnique c_id k (coaches w') = Some c"
    by (simp add: w' c c0 findUnique_updateRow)
  have o: "\<forall>k'. k' \<noteq> k \<longrightarrow> findUnique c_id k' (coaches w') = findUnique c_id k' (coaches w)"
    by (simp add: w' findUnique_updateRow)
  have old: "s div 1000 * 1000 < t" if "s < t" for s
    using that div_mult_mod_eq [of s 1000] pos_mod_sign [of 1000 s] by linarith
  have new: "\<not> s div 1000 * 1000 < t" if "t div 1000 < s div 1000" for s
    using that div_mult_mod_eq [of t 1000] pos_mod_bound [of 1000 t] by linarith
  have "w' = w\<lparr>coaches := coaches w'\<rparr>" by (simp add: w')
  moreover have "\<exists>why. canActivate env now (bearer (sign (ae_tokens env) s (access_claims k email role None))) w' =
      Inl (Unauthorized why)" if "s < t" for s email role now
    using f old [OF that]
    by (simp add: guard_login [OF j] issued_access session_answer_def revoked_before_def c)
  moreover have "canActivate env now (bearer (sign (ae_tokens env) s (access_claims k email role None))) w' =
      Inr c" if "t div 1000 < s div 1000" "now div 1000 < s div 1000 + 2592000" for s email role now
    using f new [OF that(1)] that(2)
    by (simp add: guard_login [OF j] issued_access session_answer_def revoked_before_def c TOKEN_TTL_def)
  ultimately show ?thesis using f o by blast
qed

lemma revokeSessions_correct_witness:
  "\<exists>c w'. revokeSessions 5500 ''c1'' anna_world = (Inr c, w') \<and>
     (\<exists>why. canActivate demo_auth 6000 (bearer (sign demo_tokens 5000
        (access_claims ''c1'' ''a@b.hu'' COACH None))) w' = Inl (Unauthorized why)) \<and>
     canActivate demo_auth 7000 (bearer (sign demo_tokens 6000
        (access_claims ''c1'' ''a@b.hu'' COACH None))) w' = Inr c"
proof -
  have d: "ae_tokens demo_auth = demo_tokens" by (simp add: demo_auth_def)
  obtain c w' where r: "revokeSessions 5500 ''c1'' anna_world = (Inr c, w')"
    by (simp add: revokeSessions_def coach_update_def anna_world_sel)
  from revokeSessions_correct [OF demo_auth_laws(1) anna_constraints r]
  have old: "\<forall>s email role now. s < 5500 \<longrightarrow>
       (\<exists>why. canActivate demo_auth now (bearer (sign demo_tokens s (access_claims ''c1'' email role None))) w' =
          Inl (Unauthorized why))"
    and new: "\<forall>s email role now. 5500 div 1000 < s div 1000 \<and> now div 1000 < s div 1000 + 2592000 \<longrightarrow>
       canActivate demo_auth now (bearer (sign demo_tokens s (access_claims ''c1'' email role None))) w' = Inr c"
    unfolding d by blast+
  from old [rule_format, of 5000] new [rule_format, of 6000 7000] r show ?thesis by auto
qed

end
