(* ===== verification/AllowedOrigins.thy ===== *)
theory AllowedOrigins
  imports Response
begin

text \<open>
  The list of origins that may call the program (allowed-origins.service.ts) with the cache
  each instance keeps of it, and the decision of the CORS handler (main.ts).

  \<open>isAllowed\<close> is the request seen alone.  The step relation \<open>istep\<close> takes one instance
  among several: its loads of the table take time, other instances change the table, and
  its own writes drop the cache while loads may be on their way.
\<close>

section \<open>The cache\<close>

record origins_cache =
  oc_cache :: "string list option"
  oc_cachedAt :: int

definition CACHE_TTL_MS :: int where "CACHE_TTL_MS = 60000"

definition empty_cache :: origins_cache where
  "empty_cache = \<lparr> oc_cache = None, oc_cachedAt = 0 \<rparr>"

definition needs_load :: "int \<Rightarrow> origins_cache \<Rightarrow> bool" where
  "needs_load now oc \<longleftrightarrow> oc_cache oc = None \<or> now - oc_cachedAt oc > CACHE_TTL_MS"

definition stored :: "int \<Rightarrow> string list \<Rightarrow> origins_cache \<Rightarrow> origins_cache" where
  "stored now rows oc = oc\<lparr>oc_cache := Some rows, oc_cachedAt := now\<rparr>"

definition invalidated :: "origins_cache \<Rightarrow> origins_cache" where
  "invalidated oc = oc\<lparr>oc_cache := None\<rparr>"

definition cached_has :: "string \<Rightarrow> origins_cache \<Rightarrow> bool" where
  "cached_has origin oc = (case oc_cache oc of None \<Rightarrow> False | Some os \<Rightarrow> origin \<in> set os)"

section \<open>The operations\<close>

text \<open>The state of an operation is the cache of its instance and the world.\<close>

type_synonym origins_state = "origins_cache \<times> world"

definition origin_rows :: "world \<Rightarrow> string list" where
  "origin_rows w = map ao_origin (findMany (\<lambda>_. True) (allowedOrigins w))"

definition origins_list :: "world \<Rightarrow> allowedOrigin list" where
  "origins_list w = sort_key ao_createdAt (findMany (\<lambda>_. True) (allowedOrigins w))"

definition origins_add ::
  "string \<Rightarrow> int \<Rightarrow> string \<Rightarrow> string option \<Rightarrow> origins_state \<Rightarrow> (origins_state, allowedOrigin) outcome" where
  "origins_add new_id now origin label st =
    (case st of (oc, w) \<Rightarrow>
      if findUnique ao_origin origin (allowedOrigins w) \<noteq> None
      then (Inl (Conflict (Text ''That origin is already allowed'')), (oc, w))
      else (case origin_create \<lparr> ao_id = new_id, ao_origin = origin, ao_label = label,
                ao_createdAt = now \<rparr> w of
        (Inl e, w) \<Rightarrow> (Inl e, (oc, w))
      | (Inr created, w) \<Rightarrow> (Inr created, (invalidated oc, w))))"

definition origins_remove :: "string \<Rightarrow> origins_state \<Rightarrow> (origins_state, unit) outcome" where
  "origins_remove k st =
    (case st of (oc, w) \<Rightarrow>
      (case origin_delete k w of
        (Inl e, w) \<Rightarrow> (Inl e, (oc, w))
      | (Inr _, w) \<Rightarrow> (Inr (), (invalidated oc, w))))"

text \<open>\<open>loaded\<close> is what the query gives when it is made, \<open>after\<close> the clock when it returns.\<close>

definition isAllowed ::
  "int \<Rightarrow> err + string list \<Rightarrow> int \<Rightarrow> string \<Rightarrow> origins_cache \<Rightarrow> (origins_cache, bool) outcome" where
  "isAllowed now loaded after origin oc =
    (if needs_load now oc then
       (case loaded of
          Inl e \<Rightarrow> (Inl e, oc)
        | Inr rows \<Rightarrow>
            (let oc = stored after rows oc in (Inr (cached_has origin oc), oc)))
     else (Inr (cached_has origin oc), oc))"

text \<open>The origin callback of the CORS configuration in main.ts.\<close>

definition corsOrigin ::
  "url_parser \<Rightarrow> int \<Rightarrow> err + string list \<Rightarrow> int \<Rightarrow> string option \<Rightarrow> origins_cache \<Rightarrow>
   (origins_cache, bool) outcome" where
  "corsOrigin parse now loaded after origin oc =
    (if \<not> truthy origin \<or> isLocalhostOrigin parse (the origin) then (Inr True, oc)
     else isAllowed now loaded after (the origin) oc)"

lemma origins_add_ok:
  "constraints_ok w \<Longrightarrow> origins_add i now u l (oc, w) = (x, (oc', w')) \<Longrightarrow> constraints_ok w'"
  by (auto simp: origins_add_def split: if_splits prod.splits sum.splits intro: origin_create_ok)

lemma origins_remove_ok:
  "constraints_ok w \<Longrightarrow> origins_remove k (oc, w) = (x, (oc', w')) \<Longrightarrow> constraints_ok w'"
  by (auto simp: origins_remove_def split: prod.splits sum.splits intro: origin_delete_ok)

lemma set_origin_rows [simp]: "set (origin_rows w) = ao_origin ` set (allowedOrigins w)"
  by (simp add: origin_rows_def)

lemma isAllowed_fresh:
  "isAllowed now (Inr rows) after origin (invalidated oc) =
     (Inr (origin \<in> set rows), stored after rows (invalidated oc))"
  by (simp add: isAllowed_def needs_load_def invalidated_def Let_def cached_has_def stored_def)

text \<open>
  Adding an origin succeeds exactly when the table does not have it, and the next request
  to the same instance is then decided with it, whatever was cached before; removing it
  undoes that, and neither changes the answer for any other origin.
\<close>

theorem origins_add_remove:
  assumes w: "constraints_ok w" and fresh: "new_id \<notin> ao_id ` set (allowedOrigins w)"
  shows "(if origin \<in> ao_origin ` set (allowedOrigins w)
     then origins_add new_id t origin label (oc, w) =
       (Inl (Conflict (Text ''That origin is already allowed'')), (oc, w))
     else \<exists>oc1 w1 w2. origins_add new_id t origin label (oc, w) =
         (Inr \<lparr> ao_id = new_id, ao_origin = origin, ao_label = label, ao_createdAt = t \<rparr>, (oc1, w1)) \<and>
       fst (isAllowed now (Inr (origin_rows w1)) after origin oc1) = Inr True \<and>
       (\<forall>o'. o' \<noteq> origin \<longrightarrow> fst (isAllowed now (Inr (origin_rows w1)) after o' oc1) =
          Inr (o' \<in> set (origin_rows w))) \<and>
       origins_remove new_id (oc1, w1) = (Inr (), (invalidated oc1, w2)) \<and>
       (\<forall>o'. fst (isAllowed now (Inr (origin_rows w2)) after o' (invalidated oc1)) =
          Inr (o' \<in> set (origin_rows w))) \<and>
       w2 = w)"
proof (cases "origin \<in> ao_origin ` set (allowedOrigins w)")
  case True
  then have "findUnique ao_origin origin (allowedOrigins w) \<noteq> None" by simp
  then show ?thesis using True by (simp only: origins_add_def prod.case if_True not_False_eq_True)
next
  case False
  let ?a = "\<lparr> ao_id = new_id, ao_origin = origin, ao_label = label, ao_createdAt = t \<rparr>"
  let ?w1 = "w\<lparr>allowedOrigins := createRow ?a (allowedOrigins w)\<rparr>"
  have "\<not> (\<exists>a' \<in> set (allowedOrigins w). ao_id a' = ao_id ?a \<or> ao_origin a' = ao_origin ?a)"
    using False fresh by (auto simp: image_iff)
  then have add: "origins_add new_id t origin label (oc, w) = (Inr ?a, (invalidated oc, ?w1))"
    using False by (simp add: origins_add_def origin_create_def)
  have "filter (\<lambda>r. ao_id r \<noteq> new_id) (allowedOrigins w) = allowedOrigins w"
    using fresh by (auto intro!: filter_True)
  then have "deleteRow ao_id new_id (createRow ?a (allowedOrigins w)) = allowedOrigins w"
    by (simp add: deleteRow_def createRow_def)
  moreover have "findUnique ao_id new_id (allowedOrigins w) = None" using fresh by simp
  ultimately have rem: "origins_remove new_id (invalidated oc, ?w1) = (Inr (), (invalidated (invalidated oc), w))"
    by (simp add: origins_remove_def origin_delete_def findUnique_createRow del: findUnique_None)
  show ?thesis
    using False by (auto simp: add rem isAllowed_fresh)
qed

definition no_origins :: world where "no_origins = empty_world"

lemma origins_add_remove_witness:
  "\<exists>oc w. origins_add ''o1'' 5 ''https://a.hu'' None (empty_cache, no_origins) =
     (Inr \<lparr> ao_id = ''o1'', ao_origin = ''https://a.hu'', ao_label = None, ao_createdAt = 5 \<rparr>, (oc, w)) \<and>
     fst (isAllowed 6 (Inr (origin_rows w)) 7 ''https://a.hu'' oc) = Inr True"
proof -
  have "constraints_ok no_origins" by (simp add: no_origins_def constraints_empty)
  moreover have "''o1'' \<notin> ao_id ` set (allowedOrigins no_origins)"
    by (simp add: no_origins_def empty_world_def)
  ultimately show ?thesis
    using origins_add_remove [of no_origins "''o1''" "''https://a.hu''" 5 None empty_cache 6 7]
    by (simp add: no_origins_def empty_world_def) blast
qed

section \<open>One instance among several\<close>

text \<open>
  \<open>db\<close> is the list in the table as it evolves, whoever writes it; a load takes at most \<open>D\<close>
  milliseconds from its query.  \<open>in_flight\<close> are the loads on their way, with the time of
  their query and what it gave.
\<close>

record instance_state =
  in_cache :: origins_cache
  in_now :: int
  in_flight :: "(int \<times> string list) list"

definition started :: "int \<Rightarrow> instance_state" where
  "started t = \<lparr> in_cache = empty_cache, in_now = t, in_flight = [] \<rparr>"

text \<open>A step answers a request for an origin, or none.\<close>

inductive istep ::
  "(int \<Rightarrow> string list) \<Rightarrow> int \<Rightarrow> instance_state \<Rightarrow> (string \<times> bool) option \<Rightarrow> instance_state \<Rightarrow> bool"
  for db D where
  tick: "0 \<le> d \<Longrightarrow> \<forall>(q, rows) \<in> set (in_flight s). in_now s + d \<le> q + D \<Longrightarrow>
    istep db D s None (s\<lparr>in_now := in_now s + d\<rparr>)"
| hit: "\<not> needs_load (in_now s) (in_cache s) \<Longrightarrow>
    istep db D s (Some (origin, cached_has origin (in_cache s))) s"
| miss: "needs_load (in_now s) (in_cache s) \<Longrightarrow>
    istep db D s None (s\<lparr>in_flight := (in_now s, db (in_now s)) # in_flight s\<rparr>)"
| load: "(q, rows) \<in> set (in_flight s) \<Longrightarrow> oc = stored (in_now s) rows (in_cache s) \<Longrightarrow>
    istep db D s (Some (origin, cached_has origin oc))
      (s\<lparr>in_cache := oc, in_flight := remove1 (q, rows) (in_flight s)\<rparr>)"
| own_write: "istep db D s None (s\<lparr>in_cache := invalidated (in_cache s)\<rparr>)"

inductive irun ::
  "(int \<Rightarrow> string list) \<Rightarrow> int \<Rightarrow> instance_state \<Rightarrow> (int \<times> string \<times> bool) list \<Rightarrow> instance_state \<Rightarrow> bool"
  for db D s0 where
  start: "irun db D s0 [] s0"
| step: "irun db D s0 as s \<Longrightarrow> istep db D s a s' \<Longrightarrow>
    irun db D s0 (as @ (case a of None \<Rightarrow> [] | Some (origin, b) \<Rightarrow> [(in_now s, origin, b)])) s'"

inductive_cases istep_answer: "istep db D s (Some (origin, b)) s'"

text \<open>What an instance holds was read from the table not long ago.\<close>

definition recent :: "(int \<Rightarrow> string list) \<Rightarrow> int \<Rightarrow> instance_state \<Rightarrow> bool" where
  "recent db D s \<longleftrightarrow>
    (\<forall>(q, rows) \<in> set (in_flight s). rows = db q \<and> q \<le> in_now s \<and> in_now s \<le> q + D) \<and>
    (\<forall>rows. oc_cache (in_cache s) = Some rows \<longrightarrow>
       (\<exists>q. rows = db q \<and> q \<le> oc_cachedAt (in_cache s) \<and> oc_cachedAt (in_cache s) \<le> q + D \<and>
          oc_cachedAt (in_cache s) \<le> in_now s))"

lemma recent_started: "recent db D (started t)"
  by (simp add: recent_def started_def empty_cache_def)

lemma recent_istep:
  assumes "istep db D s a s'" and "recent db D s" and "0 \<le> D"
  shows "recent db D s'"
  using assms
proof (cases rule: istep.cases)
  case (tick d)
  with assms(2) show ?thesis unfolding recent_def by fastforce
next
  case (load q rows oc origin)
  have "\<forall>x \<in> set (remove1 (q, rows) (in_flight s)). x \<in> set (in_flight s)"
    by (meson notin_set_remove1)
  with load assms(2) show ?thesis by (fastforce simp: recent_def stored_def)
qed (use assms(2,3) in \<open>auto simp: recent_def invalidated_def\<close>)

lemma recent_irun: "irun db D (started t) as s \<Longrightarrow> 0 \<le> D \<Longrightarrow> recent db D s"
  by (induction rule: irun.induct) (auto simp: recent_started intro: recent_istep)

lemma recent_answer:
  assumes "recent db D s" and "istep db D s (Some (origin, b)) s'"
  shows "\<exists>q. q \<le> in_now s \<and> in_now s \<le> q + CACHE_TTL_MS + D \<and> b = (origin \<in> set (db q))"
  using assms(2)
proof (rule istep_answer)
  assume b: "b = cached_has origin (in_cache s)" and n: "\<not> needs_load (in_now s) (in_cache s)"
  then obtain rows where r: "oc_cache (in_cache s) = Some rows"
    "in_now s \<le> oc_cachedAt (in_cache s) + CACHE_TTL_MS" by (auto simp: needs_load_def)
  with assms(1) obtain q where "rows = db q" "q \<le> oc_cachedAt (in_cache s)"
    "oc_cachedAt (in_cache s) \<le> q + D" "oc_cachedAt (in_cache s) \<le> in_now s"
    by (auto simp: recent_def)
  with r b show ?thesis by (intro exI [of _ q]) (simp add: cached_has_def)
next
  fix q rows
  assume b: "b = cached_has origin (stored (in_now s) rows (in_cache s))"
    and m: "(q, rows) \<in> set (in_flight s)"
  with assms(1) have "rows = db q" "q \<le> in_now s" "in_now s \<le> q + D" by (auto simp: recent_def)
  with b show ?thesis by (intro exI [of _ q]) (simp add: cached_has_def stored_def CACHE_TTL_MS_def)
qed

text \<open>
  C37: whatever the other instances write and however requests overlap, an instance answers
  every request as the table stood at most a minute, plus the time a load takes, before the
  answer.
\<close>

theorem answers_recent:
  assumes "irun db D (started t0) answers s" and "0 \<le> D" and "(t, origin, b) \<in> set answers"
  shows "\<exists>q. q \<le> t \<and> t \<le> q + 60000 + D \<and> b = (origin \<in> set (db q))"
  using assms
proof (induction rule: irun.induct)
  case (step as s a s')
  show ?case
  proof (cases "(t, origin, b) \<in> set as")
    case False
    with step.prems have "a = Some (origin, b)" "t = in_now s"
      by (auto split: option.splits)
    with recent_answer [OF recent_irun [OF step.hyps(1) step.prems(1)]] step.hyps(2) show ?thesis
      by (simp add: CACHE_TTL_MS_def)
  qed (use step in simp)
qed simp

text \<open>A site that is removed at time 10 by the instance itself, with a load on its way.\<close>

definition removed_at_10 :: "int \<Rightarrow> string list" where
  "removed_at_10 t = (if t < 10 then [''https://a.hu''] else [])"

lemma removed_run:
  "irun removed_at_10 100 (started 5) [(20, ''https://a.hu'', True)]
    \<lparr> in_cache = \<lparr> oc_cache = Some [''https://a.hu''], oc_cachedAt = 20 \<rparr>, in_now = 20, in_flight = [] \<rparr>"
  "irun removed_at_10 100 (started 5) [(20, ''https://a.hu'', True), (60020, ''https://a.hu'', True)]
    \<lparr> in_cache = \<lparr> oc_cache = Some [''https://a.hu''], oc_cachedAt = 20 \<rparr>, in_now = 60020, in_flight = [] \<rparr>"
proof -
  let ?r = "[''https://a.hu'']"
  let ?s = "\<lambda>oc t f. \<lparr> in_cache = oc, in_now = t, in_flight = f \<rparr>"
  let ?oc = "\<lparr> oc_cache = Some ?r, oc_cachedAt = 20 \<rparr>"
  note st = irun.step [of removed_at_10 100 "started 5"]
  have "istep removed_at_10 100 (started 5) None (?s empty_cache 5 [(5, ?r)])"
    using istep.miss [of "started 5" removed_at_10 100]
    by (simp add: started_def needs_load_def empty_cache_def removed_at_10_def)
  from st [OF irun.start this]
  have r1: "irun removed_at_10 100 (started 5) [] (?s empty_cache 5 [(5, ?r)])" by simp
  have "istep removed_at_10 100 (?s empty_cache 5 [(5, ?r)]) None (?s empty_cache 10 [(5, ?r)])"
    using istep.tick [of 5 "?s empty_cache 5 [(5, ?r)]" 100 removed_at_10] by simp
  from st [OF r1 this]
  have r2: "irun removed_at_10 100 (started 5) [] (?s empty_cache 10 [(5, ?r)])" by simp
  have "istep removed_at_10 100 (?s empty_cache 10 [(5, ?r)]) None (?s empty_cache 10 [(5, ?r)])"
    using istep.own_write [of removed_at_10 100 "?s empty_cache 10 [(5, ?r)]"]
    by (simp add: invalidated_def empty_cache_def)
  from st [OF r2 this]
  have r3: "irun removed_at_10 100 (started 5) [] (?s empty_cache 10 [(5, ?r)])" by simp
  have "istep removed_at_10 100 (?s empty_cache 10 [(5, ?r)]) None (?s empty_cache 20 [(5, ?r)])"
    using istep.tick [of 10 "?s empty_cache 10 [(5, ?r)]" 100 removed_at_10] by simp
  from st [OF r3 this]
  have r4: "irun removed_at_10 100 (started 5) [] (?s empty_cache 20 [(5, ?r)])" by simp
  have "istep removed_at_10 100 (?s empty_cache 20 [(5, ?r)]) (Some (''https://a.hu'', True)) (?s ?oc 20 [])"
    using istep.load [of 5 ?r "?s empty_cache 20 [(5, ?r)]" _ removed_at_10 100 "''https://a.hu''"]
    by (simp add: stored_def empty_cache_def cached_has_def)
  from st [OF r4 this]
  show r5: "irun removed_at_10 100 (started 5) [(20, ''https://a.hu'', True)] (?s ?oc 20 [])" by simp
  have "istep removed_at_10 100 (?s ?oc 20 []) None (?s ?oc 60020 [])"
    using istep.tick [of 60000 "?s ?oc 20 []" 100 removed_at_10] by simp
  from st [OF r5 this]
  have r6: "irun removed_at_10 100 (started 5) [(20, ''https://a.hu'', True)] (?s ?oc 60020 [])" by simp
  have "istep removed_at_10 100 (?s ?oc 60020 []) (Some (''https://a.hu'', True)) (?s ?oc 60020 [])"
    using istep.hit [of "?s ?oc 60020 []" removed_at_10 100 "''https://a.hu''"]
    by (simp add: needs_load_def CACHE_TTL_MS_def cached_has_def)
  from st [OF r6 this]
  show "irun removed_at_10 100 (started 5) [(20, ''https://a.hu'', True), (60020, ''https://a.hu'', True)]
      (?s ?oc 60020 [])" by simp
qed

lemma answers_recent_witness:
  "\<exists>q. q \<le> 60020 \<and> (60020 :: int) \<le> q + 60000 + 100 \<and> True = (''https://a.hu'' \<in> set (removed_at_10 q))"
  using answers_recent [OF removed_run(2), of 60020 "''https://a.hu''" True] by simp

text \<open>
  The cache is not dropped for good when an origin is removed: a load that was on its way
  stores the old list again afterwards, and the instance that removed the origin goes on
  allowing it for a minute.
\<close>

theorem removed_origin_allowed:
  "\<exists>s. irun removed_at_10 100 (started 5)
      [(20, ''https://a.hu'', True), (60020, ''https://a.hu'', True)] s \<and>
    {t. ''https://a.hu'' \<in> set (removed_at_10 t)} = {..< 10}"
  using removed_run(2) by (auto simp: removed_at_10_def)

end
