(* ===== verification/EventTypes.thy ===== *)
theory EventTypes
  imports Common "HOL-Library.Multiset"
begin

text \<open>
  The services a coach offers (event-types.service.ts): the public catalogue and the coach's
  own list, creation at the end of the order, updates, archiving, permanent deletion, and
  the atomic reordering.  The order of titles is the collation of the database, a rank here.

  The three operations on one row interpret \<open>guarded_op\<close>.
\<close>

section \<open>Requests\<close>

record createEventTypeDto =
  ce_title :: string
  ce_description :: "string option"
  ce_durationMinutes :: int
  ce_locations :: "locationType list"
  ce_price :: "int option"
  ce_position :: "int option"

record updateEventTypeDto =
  ue_title :: "string patch"
  ue_description :: "string patch"
  ue_durationMinutes :: "int patch"
  ue_locations :: "locationType list patch"
  ue_price :: "int patch"
  ue_position :: "int patch"
  ue_isActive :: "bool patch"

text \<open>The bounds of the request validation.\<close>

definition valid_create_event_type :: "createEventTypeDto \<Rightarrow> bool" where
  "valid_create_event_type dto \<longleftrightarrow>
    ce_title dto \<noteq> [] \<and> 5 \<le> ce_durationMinutes dto \<and> ce_durationMinutes dto \<le> 24 * 60 \<and>
    ce_locations dto \<noteq> [] \<and> distinct (ce_locations dto) \<and>
    (case ce_price dto of None \<Rightarrow> True | Some p \<Rightarrow> 0 \<le> p) \<and>
    (case ce_position dto of None \<Rightarrow> True | Some p \<Rightarrow> 0 \<le> p)"

fun patch_ok :: "('a \<Rightarrow> bool) \<Rightarrow> 'a patch \<Rightarrow> bool" where
  "patch_ok P (Val v) = P v"
| "patch_ok P _ = True"

definition valid_update_event_type :: "updateEventTypeDto \<Rightarrow> bool" where
  "valid_update_event_type dto \<longleftrightarrow>
    patch_ok (\<lambda>t. t \<noteq> []) (ue_title dto) \<and>
    patch_ok (\<lambda>d. 5 \<le> d \<and> d \<le> 24 * 60) (ue_durationMinutes dto) \<and>
    patch_ok (\<lambda>l. l \<noteq> [] \<and> distinct l) (ue_locations dto) \<and>
    patch_ok (\<lambda>p. 0 \<le> p) (ue_price dto) \<and> patch_ok (\<lambda>p. 0 \<le> p) (ue_position dto)"

section \<open>Operations\<close>

definition in_order :: "(string \<Rightarrow> nat) \<Rightarrow> eventType list \<Rightarrow> eventType list" where
  "in_order collate es = sort_key et_position (sort_key (\<lambda>e. collate (et_title e)) es)"

definition findActive :: "(string \<Rightarrow> nat) \<Rightarrow> string \<Rightarrow> world \<Rightarrow> eventType list" where
  "findActive collate coachId w =
    in_order collate (findMany (\<lambda>e. et_isActive e \<and> et_coachId e = coachId) (eventTypes w))"

definition findMine :: "(string \<Rightarrow> nat) \<Rightarrow> string \<Rightarrow> world \<Rightarrow> eventType list" where
  "findMine collate coachId w =
    in_order collate (findMany (\<lambda>e. et_coachId e = coachId) (eventTypes w))"

definition max_position :: "int list \<Rightarrow> int option" where
  "max_position ps = (case ps of [] \<Rightarrow> None | p # ps \<Rightarrow> Some (fold max ps p))"

definition nextPosition :: "string \<Rightarrow> world \<Rightarrow> int" where
  "nextPosition coachId w =
    (case max_position (map et_position (findMany (\<lambda>e. et_coachId e = coachId) (eventTypes w))) of
       None \<Rightarrow> -1 | Some p \<Rightarrow> p) + 1"

definition eventTypes_create ::
  "string \<Rightarrow> coach \<Rightarrow> createEventTypeDto \<Rightarrow> world \<Rightarrow> (world, eventType) outcome" where
  "eventTypes_create new_id coach dto w =
    (let position = (case ce_position dto of None \<Rightarrow> nextPosition (c_id coach) w | Some p \<Rightarrow> p) in
     eventType_create
       \<lparr> et_id = new_id, et_coachId = c_id coach, et_title = ce_title dto,
         et_description = ce_description dto, et_durationMinutes = ce_durationMinutes dto,
         et_locations = ce_locations dto, et_price = ce_price dto, et_position = position,
         et_isActive = True \<rparr> w)"

definition eventTypes_assertOwnership :: "coach \<Rightarrow> string \<Rightarrow> world \<Rightarrow> err + eventType" where
  "eventTypes_assertOwnership coach k w =
    assertCoachOwnsOrIsAdmin et_coachId coach (findUnique et_id k (eventTypes w))
      (Text ''Event type not found'')"

definition apply_event_type_dto :: "updateEventTypeDto \<Rightarrow> eventType \<Rightarrow> eventType" where
  "apply_event_type_dto dto e =
    e\<lparr> et_title := patched (ue_title dto) (et_title e),
       et_description := patched_nullable (ue_description dto) (et_description e),
       et_durationMinutes := patched (ue_durationMinutes dto) (et_durationMinutes e),
       et_locations := patched (ue_locations dto) (et_locations e),
       et_price := patched_nullable (ue_price dto) (et_price e),
       et_position := patched (ue_position dto) (et_position e),
       et_isActive := patched (ue_isActive dto) (et_isActive e) \<rparr>"

definition eventTypes_edit ::
  "updateEventTypeDto \<Rightarrow> coach \<Rightarrow> string \<Rightarrow> world \<Rightarrow> (world, eventType) outcome" where
  "eventTypes_edit dto coach k w =
    (case eventTypes_assertOwnership coach k w of
       Inl e \<Rightarrow> (Inl e, w)
     | Inr et \<Rightarrow>
         if ue_title dto = Null \<or> ue_durationMinutes dto = Null \<or> ue_locations dto = Null \<or>
            ue_position dto = Null \<or> ue_isActive dto = Null
         then (Inl PrismaValidation, w)
         else eventType_update (et_id et) (apply_event_type_dto dto) w)"

definition eventTypes_archive :: "coach \<Rightarrow> string \<Rightarrow> world \<Rightarrow> (world, eventType) outcome" where
  "eventTypes_archive coach k w =
    (case eventTypes_assertOwnership coach k w of
       Inl e \<Rightarrow> (Inl e, w)
     | Inr et \<Rightarrow> eventType_update (et_id et) (\<lambda>e. e\<lparr>et_isActive := False\<rparr>) w)"

definition existing_bookings_message :: string where
  "existing_bookings_message =
     ''This service has existing bookings and cannot be permanently deleted -- archive it instead''"

definition eventTypes_remove :: "coach \<Rightarrow> string \<Rightarrow> world \<Rightarrow> (world, unit) outcome" where
  "eventTypes_remove coach k w =
    (case eventTypes_assertOwnership coach k w of
       Inl e \<Rightarrow> (Inl e, w)
     | Inr et \<Rightarrow>
         (case eventType_delete (et_id et) w of
            (Inr _, w) \<Rightarrow> (Inr (), w)
          | (Inl e, w) \<Rightarrow>
              if e = P2003 then (Inl (Conflict (Text existing_bookings_message)), w) else (Inl e, w)))"

text \<open>The updates of the transaction, in the order of the ids.\<close>

fun reorder_updates :: "int \<Rightarrow> string list \<Rightarrow> world \<Rightarrow> (world, unit) outcome" where
  "reorder_updates index [] w = (Inr (), w)"
| "reorder_updates index (k # ks) w =
    andThen (eventType_update k (\<lambda>e. e\<lparr>et_position := index\<rparr>) w)
      (\<lambda>_. reorder_updates (index + 1) ks)"

definition not_yours_message :: string where
  "not_yours_message = ''One or more event types were not found or are not yours''"

definition reorder :: "coach \<Rightarrow> string list \<Rightarrow> world \<Rightarrow> (world, unit) outcome" where
  "reorder coach ids w =
    (let owned = findMany (\<lambda>e. et_id e \<in> set ids \<and> et_coachId e = c_id coach) (eventTypes w) in
     if length owned \<noteq> length ids then (Inl (BadRequest (Text not_yours_message)), w)
     else transaction False (reorder_updates 0 ids) w)"

section \<open>Ownership and constraints\<close>

lemmas event_type_ops =
  eventTypes_edit_def eventTypes_archive_def eventTypes_remove_def eventTypes_assertOwnership_def

lemma apply_event_type_sel [simp]:
  "et_id (apply_event_type_dto dto e) = et_id e"
  "et_coachId (apply_event_type_dto dto e) = et_coachId e"
  by (simp_all add: apply_event_type_dto_def)

lemma owned_event_type:
  "eventTypes_assertOwnership coach k w = Inr e \<Longrightarrow> findUnique et_id k (eventTypes w) = Some e \<and> et_id e = k"
  by (auto simp: eventTypes_assertOwnership_def dest!: assert_owner_InrD dest: findUnique_key)

interpretation event_type_upd: guarded_write "\<lambda>k w. findUnique et_id k (eventTypes w)" et_coachId
    "\<lambda>_. Text ''Event type not found''" "eventTypes_edit dto" constraints_ok without_coach et_coachId
  for dto
proof unfold_locales
  fix w k r coach x w'
  assume "constraints_ok w" "findUnique et_id k (eventTypes w) = Some r"
    "eventTypes_edit dto coach k w = (x, w')"
  then show "without_coach (et_coachId r) w' = without_coach (et_coachId r) w"
    by (auto simp: eventTypes_edit_def eventType_update_def without_coach_upd dest: owned_event_type
        split: sum.splits option.splits if_splits)
next
  fix w k r coach a w'
  assume "findUnique et_id k (eventTypes w) = Some r" "eventTypes_edit dto coach k w = (Inr a, w')"
  then show "et_coachId a = et_coachId r"
    by (auto simp: eventTypes_edit_def eventType_update_def dest!: owned_event_type
        split: sum.splits option.splits if_splits)
qed (simp add: event_type_ops)

interpretation event_type_arch: guarded_write "\<lambda>k w. findUnique et_id k (eventTypes w)" et_coachId
    "\<lambda>_. Text ''Event type not found''" eventTypes_archive constraints_ok without_coach et_coachId
proof unfold_locales
  fix w k r coach x w'
  assume "constraints_ok w" "findUnique et_id k (eventTypes w) = Some r"
    "eventTypes_archive coach k w = (x, w')"
  then show "without_coach (et_coachId r) w' = without_coach (et_coachId r) w"
    by (auto simp: eventTypes_archive_def eventType_update_def without_coach_upd dest: owned_event_type
        split: sum.splits option.splits)
next
  fix w k r coach a w'
  assume "findUnique et_id k (eventTypes w) = Some r" "eventTypes_archive coach k w = (Inr a, w')"
  then show "et_coachId a = et_coachId r"
    by (auto simp: eventTypes_archive_def eventType_update_def dest!: owned_event_type
        split: sum.splits option.splits if_splits)
qed (simp add: event_type_ops)

interpretation event_type_rem: guarded_op "\<lambda>k w. findUnique et_id k (eventTypes w)" et_coachId
    "\<lambda>_. Text ''Event type not found''" eventTypes_remove constraints_ok without_coach
proof unfold_locales
  fix w k r coach x w'
  assume "constraints_ok w" "findUnique et_id k (eventTypes w) = Some r"
    "eventTypes_remove coach k w = (x, w')"
  then show "without_coach (et_coachId r) w' = without_coach (et_coachId r) w"
    by (auto simp: eventTypes_remove_def eventType_delete_def without_coach_del dest: owned_event_type
        split: sum.splits option.splits if_splits)
qed (simp add: event_type_ops)

lemma eventTypes_create_ok:
  "constraints_ok w \<Longrightarrow> eventTypes_create i coach dto w = (x, w') \<Longrightarrow> constraints_ok w'"
  by (auto simp: eventTypes_create_def Let_def intro: eventType_create_ok)

lemma eventTypes_edit_ok:
  "constraints_ok w \<Longrightarrow> eventTypes_edit dto coach k w = (x, w') \<Longrightarrow> constraints_ok w'"
  by (auto simp: eventTypes_edit_def split: sum.splits if_splits elim: eventType_update_ok)

lemma eventTypes_archive_ok:
  "constraints_ok w \<Longrightarrow> eventTypes_archive coach k w = (x, w') \<Longrightarrow> constraints_ok w'"
  by (auto simp: eventTypes_archive_def split: sum.splits elim: eventType_update_ok)

lemma eventTypes_remove_ok:
  "constraints_ok w \<Longrightarrow> eventTypes_remove coach k w = (x, w') \<Longrightarrow> constraints_ok w'"
  by (auto simp: eventTypes_remove_def split: sum.splits prod.splits if_splits
      intro: eventType_delete_ok)

lemma reorder_updates_ok:
  "constraints_ok w \<Longrightarrow> reorder_updates n ids w = (x, w') \<Longrightarrow> constraints_ok w'"
proof (induction n ids w rule: reorder_updates.induct)
  case (2 n k ks w)
  from 2(3) obtain y w1 where u: "eventType_update k (\<lambda>e. e\<lparr>et_position := n\<rparr>) w = (y, w1)"
    by (cases "eventType_update k (\<lambda>e. e\<lparr>et_position := n\<rparr>) w")
  then have "constraints_ok w1" using 2(2) by (auto elim: eventType_update_ok)
  with 2(1,3) u show ?case by (cases y) auto
qed simp

lemma reorder_ok: "constraints_ok w \<Longrightarrow> reorder coach ids w = (x, w') \<Longrightarrow> constraints_ok w'"
  by (auto simp: reorder_def Let_def transaction_def intro: reorder_updates_ok
      split: if_splits prod.splits sum.splits)

section \<open>Well-formed rows\<close>

definition event_type_wf :: "eventType \<Rightarrow> bool" where
  "event_type_wf e \<longleftrightarrow>
    et_title e \<noteq> [] \<and> 5 \<le> et_durationMinutes e \<and> et_durationMinutes e \<le> 24 * 60 \<and>
    et_locations e \<noteq> [] \<and> distinct (et_locations e) \<and>
    (case et_price e of None \<Rightarrow> True | Some p \<Rightarrow> 0 \<le> p) \<and> 0 \<le> et_position e"

definition event_types_wf :: "world \<Rightarrow> bool" where
  "event_types_wf w \<longleftrightarrow> (\<forall>e \<in> set (eventTypes w). event_type_wf e)"

lemma fold_max_ge: "x \<in> set (p # ps) \<Longrightarrow> x \<le> fold max ps (p :: int)"
  using List.fold_cong by (simp add: Max.set_eq_fold [symmetric])

lemma nextPosition_above:
  assumes "e \<in> set (eventTypes w)" and "et_coachId e = c"
  shows "et_position e < nextPosition c w"
proof (cases "map et_position (findMany (\<lambda>e. et_coachId e = c) (eventTypes w))")
  case Nil
  with assms show ?thesis by (auto simp: findMany_def filter_empty_conv)
next
  case (Cons p ps)
  have "et_position e \<in> set (p # ps)"
    unfolding Cons [symmetric] using assms by (auto simp: findMany_def)
  from fold_max_ge [OF this] show ?thesis by (simp add: nextPosition_def max_position_def Cons)
qed

lemma nextPosition_nonneg:
  assumes "event_types_wf w"
  shows "0 \<le> nextPosition c w"
proof (cases "map et_position (findMany (\<lambda>e. et_coachId e = c) (eventTypes w))")
  case (Cons p ps)
  have "p \<in> set (map et_position (findMany (\<lambda>e. et_coachId e = c) (eventTypes w)))"
    unfolding Cons by simp
  then have "0 \<le> p" using assms by (auto simp: event_types_wf_def event_type_wf_def findMany_def)
  moreover have "p \<le> fold max ps p" by (rule fold_max_ge) simp
  ultimately show ?thesis by (simp add: nextPosition_def max_position_def Cons)
qed (simp add: nextPosition_def max_position_def)

lemma eventTypes_create_wf:
  assumes "event_types_wf w" and "valid_create_event_type dto" and "eventTypes_create i coach dto w = (x, w')"
  shows "event_types_wf w'"
  using assms nextPosition_nonneg [OF assms(1), of "c_id coach"]
  by (auto simp: eventTypes_create_def eventType_create_def event_types_wf_def event_type_wf_def
      valid_create_event_type_def Let_def split: if_splits option.splits)

lemma apply_event_type_wf:
  assumes "event_type_wf e" and "valid_update_event_type dto"
  shows "event_type_wf (apply_event_type_dto dto e)"
  using assms
  unfolding event_type_wf_def valid_update_event_type_def apply_event_type_dto_def
  by (cases "ue_title dto"; cases "ue_durationMinutes dto"; cases "ue_locations dto";
      cases "ue_price dto"; cases "ue_position dto") auto

lemma eventType_update_wf:
  "event_types_wf w \<Longrightarrow> eventType_update k f w = (x, w') \<Longrightarrow>
   (\<And>e. event_type_wf e \<Longrightarrow> event_type_wf (f e)) \<Longrightarrow> event_types_wf w'"
  by (auto simp: eventType_update_def event_types_wf_def set_updateRow split: option.splits)

lemma eventTypes_edit_wf:
  "event_types_wf w \<Longrightarrow> valid_update_event_type dto \<Longrightarrow> eventTypes_edit dto coach k w = (x, w') \<Longrightarrow>
   event_types_wf w'"
  by (auto simp: eventTypes_edit_def split: sum.splits if_splits
      elim: eventType_update_wf intro: apply_event_type_wf)

lemma eventTypes_archive_wf:
  "event_types_wf w \<Longrightarrow> eventTypes_archive coach k w = (x, w') \<Longrightarrow> event_types_wf w'"
  by (auto simp: eventTypes_archive_def event_type_wf_def split: sum.splits
      elim: eventType_update_wf)

lemma eventTypes_remove_wf:
  "event_types_wf w \<Longrightarrow> eventTypes_remove coach k w = (x, w') \<Longrightarrow> event_types_wf w'"
  by (auto simp: eventTypes_remove_def eventType_delete_def event_types_wf_def
      split: sum.splits option.splits if_splits)

section \<open>The reordering\<close>

definition position_of :: "string \<Rightarrow> string list \<Rightarrow> int" where
  "position_of k ids = int (length (takeWhile (\<lambda>x. x \<noteq> k) ids))"

definition reordered :: "int \<Rightarrow> string list \<Rightarrow> eventType \<Rightarrow> eventType" where
  "reordered n ids e =
    (if et_id e \<in> set ids then e\<lparr>et_position := n + position_of (et_id e) ids\<rparr> else e)"

lemma position_of_Cons: "position_of k (x # ids) = (if x = k then 0 else 1 + position_of k ids)"
  by (simp add: position_of_def)

lemma position_of_nth: "distinct ids \<Longrightarrow> i < length ids \<Longrightarrow> position_of (ids ! i) ids = int i"
proof (induction ids arbitrary: i)
  case (Cons x ids)
  then show ?case by (cases i) (auto simp: position_of_Cons)
qed simp

lemma position_of_mem: "k \<in> set ids \<Longrightarrow> 0 \<le> position_of k ids \<and> position_of k ids < int (length ids) \<and>
    ids ! nat (position_of k ids) = k"
proof (induction ids)
  case (Cons x ids)
  then show ?case
    by (auto simp: position_of_Cons nat_add_distrib position_of_def)
qed simp

lemma reordered_sel [simp]:
  "et_id (reordered n ids e) = et_id e" "et_coachId (reordered n ids e) = et_coachId e"
  "et_title (reordered n ids e) = et_title e" "et_isActive (reordered n ids e) = et_isActive e"
  by (simp_all add: reordered_def)

lemma reorder_updates_eq:
  "distinct ids \<Longrightarrow> set ids \<subseteq> et_id ` set (eventTypes w) \<Longrightarrow>
   reorder_updates n ids w = (Inr (), w\<lparr>eventTypes := map (reordered n ids) (eventTypes w)\<rparr>)"
proof (induction n ids w rule: reorder_updates.induct)
  case (1 n w)
  have "map (reordered n []) (eventTypes w) = eventTypes w"
    by (rule map_idI) (simp add: reordered_def)
  then show ?case by simp
next
  case (2 n k ks w)
  let ?f = "\<lambda>e. e\<lparr>et_position := n\<rparr>"
  let ?w1 = "w\<lparr>eventTypes := updateRow et_id k ?f (eventTypes w)\<rparr>"
  obtain e where e: "findUnique et_id k (eventTypes w) = Some e"
    using 2(3) findUnique_exists [of k et_id "eventTypes w"] by auto
  have ids: "et_id ` set (eventTypes ?w1) = et_id ` set (eventTypes w)"
    by (simp add: image_updateRow)
  have "set ks \<subseteq> et_id ` set (eventTypes ?w1)" unfolding ids using 2(3) by simp
  then have "reorder_updates (n + 1) ks ?w1 =
      (Inr (), ?w1\<lparr>eventTypes := map (reordered (n + 1) ks) (eventTypes ?w1)\<rparr>)"
    using 2(1,2) by simp
  moreover have "map (reordered (n + 1) ks) (eventTypes ?w1) = map (reordered n (k # ks)) (eventTypes w)"
    using 2(2) by (auto simp: updateRow_def reordered_def position_of_Cons)
  ultimately show ?case by (simp add: eventType_update_def e)
qed

lemma owned_count:
  fixes es :: "eventType list"
  assumes "distinct (map et_id es)"
  shows "length (filter (\<lambda>e. et_id e \<in> set ids \<and> et_coachId e = c) es) = length ids \<longleftrightarrow>
    distinct ids \<and> (\<forall>k \<in> set ids. \<exists>e \<in> set es. et_id e = k \<and> et_coachId e = c)"
proof -
  let ?own = "filter (\<lambda>e. et_id e \<in> set ids \<and> et_coachId e = c) es"
  have d: "distinct (map et_id ?own)" using assms by (rule distinct_map_filter)
  have sub: "et_id ` set ?own \<subseteq> set ids" by auto
  have len: "length ?own = card (et_id ` set ?own)"
    using distinct_card [OF d] by simp
  have all: "et_id ` set ?own = set ids \<longleftrightarrow> (\<forall>k \<in> set ids. \<exists>e \<in> set es. et_id e = k \<and> et_coachId e = c)"
    by force
  show ?thesis
  proof
    assume eq: "length ?own = length ids"
    have "card (et_id ` set ?own) \<le> card (set ids)" by (rule card_mono [OF _ sub]) simp
    with eq len card_length [of ids] have c: "card (set ids) = length ids"
      "card (et_id ` set ?own) = card (set ids)" by linarith+
    have "et_id ` set ?own = set ids" by (rule card_subset_eq [OF _ sub c(2)]) simp
    with all card_distinct [OF c(1)]
    show "distinct ids \<and> (\<forall>k \<in> set ids. \<exists>e \<in> set es. et_id e = k \<and> et_coachId e = c)" by blast
  next
    assume "distinct ids \<and> (\<forall>k \<in> set ids. \<exists>e \<in> set es. et_id e = k \<and> et_coachId e = c)"
    with all len show "length ?own = length ids" by (simp add: distinct_card)
  qed
qed

lemma reorder_eq:
  assumes "constraints_ok w"
  shows "reorder coach ids w =
    (if distinct ids \<and> (\<forall>k \<in> set ids. \<exists>e \<in> set (eventTypes w). et_id e = k \<and> et_coachId e = c_id coach)
     then (Inr (), w\<lparr>eventTypes := map (reordered 0 ids) (eventTypes w)\<rparr>)
     else (Inl (BadRequest (Text not_yours_message)), w))"
proof -
  have "distinct (map et_id (eventTypes w))" using assms by (simp add: constraints_ok_def)
  note cnt = owned_count [OF this, of ids "c_id coach"]
  show ?thesis
  proof (cases "distinct ids \<and> (\<forall>k \<in> set ids. \<exists>e \<in> set (eventTypes w). et_id e = k \<and> et_coachId e = c_id coach)")
    case True
    then have "set ids \<subseteq> et_id ` set (eventTypes w)" by auto
    with True have "reorder_updates 0 ids w =
        (Inr (), w\<lparr>eventTypes := map (reordered 0 ids) (eventTypes w)\<rparr>)"
      by (intro reorder_updates_eq) simp_all
    with True cnt show ?thesis by (simp add: reorder_def findMany_def transaction_def)
  next
    case False
    with cnt have "length (filter (\<lambda>e. et_id e \<in> set ids \<and> et_coachId e = c_id coach) (eventTypes w)) \<noteq> length ids"
      by blast
    with False show ?thesis by (simp only: reorder_def findMany_def Let_def if_True if_False simp_thms)
  qed
qed

lemma reorder_wf:
  assumes "constraints_ok w" "event_types_wf w" "reorder coach ids w = (x, w')"
  shows "event_types_wf w'"
  using assms(2,3)
  by (auto simp: reorder_eq [OF assms(1)] event_types_wf_def event_type_wf_def reordered_def
      position_of_def split: if_splits)

text \<open>A list sorted by positions 0, 1, ... is the list of the ids in that order.\<close>

lemma sorted_positions:
  fixes L :: "eventType list"
  assumes "sorted (map et_position L)" and "distinct (map et_id L)" and "et_id ` set L = set ids"
    and "distinct ids" and "\<forall>e \<in> set L. et_position e = position_of (et_id e) ids"
  shows "map et_id L = ids"
proof -
  have len: "length L = length ids"
    using assms(2-4) by (metis distinct_card length_map list.set_map)
  have pos: "map et_position L = map (\<lambda>e. position_of (et_id e) ids) L" using assms(5) by simp
  have "inj_on (\<lambda>k. position_of k ids) (set ids)"
    by (rule inj_onI) (metis position_of_mem)
  then have d: "distinct (map et_position L)"
    unfolding pos using assms(2,3) by (simp add: distinct_map inj_on_def) blast
  have "set (map et_position L) = (\<lambda>k. position_of k ids) ` set ids"
    unfolding pos assms(3) [symmetric] by (simp add: image_image)
  also have "\<dots> = int ` {0..<length ids}"
  proof
    show "(\<lambda>k. position_of k ids) ` set ids \<subseteq> int ` {0..<length ids}"
    proof
      fix x assume "x \<in> (\<lambda>k. position_of k ids) ` set ids"
      then obtain k where "k \<in> set ids" "x = position_of k ids" by blast
      with position_of_mem [of k ids] show "x \<in> int ` {0..<length ids}"
        by (intro image_eqI [where x = "nat x"]) auto
    qed
    show "int ` {0..<length ids} \<subseteq> (\<lambda>k. position_of k ids) ` set ids"
    proof
      fix x assume "x \<in> int ` {0..<length ids}"
      then obtain i where "i < length ids" "x = int i" by auto
      with position_of_nth [OF assms(4)] show "x \<in> (\<lambda>k. position_of k ids) ` set ids"
        by (intro image_eqI [where x = "ids ! i"]) auto
    qed
  qed
  also have "\<dots> = set (map int [0..<length ids])" by simp
  finally have "map et_position L = map int [0..<length ids]"
    using assms(1) d by (intro sorted_distinct_set_unique) (simp_all add: sorted_map distinct_map)
  then have "et_position (L ! i) = int i" if "i < length ids" for i
    using that len by (metis diff_zero length_map length_upt nth_map nth_upt plus_nat.add_0)
  then have "et_id (L ! i) = ids ! i" if "i < length ids" for i
    using that assms(3,5) len position_of_mem [of "et_id (L ! i)" ids]
    by (metis image_eqI nat_int nth_mem)
  with len show ?thesis by (intro nth_equalityI) simp_all
qed

lemma in_order_set [simp]: "set (in_order collate es) = set es"
  by (simp add: in_order_def)

lemma in_order_sorted: "sorted (map et_position (in_order collate es))"
  by (simp add: in_order_def)

lemma in_order_distinct: "distinct (map et_id (in_order collate es)) = distinct (map et_id es)"
proof -
  have "mset (in_order collate es) = mset es" by (simp add: in_order_def)
  then have "mset (map et_id (in_order collate es)) = mset (map et_id es)" by simp
  then show ?thesis using mset_eq_imp_distinct_iff by blast
qed

text \<open>What a complete and accepted reordering does to the list the coach sees.\<close>

lemma findUnique_reordered:
  "findUnique et_id k (map (reordered 0 ids) es) = map_option (reordered 0 ids) (findUnique et_id k es)"
  by (induction es) auto

lemma reordered_list:
  assumes "constraints_ok w" and "distinct ids"
    and own: "\<forall>k \<in> set ids. \<exists>e \<in> set (eventTypes w). et_id e = k \<and> et_coachId e = c"
    and complete: "\<forall>e \<in> set (eventTypes w). et_coachId e = c \<longrightarrow> et_id e \<in> set ids"
  shows "map et_id (findMine collate c (w\<lparr>eventTypes := map (reordered 0 ids) (eventTypes w)\<rparr>)) = ids"
proof (rule sorted_positions)
  let ?w' = "w\<lparr>eventTypes := map (reordered 0 ids) (eventTypes w)\<rparr>"
  let ?own = "filter (\<lambda>e. et_coachId e = c) (map (reordered 0 ids) (eventTypes w))"
  have m: "findMine collate c ?w' = in_order collate ?own" by (simp add: findMine_def findMany_def)
  have "map et_id (map (reordered 0 ids) (eventTypes w)) = map et_id (eventTypes w)" by simp
  moreover have "distinct (map et_id (eventTypes w))" using assms(1) by (simp add: constraints_ok_def)
  ultimately have "distinct (map et_id (map (reordered 0 ids) (eventTypes w)))" by (simp only:)
  then show "distinct (map et_id (findMine collate c ?w'))"
    unfolding m in_order_distinct by (rule distinct_map_filter)
  have "set ids \<subseteq> et_id ` set ?own"
  proof
    fix k assume "k \<in> set ids"
    with own obtain e where "e \<in> set (eventTypes w)" "et_id e = k" "et_coachId e = c" by blast
    then show "k \<in> et_id ` set ?own" by (intro image_eqI [of _ _ "reordered 0 ids e"]) simp_all
  qed
  then show "et_id ` set (findMine collate c ?w') = set ids"
    unfolding m in_order_set using complete by auto
  show "\<forall>e \<in> set (findMine collate c ?w'). et_position e = position_of (et_id e) ids"
    unfolding m in_order_set using complete by (auto simp: reordered_def)
qed (use assms(2) in \<open>simp_all add: findMine_def in_order_sorted\<close>)

text \<open>
  C23: a reordering is accepted exactly when it lists event types of the caller, each once;
  then the type at place i gets position i, nothing else changes, and, when the list is
  complete, the coach's own list comes back in that order.  Otherwise nothing changes.
\<close>

theorem reorder_correct:
  assumes "constraints_ok w"
  shows "(if distinct ids \<and> (\<forall>k \<in> set ids. \<exists>e \<in> set (eventTypes w). et_id e = k \<and> et_coachId e = c_id coach)
     then \<exists>w'. reorder coach ids w = (Inr (), w') \<and>
       w' = w\<lparr>eventTypes := eventTypes w'\<rparr> \<and>
       (\<forall>i < length ids. \<forall>e. findUnique et_id (ids ! i) (eventTypes w) = Some e \<longrightarrow>
          findUnique et_id (ids ! i) (eventTypes w') = Some (e\<lparr>et_position := int i\<rparr>)) \<and>
       (\<forall>k. k \<notin> set ids \<longrightarrow> findUnique et_id k (eventTypes w') = findUnique et_id k (eventTypes w)) \<and>
       ((\<forall>e \<in> set (eventTypes w). et_coachId e = c_id coach \<longrightarrow> et_id e \<in> set ids) \<longrightarrow>
          map et_id (findMine collate (c_id coach) w') = ids)
     else reorder coach ids w = (Inl (BadRequest (Text not_yours_message)), w))"
proof (cases "distinct ids \<and> (\<forall>k \<in> set ids. \<exists>e \<in> set (eventTypes w). et_id e = k \<and> et_coachId e = c_id coach)")
  case True
  let ?w' = "w\<lparr>eventTypes := map (reordered 0 ids) (eventTypes w)\<rparr>"
  have r: "reorder coach ids w = (Inr (), ?w')" by (rule trans [OF reorder_eq [OF assms] if_P [OF True]])
  have listed: "findUnique et_id (ids ! i) (eventTypes ?w') = Some (e\<lparr>et_position := int i\<rparr>)"
    if "i < length ids" "findUnique et_id (ids ! i) (eventTypes w) = Some e" for i e
    using that True findUnique_key [OF that(2)] position_of_nth [of ids i]
    by (simp add: findUnique_reordered reordered_def)
  have others: "findUnique et_id k (eventTypes ?w') = findUnique et_id k (eventTypes w)"
    if "k \<notin> set ids" for k
    using that findUnique_key [of et_id k "eventTypes w"]
    by (cases "findUnique et_id k (eventTypes w)") (simp_all add: findUnique_reordered reordered_def del: findUnique_None)
  have order: "map et_id (findMine collate (c_id coach) ?w') = ids"
    if "\<forall>e \<in> set (eventTypes w). et_coachId e = c_id coach \<longrightarrow> et_id e \<in> set ids"
    using True that by (intro reordered_list [OF assms]) simp_all
  have rest: "?w' = w\<lparr>eventTypes := eventTypes ?w'\<rparr>" by simp
  show ?thesis
    unfolding if_P [OF True]
  proof (intro exI conjI allI impI)
    show "reorder coach ids w = (Inr (), ?w')" by (rule r)
    show "?w' = w\<lparr>eventTypes := eventTypes ?w'\<rparr>" by (rule rest)
  qed (fact listed others order)+
next
  case False
  then show ?thesis using trans [OF reorder_eq [OF assms] if_not_P [OF False]] by (simp only: if_False)
qed

text \<open>Two event types of one coach.\<close>

definition two_types :: world where
  "two_types = empty_world\<lparr>
     coaches := [\<lparr> c_id = ''c1'', c_email = ''a@b.hu'', c_passwordHash = ''h'', c_name = ''Anna'',
       c_preferredLocale = ''hu'', c_role = COACH, c_sessionsRevokedAt = None, c_frontendUrl = None \<rparr>],
     eventTypes := map (\<lambda>(k, t, p). \<lparr> et_id = k, et_coachId = ''c1'', et_title = t, et_description = None,
       et_durationMinutes = 60, et_locations = [PHONE], et_price = None, et_position = p,
       et_isActive = True \<rparr>) [(''e1'', ''Talk'', 0), (''e2'', ''Walk'', 1)] \<rparr>"

definition two_types_coach :: coach where "two_types_coach = hd (coaches two_types)"

lemma two_types_ok: "constraints_ok two_types" "event_types_wf two_types"
  by code_simp+

lemma reorder_correct_witness:
  "\<exists>w'. reorder two_types_coach [''e2'', ''e1''] two_types = (Inr (), w') \<and>
     map et_id (findMine (\<lambda>_. 0) ''c1'' w') = [''e2'', ''e1'']"
proof -
  have "distinct [''e2'', ''e1'']" by simp
  moreover have "\<forall>k \<in> set [''e2'', ''e1'']. \<exists>e \<in> set (eventTypes two_types).
      et_id e = k \<and> et_coachId e = c_id two_types_coach" by code_simp
  ultimately have c: "distinct [''e2'', ''e1''] \<and> (\<forall>k \<in> set [''e2'', ''e1'']. \<exists>e \<in> set (eventTypes two_types).
      et_id e = k \<and> et_coachId e = c_id two_types_coach)" by blast
  have a: "\<forall>e \<in> set (eventTypes two_types). et_coachId e = c_id two_types_coach \<longrightarrow> et_id e \<in> set [''e2'', ''e1'']"
    by code_simp
  have "c_id two_types_coach = ''c1''" by code_simp
  with reorder_correct [OF two_types_ok(1), of "[''e2'', ''e1'']" two_types_coach "\<lambda>_. 0", unfolded if_P [OF c]] a
  show ?thesis by metis
qed

lemma in_order_append_last:
  assumes "\<And>x. x \<in> set xs \<Longrightarrow> et_position x < et_position e"
  shows "in_order collate (xs @ [e]) = in_order collate xs @ [e]"
  unfolding in_order_def
proof (rule properties_for_sort_key)
  let ?t = "sort_key (\<lambda>e. collate (et_title e))"
  show "mset (sort_key et_position (?t xs) @ [e]) = mset (?t (xs @ [e]))" by simp
  show "sorted (map et_position (sort_key et_position (?t xs) @ [e]))"
    using assms by (auto simp: sorted_append intro: less_imp_le)
  fix k assume "k \<in> set (sort_key et_position (?t xs) @ [e])"
  then consider "k = e" | "k \<in> set xs" "et_position k \<noteq> et_position e"
    using assms by (auto dest: less_imp_neq)
  then show "filter (\<lambda>x. et_position k = et_position x) (sort_key et_position (?t xs) @ [e]) =
      filter (\<lambda>x. et_position k = et_position x) (?t (xs @ [e]))"
  proof cases
    case 1
    have none: "filter (\<lambda>x. et_position e = et_position x) ys = []" if "set ys = set xs" for ys
      unfolding filter_empty_conv that using assms by (metis less_irrefl)
    have "filter (\<lambda>x. et_position e = et_position x) (?t (xs @ [e])) =
        ?t (filter (\<lambda>x. et_position e = et_position x) (xs @ [e]))" by (rule filter_sort)
    also have "\<dots> = [e]" using none [of xs] by simp
    finally show ?thesis using none [of "sort_key et_position (?t xs)"] 1 by simp
  next
    case 2
    have "filter (\<lambda>x. et_position k = et_position x) (?t (xs @ [e])) =
        ?t (filter (\<lambda>x. et_position k = et_position x) (xs @ [e]))" by (rule filter_sort)
    also have "\<dots> = filter (\<lambda>x. et_position k = et_position x) (?t xs)"
      using 2 by (simp add: filter_sort)
    also have "\<dots> = filter (\<lambda>x. et_position k = et_position x) (sort_key et_position (?t xs))"
      by (simp add: eq_commute [of "et_position k"] sort_key_stable)
    finally show ?thesis using 2 by simp
  qed
qed

text \<open>
  An event type created without a position stands last: its position is above every other
  of the coach, archived ones included, and her list is the old one with the new type behind.
\<close>

theorem new_event_type_last:
  assumes "eventTypes_create new_id coach dto w = (Inr e, w')" and "ce_position dto = None"
  shows "(\<forall>x \<in> set (eventTypes w). et_coachId x = c_id coach \<longrightarrow> et_position x < et_position e) \<and>
    et_isActive e \<and> et_coachId e = c_id coach \<and>
    findMine collate (c_id coach) w' = findMine collate (c_id coach) w @ [e]"
proof -
  from assms have e: "et_coachId e = c_id coach" "et_position e = nextPosition (c_id coach) w" "et_isActive e"
    and w': "w' = w\<lparr>eventTypes := eventTypes w @ [e]\<rparr>"
    by (auto simp: eventTypes_create_def eventType_create_def createRow_def Let_def split: if_splits)
  have above: "et_position x < et_position e" if "x \<in> set (eventTypes w)" "et_coachId x = c_id coach" for x
    unfolding e(2) by (rule nextPosition_above [OF that])
  have "findMine collate (c_id coach) w' =
      in_order collate (filter (\<lambda>e. et_coachId e = c_id coach) (eventTypes w) @ [e])"
    by (simp add: findMine_def findMany_def w' e)
  also have "\<dots> = findMine collate (c_id coach) w @ [e]"
    using above by (subst in_order_append_last) (auto simp: findMine_def findMany_def)
  finally show ?thesis using above e by blast
qed

lemma new_event_type_last_witness:
  "\<exists>e w'. eventTypes_create ''e3'' two_types_coach \<lparr> ce_title = ''Run'', ce_description = None,
      ce_durationMinutes = 30, ce_locations = [PHONE], ce_price = None, ce_position = None \<rparr> two_types =
      (Inr e, w') \<and> findMine (\<lambda>_. 0) ''c1'' w' = findMine (\<lambda>_. 0) ''c1'' two_types @ [e]"
proof -
  let ?dto = "\<lparr> ce_title = ''Run'', ce_description = None, ce_durationMinutes = 30, ce_locations = [PHONE],
    ce_price = None, ce_position = None \<rparr>"
  have "''e3'' \<notin> et_id ` set (eventTypes two_types)" "coach_exists (c_id two_types_coach) two_types"
    by code_simp+
  then obtain e w' where c: "eventTypes_create ''e3'' two_types_coach ?dto two_types = (Inr e, w')"
    by (simp add: eventTypes_create_def eventType_create_def Let_def)
  have "c_id two_types_coach = ''c1''" by code_simp
  with new_event_type_last [OF c, of "\<lambda>_. 0"] c show ?thesis by auto
qed

end
