(* ===== verification/EmailContent.thy ===== *)
theory EmailContent
  imports Email Settings Luxon
begin

text \<open>
  The content of the mails about a booking (i18n.service.ts, price-format.util.ts,
  google-calendar-link.util.ts, email-content.builder.ts): a subject and the properties of
  the template.

  The libraries that translate a key, write a number and write a date for a locale are
  parameters.  The keys of the two locale files are \<open>mail_keys\<close>.
\<close>

section \<open>Translations (i18n.service.ts)\<close>

datatype appLocale = Hu | En

datatype i18nVar = VText string | VNum int

record textLib =
  tx_getFixedT :: "appLocale \<Rightarrow> string \<Rightarrow> (string \<times> i18nVar) list \<Rightarrow> string"
  tx_numberFormat :: "string \<Rightarrow> int \<Rightarrow> string"           \<comment> \<open>Intl.NumberFormat(locale).format\<close>
  tx_localeString :: "int \<Rightarrow> string \<Rightarrow> string \<Rightarrow> string"  \<comment> \<open>instant, zone, locale\<close>

definition SUPPORTED_LOCALES :: "(string \<times> appLocale) list" where
  "SUPPORTED_LOCALES = [(''hu'', Hu), (''en'', En)]"

definition DEFAULT_LOCALE :: appLocale where "DEFAULT_LOCALE = Hu"

definition resolveLocale :: "string option \<Rightarrow> appLocale" where
  "resolveLocale locale_name =
    (case locale_name of
       None \<Rightarrow> DEFAULT_LOCALE
     | Some l \<Rightarrow> (case map_of SUPPORTED_LOCALES l of None \<Rightarrow> DEFAULT_LOCALE | Some a \<Rightarrow> a))"

definition i18n_t :: "textLib \<Rightarrow> string \<Rightarrow> string option \<Rightarrow> (string \<times> i18nVar) list \<Rightarrow> string" where
  "i18n_t lib key locale_name vars = tx_getFixedT lib (resolveLocale locale_name) key vars"

section \<open>Prices (price-format.util.ts)\<close>

definition formatPriceHuf :: "textLib \<Rightarrow> int option \<Rightarrow> string \<Rightarrow> string \<Rightarrow> string option" where
  "formatPriceHuf lib priceHuf locale_name freeLabel =
    (case priceHuf of
       None \<Rightarrow> None
     | Some p \<Rightarrow>
         if p \<le> 0 then Some freeLabel
         else Some (tx_numberFormat lib (if take 2 locale_name = ''hu'' then ''hu-HU'' else ''en-US'') p @
           '' HUF''))"

section \<open>The link to the calendar (google-calendar-link.util.ts)\<close>

text \<open>\<open>yyyyMMdd'T'HHmmss'Z'\<close> in UTC.\<close>

definition toGoogleUtcStamp :: "int \<Rightarrow> string" where
  "toGoogleUtcStamp ms =
    (case date_of_day (ms div ms_per_day) of (y, m, d) \<Rightarrow>
      let t = ms mod ms_per_day in
      pad 4 (nat y) @ pad 2 (nat m) @ pad 2 (nat d) @ ''T'' @
      pad 2 (nat (t div 3600000)) @ pad 2 (nat (t div 60000 mod 60)) @
      pad 2 (nat (t div 1000 mod 60)) @ ''Z'')"

text \<open>
  \<open>URLSearchParams.toString\<close>: letters, digits and four marks stay, a space becomes a plus,
  every other byte a percent sign and two hexadecimal digits.
\<close>

definition form_unreserved :: "char \<Rightarrow> bool" where
  "form_unreserved c \<longleftrightarrow>
    c \<in> set ''ABCDEFGHIJKLMNOPQRSTUVWXYZabcdefghijklmnopqrstuvwxyz0123456789*-._''"

definition form_encode :: "string \<Rightarrow> string" where
  "form_encode s = concat (map (\<lambda>c.
    if form_unreserved c then [c] else if c = CHR '' '' then ''+'' else percent c) s)"

definition form_pair :: "string \<times> string \<Rightarrow> string" where
  "form_pair kv = form_encode (fst kv) @ ''='' @ form_encode (snd kv)"

fun form_params :: "(string \<times> string) list \<Rightarrow> string" where
  "form_params [] = []"
| "form_params [kv] = form_pair kv"
| "form_params (kv # kvs) = form_pair kv @ ''&'' @ form_params kvs"

record quickAddInput =
  qa_title :: string
  qa_description :: "string option"
  qa_location :: string
  qa_startAt :: int
  qa_endAt :: int

definition buildGoogleCalendarQuickAddUrl :: "quickAddInput \<Rightarrow> string" where
  "buildGoogleCalendarQuickAddUrl input =
    ''https://calendar.google.com/calendar/render?'' @
    form_params
      [(''action'', ''TEMPLATE''), (''text'', qa_title input),
       (''dates'', toGoogleUtcStamp (qa_startAt input) @ ''/'' @ toGoogleUtcStamp (qa_endAt input)),
       (''details'', case qa_description input of None \<Rightarrow> [] | Some d \<Rightarrow> d),
       (''location'', qa_location input)]"

section \<open>The properties of the template\<close>

record emailPalette =
  ep_bg :: string
  ep_bgPanel :: string
  ep_bgCard :: string
  ep_ink :: string
  ep_inkSoft :: string
  ep_accent :: string
  ep_accentSoft :: string
  ep_line :: string
  ep_brown :: string

record emailBrandPalette =
  bp_light :: emailPalette
  bp_dark :: emailPalette

definition DEFAULT_EMAIL_PALETTE :: emailBrandPalette where
  "DEFAULT_EMAIL_PALETTE =
    \<lparr> bp_light = \<lparr> ep_bg = ''#fbf0f0'', ep_bgPanel = ''#f0dada'', ep_bgCard = ''#fef7f7'', ep_ink = ''#2a1717'',
        ep_inkSoft = ''#7c5959'', ep_accent = ''#9e5a69'', ep_accentSoft = ''#c99aa0'', ep_line = ''#e9cdcd'',
        ep_brown = ''#8b6b45'' \<rparr>,
      bp_dark = \<lparr> ep_bg = ''#241717'', ep_bgPanel = ''#2e1c1c'', ep_bgCard = ''#331f1f'', ep_ink = ''#f5e1e1'',
        ep_inkSoft = ''#c99898'', ep_accent = ''#d98ca0'', ep_accentSoft = ''#a15c6b'', ep_line = ''#4a2c2c'',
        ep_brown = ''#c9a171'' \<rparr> \<rparr>"

record labelled =
  lb_label :: string
  lb_value :: string

record link =
  ln_label :: string
  ln_url :: string

record bookingEmailProps =
  pr_logoUrl :: string
  pr_brandName :: string
  pr_brandTagline :: "string option"
  pr_palette :: emailBrandPalette
  pr_previewText :: string
  pr_heading :: string
  pr_intro :: string
  pr_detailsHeading :: string
  pr_details :: "labelled list"
  pr_note :: "labelled option"
  pr_primaryButton :: "link option"
  pr_secondaryButton :: "link option"
  pr_manageLinks :: "link list option"
  pr_helperText :: "string option"
  pr_calendarNote :: "string option"
  pr_footer :: string

section \<open>The builder (email-content.builder.ts)\<close>

datatype emailRecipient = Client | ToCoach

record bookingEmailContext =
  cx_eventTypeTitle :: string
  cx_price :: "int option"
  cx_clientName :: string
  cx_coachName :: string
  cx_startAt :: int
  cx_endAt :: int
  cx_durationMinutes :: int
  cx_location :: locationType
  cx_businessAddress :: string
  cx_meetLink :: "string option"
  cx_clientPhone :: string
  cx_timezone :: string
  cx_logoUrl :: string
  cx_brandName :: string
  cx_brandTagline :: "string option"
  cx_palette :: emailBrandPalette
  cx_manageUrl :: string
  cx_googleCalendarUrl :: string
  cx_cancelledBy :: "cancelledBy option"
  cx_cancellationReason :: "string option"

definition locationLabel :: "textLib \<Rightarrow> bookingEmailContext \<Rightarrow> string \<Rightarrow> string" where
  "locationLabel lib ctx locale_name =
    (case cx_location ctx of
       IN_PERSON \<Rightarrow> i18n_t lib ''email.common.locationInPerson'' (Some locale_name)
         [(''address'', VText (cx_businessAddress ctx))]
     | GOOGLE_MEET \<Rightarrow> i18n_t lib ''email.common.locationGoogleMeet'' (Some locale_name)
         [(''link'', VText (case cx_meetLink ctx of None \<Rightarrow> [] | Some l \<Rightarrow> l))]
     | PHONE \<Rightarrow> i18n_t lib ''email.common.locationPhone'' (Some locale_name)
         [(''phone'', VText (cx_clientPhone ctx))])"

definition buildDetails :: "textLib \<Rightarrow> bookingEmailContext \<Rightarrow> string \<Rightarrow> labelled list" where
  "buildDetails lib ctx locale_name =
    (let t = (\<lambda>key vars. i18n_t lib key (Some locale_name) vars);
         priceLabel = formatPriceHuf lib (cx_price ctx) locale_name (t ''email.common.free'' [])
     in [ \<lparr> lb_label = t ''email.common.labelEventType'' [], lb_value = cx_eventTypeTitle ctx \<rparr>,
          \<lparr> lb_label = t ''email.common.labelDateTime'' [],
            lb_value = tx_localeString lib (cx_startAt ctx) (cx_timezone ctx) locale_name \<rparr>,
          \<lparr> lb_label = t ''email.common.labelDuration'' [],
            lb_value = t ''email.common.minutes'' [(''count'', VNum (cx_durationMinutes ctx))] \<rparr>,
          \<lparr> lb_label = t ''email.common.labelLocation'' [],
            lb_value = locationLabel lib ctx locale_name \<rparr> ] @
        (if truthy priceLabel
         then [ \<lparr> lb_label = t ''email.common.labelPrice'' [], lb_value = the priceLabel \<rparr> ] else []))"

definition buildManageLinks :: "textLib \<Rightarrow> bookingEmailContext \<Rightarrow> string \<Rightarrow> link list" where
  "buildManageLinks lib ctx locale_name =
    [ \<lparr> ln_label = i18n_t lib ''email.common.linkCancelBooking'' (Some locale_name) [],
        ln_url = cx_manageUrl ctx @ ''&action=cancel#idopontfoglalas'' \<rparr>,
      \<lparr> ln_label = i18n_t lib ''email.common.linkRescheduleBooking'' (Some locale_name) [],
        ln_url = cx_manageUrl ctx @ ''&action=reschedule#idopontfoglalas'' \<rparr> ]"

datatype scheduledKind = BookingConfirmed | BookingRescheduled

fun kind_key :: "scheduledKind \<Rightarrow> string" where
  "kind_key BookingConfirmed = ''bookingConfirmed''"
| "kind_key BookingRescheduled = ''bookingRescheduled''"

definition buildScheduledEmail ::
  "textLib \<Rightarrow> bookingEmailContext \<Rightarrow> emailRecipient \<Rightarrow> string \<Rightarrow> scheduledKind \<Rightarrow> string \<times> bookingEmailProps" where
  "buildScheduledEmail lib ctx recipient locale_name kind =
    (let t = (\<lambda>key vars. i18n_t lib key (Some locale_name) vars);
         k = (\<lambda>part. ''email.'' @ kind_key kind @ part);
         vars = [(''title'', VText (cx_eventTypeTitle ctx)), (''name'', VText (cx_clientName ctx)),
                 (''clientName'', VText (cx_clientName ctx))];
         calendarButton = \<lparr> ln_label = t ''email.common.buttonAddToGoogleCalendar'' [],
                            ln_url = cx_googleCalendarUrl ctx \<rparr>;
         calendarNote = (if kind = BookingRescheduled
                         then Some (t ''email.common.calendarUpdateHint'' []) else None)
     in case recipient of
       Client \<Rightarrow>
         (t (k ''.client.subject'') vars,
          \<lparr> pr_logoUrl = cx_logoUrl ctx, pr_brandName = cx_brandName ctx,
            pr_brandTagline = cx_brandTagline ctx, pr_palette = cx_palette ctx,
            pr_previewText = t (k ''.client.preview'') vars, pr_heading = t (k ''.client.heading'') [],
            pr_intro = t (k ''.client.intro'') vars,
            pr_detailsHeading = t ''email.common.detailsHeading'' [],
            pr_details = buildDetails lib ctx locale_name, pr_note = None,
            pr_primaryButton = None, pr_secondaryButton = Some calendarButton,
            pr_manageLinks = Some (buildManageLinks lib ctx locale_name),
            pr_helperText = Some (t (k ''.client.manageHint'') []), pr_calendarNote = calendarNote,
            pr_footer = t ''email.common.footer'' [] \<rparr>)
     | ToCoach \<Rightarrow>
         (t (k ''.coach.subject'') vars,
          \<lparr> pr_logoUrl = cx_logoUrl ctx, pr_brandName = cx_brandName ctx,
            pr_brandTagline = cx_brandTagline ctx, pr_palette = cx_palette ctx,
            pr_previewText = t (k ''.coach.preview'') vars, pr_heading = t (k ''.coach.heading'') [],
            pr_intro = t (k ''.coach.intro'') vars,
            pr_detailsHeading = t ''email.common.detailsHeading'' [],
            pr_details = buildDetails lib ctx locale_name, pr_note = None,
            pr_primaryButton = None, pr_secondaryButton = Some calendarButton,
            pr_manageLinks = None, pr_helperText = None, pr_calendarNote = calendarNote,
            pr_footer = t ''email.common.footer'' [] \<rparr>))"

definition buildConfirmed ::
  "textLib \<Rightarrow> bookingEmailContext \<Rightarrow> emailRecipient \<Rightarrow> string \<Rightarrow> string \<times> bookingEmailProps" where
  "buildConfirmed lib ctx recipient locale_name =
    buildScheduledEmail lib ctx recipient locale_name BookingConfirmed"

definition buildRescheduled ::
  "textLib \<Rightarrow> bookingEmailContext \<Rightarrow> emailRecipient \<Rightarrow> string \<Rightarrow> string \<times> bookingEmailProps" where
  "buildRescheduled lib ctx recipient locale_name =
    buildScheduledEmail lib ctx recipient locale_name BookingRescheduled"

definition buildCancelled ::
  "textLib \<Rightarrow> bookingEmailContext \<Rightarrow> emailRecipient \<Rightarrow> string \<Rightarrow> string \<times> bookingEmailProps" where
  "buildCancelled lib ctx recipient locale_name =
    (let t = (\<lambda>key vars. i18n_t lib key (Some locale_name) vars);
         byClient = (cx_cancelledBy ctx = Some CLIENT);
         who = (case recipient of Client \<Rightarrow> ''client'' | ToCoach \<Rightarrow> ''coach'');
         note = (if truthy (cx_cancellationReason ctx)
                 then Some \<lparr> lb_label = t (''email.bookingCancelled.'' @ who @ ''.reasonLabel'') [],
                             lb_value = the (cx_cancellationReason ctx) \<rparr>
                 else None)
     in case recipient of
       Client \<Rightarrow>
         (t ''email.bookingCancelled.client.subject'' [(''title'', VText (cx_eventTypeTitle ctx))],
          \<lparr> pr_logoUrl = cx_logoUrl ctx, pr_brandName = cx_brandName ctx,
            pr_brandTagline = cx_brandTagline ctx, pr_palette = cx_palette ctx,
            pr_previewText = t ''email.bookingCancelled.client.preview'' [],
            pr_heading = t ''email.bookingCancelled.client.heading'' [],
            pr_intro = t (if byClient then ''email.bookingCancelled.client.introByClient''
                          else ''email.bookingCancelled.client.introByCoach'')
              [(''coachName'', VText (cx_coachName ctx))],
            pr_detailsHeading = t ''email.common.detailsHeading'' [],
            pr_details = buildDetails lib ctx locale_name, pr_note = note,
            pr_primaryButton = None, pr_secondaryButton = None, pr_manageLinks = None,
            pr_helperText = Some (t ''email.bookingCancelled.client.rebookHint'' []),
            pr_calendarNote = None, pr_footer = t ''email.common.footer'' [] \<rparr>)
     | ToCoach \<Rightarrow>
         (t ''email.bookingCancelled.coach.subject'' [(''title'', VText (cx_eventTypeTitle ctx))],
          \<lparr> pr_logoUrl = cx_logoUrl ctx, pr_brandName = cx_brandName ctx,
            pr_brandTagline = cx_brandTagline ctx, pr_palette = cx_palette ctx,
            pr_previewText = t ''email.bookingCancelled.coach.preview'' [],
            pr_heading = t ''email.bookingCancelled.coach.heading'' [],
            pr_intro = t (if byClient then ''email.bookingCancelled.coach.introByClient''
                          else ''email.bookingCancelled.coach.introByCoach'')
              [(''clientName'', VText (cx_clientName ctx))],
            pr_detailsHeading = t ''email.common.detailsHeading'' [],
            pr_details = buildDetails lib ctx locale_name, pr_note = note,
            pr_primaryButton = None, pr_secondaryButton = None, pr_manageLinks = None,
            pr_helperText = None, pr_calendarNote = None, pr_footer = t ''email.common.footer'' [] \<rparr>))"

section \<open>The texts that are asked for\<close>

text \<open>The keys of mails in locales/hu.json and locales/en.json, which have the same keys.\<close>

definition mail_keys :: "string list" where
  "mail_keys =
    [''email.common.footer'', ''email.common.detailsHeading'', ''email.common.labelEventType'',
      ''email.common.labelDateTime'', ''email.common.labelDuration'',
      ''email.common.labelLocation'', ''email.common.labelPrice'', ''email.common.free'',
      ''email.common.labelClient'', ''email.common.minutes'',
      ''email.common.locationInPerson'', ''email.common.locationGoogleMeet'',
      ''email.common.locationPhone'', ''email.common.buttonAddToGoogleCalendar'',
      ''email.common.linkCancelBooking'', ''email.common.linkRescheduleBooking'',
      ''email.common.calendarUpdateHint'', ''email.bookingConfirmed.client.subject'',
      ''email.bookingConfirmed.client.preview'', ''email.bookingConfirmed.client.heading'',
      ''email.bookingConfirmed.client.intro'', ''email.bookingConfirmed.client.manageHint'',
      ''email.bookingConfirmed.coach.subject'', ''email.bookingConfirmed.coach.preview'',
      ''email.bookingConfirmed.coach.heading'', ''email.bookingConfirmed.coach.intro'',
      ''email.bookingCancelled.client.subject'', ''email.bookingCancelled.client.preview'',
      ''email.bookingCancelled.client.heading'',
      ''email.bookingCancelled.client.introByClient'',
      ''email.bookingCancelled.client.introByCoach'',
      ''email.bookingCancelled.client.reasonLabel'',
      ''email.bookingCancelled.client.rebookHint'', ''email.bookingCancelled.coach.subject'',
      ''email.bookingCancelled.coach.preview'', ''email.bookingCancelled.coach.heading'',
      ''email.bookingCancelled.coach.introByClient'',
      ''email.bookingCancelled.coach.introByCoach'',
      ''email.bookingCancelled.coach.reasonLabel'',
      ''email.bookingRescheduled.client.subject'', ''email.bookingRescheduled.client.preview'',
      ''email.bookingRescheduled.client.heading'', ''email.bookingRescheduled.client.intro'',
      ''email.bookingRescheduled.client.manageHint'',
      ''email.bookingRescheduled.coach.subject'', ''email.bookingRescheduled.coach.preview'',
      ''email.bookingRescheduled.coach.heading'', ''email.bookingRescheduled.coach.intro'']"

lemma mail_key:
  "''email.common.footer'' \<in> set mail_keys"
  "''email.common.detailsHeading'' \<in> set mail_keys"
  "''email.common.labelEventType'' \<in> set mail_keys"
  "''email.common.labelDateTime'' \<in> set mail_keys"
  "''email.common.labelDuration'' \<in> set mail_keys"
  "''email.common.labelLocation'' \<in> set mail_keys"
  "''email.common.labelPrice'' \<in> set mail_keys"
  "''email.common.free'' \<in> set mail_keys"
  "''email.common.minutes'' \<in> set mail_keys"
  "''email.common.locationInPerson'' \<in> set mail_keys"
  "''email.common.locationGoogleMeet'' \<in> set mail_keys"
  "''email.common.locationPhone'' \<in> set mail_keys"
  "''email.common.buttonAddToGoogleCalendar'' \<in> set mail_keys"
  "''email.common.linkCancelBooking'' \<in> set mail_keys"
  "''email.common.linkRescheduleBooking'' \<in> set mail_keys"
  "''email.common.calendarUpdateHint'' \<in> set mail_keys"
  "''email.bookingConfirmed.client.subject'' \<in> set mail_keys"
  "''email.bookingConfirmed.client.preview'' \<in> set mail_keys"
  "''email.bookingConfirmed.client.heading'' \<in> set mail_keys"
  "''email.bookingConfirmed.client.intro'' \<in> set mail_keys"
  "''email.bookingConfirmed.client.manageHint'' \<in> set mail_keys"
  "''email.bookingConfirmed.coach.subject'' \<in> set mail_keys"
  "''email.bookingConfirmed.coach.preview'' \<in> set mail_keys"
  "''email.bookingConfirmed.coach.heading'' \<in> set mail_keys"
  "''email.bookingConfirmed.coach.intro'' \<in> set mail_keys"
  "''email.bookingCancelled.client.subject'' \<in> set mail_keys"
  "''email.bookingCancelled.client.preview'' \<in> set mail_keys"
  "''email.bookingCancelled.client.heading'' \<in> set mail_keys"
  "''email.bookingCancelled.client.introByClient'' \<in> set mail_keys"
  "''email.bookingCancelled.client.introByCoach'' \<in> set mail_keys"
  "''email.bookingCancelled.client.reasonLabel'' \<in> set mail_keys"
  "''email.bookingCancelled.client.rebookHint'' \<in> set mail_keys"
  "''email.bookingCancelled.coach.subject'' \<in> set mail_keys"
  "''email.bookingCancelled.coach.preview'' \<in> set mail_keys"
  "''email.bookingCancelled.coach.heading'' \<in> set mail_keys"
  "''email.bookingCancelled.coach.introByClient'' \<in> set mail_keys"
  "''email.bookingCancelled.coach.introByCoach'' \<in> set mail_keys"
  "''email.bookingCancelled.coach.reasonLabel'' \<in> set mail_keys"
  "''email.bookingRescheduled.client.subject'' \<in> set mail_keys"
  "''email.bookingRescheduled.client.preview'' \<in> set mail_keys"
  "''email.bookingRescheduled.client.heading'' \<in> set mail_keys"
  "''email.bookingRescheduled.client.intro'' \<in> set mail_keys"
  "''email.bookingRescheduled.client.manageHint'' \<in> set mail_keys"
  "''email.bookingRescheduled.coach.subject'' \<in> set mail_keys"
  "''email.bookingRescheduled.coach.preview'' \<in> set mail_keys"
  "''email.bookingRescheduled.coach.heading'' \<in> set mail_keys"
  "''email.bookingRescheduled.coach.intro'' \<in> set mail_keys"
  by code_simp+

text \<open>Two libraries that give the same texts for these keys.\<close>

definition same_mail_texts :: "textLib \<Rightarrow> textLib \<Rightarrow> bool" where
  "same_mail_texts lib lib' \<longleftrightarrow>
    (\<forall>l vars. list_all (\<lambda>k. tx_getFixedT lib l k vars = tx_getFixedT lib' l k vars) mail_keys) \<and>
    tx_numberFormat lib = tx_numberFormat lib' \<and> tx_localeString lib = tx_localeString lib'"

lemma same_texts_t:
  assumes "same_mail_texts lib lib'" and "k \<in> set mail_keys"
  shows "i18n_t lib k l vars = i18n_t lib' k l vars"
  using assms unfolding same_mail_texts_def list_all_iff i18n_t_def by blast

lemma same_texts_rest:
  assumes "same_mail_texts lib lib'"
  shows "tx_numberFormat lib = tx_numberFormat lib'" "tx_localeString lib = tx_localeString lib'"
  using assms by (simp_all add: same_mail_texts_def)

lemma same_texts_details:
  assumes "same_mail_texts lib lib'"
  shows "buildDetails lib ctx l = buildDetails lib' ctx l"
    "buildManageLinks lib ctx l = buildManageLinks lib' ctx l"
proof -
  have t: "i18n_t lib k (Some l) vars = i18n_t lib' k (Some l) vars" if "k \<in> set mail_keys" for k vars
    by (rule same_texts_t [OF assms that])
  have "formatPriceHuf lib p l = formatPriceHuf lib' p l" for p
    unfolding formatPriceHuf_def fun_eq_iff same_texts_rest [OF assms] by simp
  moreover have "locationLabel lib ctx l = locationLabel lib' ctx l"
    unfolding locationLabel_def
    by (cases "cx_location ctx") (simp_all add: t mail_key)
  ultimately show "buildDetails lib ctx l = buildDetails lib' ctx l"
    by (simp add: buildDetails_def Let_def t mail_key same_texts_rest [OF assms])
  show "buildManageLinks lib ctx l = buildManageLinks lib' ctx l"
    by (simp add: buildManageLinks_def t mail_key)
qed

text \<open>
  Every text of every mail is one that both locale files have: the mails depend on the
  translations only at the keys of those files.
\<close>

theorem mails_translated:
  assumes "same_mail_texts lib lib'"
  shows "buildConfirmed lib ctx recipient l = buildConfirmed lib' ctx recipient l \<and>
    buildRescheduled lib ctx recipient l = buildRescheduled lib' ctx recipient l \<and>
    buildCancelled lib ctx recipient l = buildCancelled lib' ctx recipient l"
proof -
  have t: "i18n_t lib k (Some l) vars = i18n_t lib' k (Some l) vars" if "k \<in> set mail_keys" for k vars
    by (rule same_texts_t [OF assms that])
  have "buildScheduledEmail lib ctx recipient l kind = buildScheduledEmail lib' ctx recipient l kind" for kind
    by (cases recipient; cases kind)
      (simp_all add: buildScheduledEmail_def Let_def t mail_key same_texts_details [OF assms])
  moreover have "buildCancelled lib ctx recipient l = buildCancelled lib' ctx recipient l"
    by (cases recipient) (simp_all add: buildCancelled_def Let_def t mail_key same_texts_details [OF assms])
  ultimately show ?thesis by (simp add: buildConfirmed_def buildRescheduled_def)
qed

definition echo_texts :: textLib where
  "echo_texts = \<lparr> tx_getFixedT = (\<lambda>l k vars. k), tx_numberFormat = (\<lambda>l n. []),
     tx_localeString = (\<lambda>t z l. []) \<rparr>"

definition demo_context :: bookingEmailContext where
  "demo_context = \<lparr> cx_eventTypeTitle = ''Coaching'', cx_price = Some 15000, cx_clientName = ''Eva'',
     cx_coachName = ''Anna'', cx_startAt = 0, cx_endAt = 3600000, cx_durationMinutes = 60,
     cx_location = PHONE, cx_businessAddress = ''Pecs'', cx_meetLink = None, cx_clientPhone = ''+3630'',
     cx_timezone = ''Europe/Budapest'', cx_logoUrl = ''https://a.hu/email-logo.png'', cx_brandName = ''Anna'',
     cx_brandTagline = None, cx_palette = DEFAULT_EMAIL_PALETTE, cx_manageUrl = ''https://a.hu/?manage=m'',
     cx_googleCalendarUrl = ''https://g'', cx_cancelledBy = None, cx_cancellationReason = None \<rparr>"

lemma mails_translated_witness:
  "buildConfirmed echo_texts demo_context Client ''hu'' =
   buildConfirmed (echo_texts\<lparr>tx_getFixedT := \<lambda>l k vars. if k = ''missing'' then ''?'' else k\<rparr>) demo_context Client ''hu''"
proof -
  have "same_mail_texts echo_texts (echo_texts\<lparr>tx_getFixedT := \<lambda>l k vars. if k = ''missing'' then ''?'' else k\<rparr>)"
    by (simp add: same_mail_texts_def echo_texts_def mail_keys_def)
  from mails_translated [OF this] show ?thesis by blast
qed

section \<open>Reading the link back\<close>

text \<open>A reader of form-encoded text, and of the parameters of a query.\<close>

fun read_form :: "string \<Rightarrow> string" where
  "read_form [] = []"
| "read_form (c # s) =
    (if c = CHR ''%'' then
       (case s of
          h # l # s' \<Rightarrow> char_of (16 * hex_value h + hex_value l) # read_form s'
        | _ \<Rightarrow> [])
     else (if c = CHR ''+'' then CHR '' '' else c) # read_form s)"

fun split_on :: "char \<Rightarrow> string \<Rightarrow> string list" where
  "split_on c [] = [[]]"
| "split_on c (x # xs) =
    (if x = c then [] # split_on c xs
     else (case split_on c xs of [] \<Rightarrow> [[x]] | y # ys \<Rightarrow> (x # y) # ys))"

definition read_pair :: "string \<Rightarrow> string \<times> string" where
  "read_pair s = (read_form (takeWhile (\<lambda>c. c \<noteq> CHR ''='') s),
    read_form (tl (dropWhile (\<lambda>c. c \<noteq> CHR ''='') s)))"

lemma form_encode_Cons:
  "form_encode (c # s) =
    (if form_unreserved c then [c] else if c = CHR '' '' then ''+'' else percent c) @ form_encode s"
  by (simp add: form_encode_def)

lemma read_form_percent: "read_form (percent c @ s) = c # read_form s"
proof -
  have "of_char c div 16 < (16 :: nat)" using nat_of_char_less_256 [of c] by linarith
  moreover have "16 * (of_char c div 16) + of_char c mod 16 = (of_char c :: nat)" by simp
  ultimately show ?thesis by (simp add: percent_def hex_value_char)
qed

lemma read_form_encode: "read_form (form_encode s) = s"
proof (induction s)
  case Nil
  then show ?case by (simp add: form_encode_def)
next
  case (Cons c s)
  have "c \<noteq> CHR ''%'' \<and> c \<noteq> CHR ''+''" if "form_unreserved c"
    using that by (auto simp: form_unreserved_def)
  then show ?case
    using Cons read_form_percent [of c "form_encode s"]
    by (auto simp: form_encode_Cons)
qed

lemma form_encode_safe: "c \<in> {CHR ''&'', CHR ''=''} \<Longrightarrow> c \<notin> set (form_encode s)"
proof (induction s)
  case (Cons x s)
  have "CHR ''&'' \<notin> insert (CHR ''%'') (set hex_alphabet)" "CHR ''='' \<notin> insert (CHR ''%'') (set hex_alphabet)"
    by (simp_all add: hex_alphabet_def)
  then have "c \<notin> insert (CHR ''%'') (set hex_alphabet)" "c \<noteq> CHR ''+''" using Cons.prems by auto
  moreover have "c \<noteq> x" if "form_unreserved x" using that Cons.prems by (auto simp: form_unreserved_def)
  ultimately have "c \<notin> set (if form_unreserved x then [x] else if x = CHR '' '' then ''+'' else percent x)"
    using set_percent [of x] by (cases "form_unreserved x"; cases "x = CHR '' ''") auto
  with Cons.IH [OF Cons.prems] show ?case unfolding form_encode_Cons set_append by blast
qed (simp add: form_encode_def)

lemma read_pair_form: "read_pair (form_pair kv) = kv"
proof -
  have "takeWhile (\<lambda>c. c \<noteq> CHR ''='') (form_encode (fst kv) @ ''='' @ form_encode (snd kv)) = form_encode (fst kv)"
    using form_encode_safe [of "CHR ''=''"] by (subst takeWhile_append2) auto
  moreover have "dropWhile (\<lambda>c. c \<noteq> CHR ''='') (form_encode (fst kv) @ ''='' @ form_encode (snd kv)) =
      ''='' @ form_encode (snd kv)"
    using form_encode_safe [of "CHR ''=''"] by (subst dropWhile_append2) auto
  ultimately show ?thesis by (simp add: read_pair_def form_pair_def read_form_encode)
qed

lemma split_on_free: "c \<notin> set xs \<Longrightarrow> split_on c xs = [xs]"
  by (induction xs) auto

lemma split_on_at: "c \<notin> set xs \<Longrightarrow> split_on c (xs @ c # ys) = xs # split_on c ys"
  by (induction xs) auto

lemma form_pair_safe: "CHR ''&'' \<notin> set (form_pair kv)"
  using form_encode_safe [of "CHR ''&''"] by (simp add: form_pair_def)

lemma read_form_params: "kvs \<noteq> [] \<Longrightarrow> map read_pair (split_on (CHR ''&'') (form_params kvs)) = kvs"
proof (induction kvs rule: form_params.induct)
  case (2 kv)
  then show ?case by (simp add: split_on_free [OF form_pair_safe] read_pair_form)
next
  case (3 kv kv' kvs)
  then show ?case by (simp add: split_on_at [OF form_pair_safe] read_pair_form)
qed simp

text \<open>The instant a stamp names.\<close>

definition read_stamp :: "string \<Rightarrow> int option" where
  "read_stamp s =
    (case (digits_value (take 4 s), digits_value (take 2 (drop 4 s)), digits_value (take 2 (drop 6 s)),
           digits_value (take 2 (drop 9 s)), digits_value (take 2 (drop 11 s)),
           digits_value (take 2 (drop 13 s))) of
       (Some y, Some m, Some d, Some h, Some mi, Some sec) \<Rightarrow>
         Some (day_of_date (y, m, d) * ms_per_day + h * 3600000 + mi * 60000 + sec * 1000)
     | _ \<Rightarrow> None)"

lemma read_stamp_stamp:
  assumes "four_digit_day (ms div ms_per_day)"
  shows "read_stamp (toGoogleUtcStamp ms) = Some (ms div 1000 * 1000)"
proof -
  obtain y m d where c: "date_of_day (ms div ms_per_day) = (y, m, d)" by (cases "date_of_day (ms div ms_per_day)")
  note I = iso_date_parts [OF assms c]
  define r where "r = ms mod ms_per_day"
  have r: "0 \<le> r" "r < ms_per_day" by (simp_all add: r_def)
  have "r div 3600000 < 24" "0 \<le> r div 3600000" using r by (simp_all add: pos_imp_zdiv_nonneg_iff)
  then have v: "digits_value (pad 2 (nat (r div 3600000))) = Some (r div 3600000)"
    "digits_value (pad 2 (nat (r div 60000 mod 60))) = Some (r div 60000 mod 60)"
    "digits_value (pad 2 (nat (r div 1000 mod 60))) = Some (r div 1000 mod 60)"
    by (intro digits_value_pad_int; simp add: order.strict_trans2 [OF pos_mod_bound])+
  have w: "digits_value (pad 4 (nat y)) = Some y" "digits_value (pad 2 (nat m)) = Some m"
    "digits_value (pad 2 (nat d)) = Some d"
    using I by (auto simp: digits_value_pad simp del: pad.simps)
  have s: "toGoogleUtcStamp ms = pad 4 (nat y) @ pad 2 (nat m) @ pad 2 (nat d) @ ''T'' @
      pad 2 (nat (r div 3600000)) @ pad 2 (nat (r div 60000 mod 60)) @ pad 2 (nat (r div 1000 mod 60)) @ ''Z''"
    by (simp only: toGoogleUtcStamp_def c prod.case Let_def r_def)
  have "read_stamp (toGoogleUtcStamp ms) = Some (day_of_date (y, m, d) * ms_per_day +
      r div 3600000 * 3600000 + r div 60000 mod 60 * 60000 + r div 1000 mod 60 * 1000)"
    unfolding read_stamp_def s by (simp add: v w del: pad.simps day_of_date.simps)
  also have "day_of_date (y, m, d) = ms div ms_per_day" by (simp only: c [symmetric] day_of_date_of_day)
  finally have st: "read_stamp (toGoogleUtcStamp ms) = Some (ms div ms_per_day * ms_per_day +
      r div 3600000 * 3600000 + r div 60000 mod 60 * 60000 + r div 1000 mod 60 * 1000)" .
  have "ms mod 1000 = r mod 1000" by (simp add: r_def mod_mod_cancel)
  then have "ms div ms_per_day * ms_per_day + r div 3600000 * 3600000 + r div 60000 mod 60 * 60000 +
      r div 1000 mod 60 * 1000 = ms div 1000 * 1000"
    using ms_split [of r] div_mult_mod_eq [of ms ms_per_day] div_mult_mod_eq [of ms 1000]
    unfolding r_def by linarith
  with st show ?thesis by simp
qed

text \<open>
  The link that adds a booking to a calendar carries the title, the description and the
  place unchanged, whatever characters they hold, and the two instants to the second.
\<close>

theorem calendar_link_correct:
  assumes "four_digit_day (qa_startAt input div ms_per_day)" "four_digit_day (qa_endAt input div ms_per_day)"
  shows "\<exists>query a b.
    buildGoogleCalendarQuickAddUrl input = ''https://calendar.google.com/calendar/render?'' @ query \<and>
    map read_pair (split_on (CHR ''&'') query) =
      [(''action'', ''TEMPLATE''), (''text'', qa_title input), (''dates'', a @ ''/'' @ b),
       (''details'', case qa_description input of None \<Rightarrow> [] | Some d \<Rightarrow> d),
       (''location'', qa_location input)] \<and>
    read_stamp a = Some (qa_startAt input div 1000 * 1000) \<and>
    read_stamp b = Some (qa_endAt input div 1000 * 1000)"
  by (intro exI conjI, rule buildGoogleCalendarQuickAddUrl_def, rule read_form_params, simp)
    (rule read_stamp_stamp [OF assms(1)], rule read_stamp_stamp [OF assms(2)])

definition demo_input :: quickAddInput where
  "demo_input = \<lparr> qa_title = ''Tea & talk'', qa_description = Some ''a=b'', qa_location = ''Pecs'',
     qa_startAt = 0, qa_endAt = 3600000 \<rparr>"

lemma calendar_link_correct_witness:
  "\<exists>query. buildGoogleCalendarQuickAddUrl demo_input = ''https://calendar.google.com/calendar/render?'' @ query \<and>
    (''text'', ''Tea & talk'') \<in> set (map read_pair (split_on (CHR ''&'') query))"
proof -
  have "four_digit_day (qa_startAt demo_input div ms_per_day)" "four_digit_day (qa_endAt demo_input div ms_per_day)"
    by (simp_all add: demo_input_def four_digit_day_def)
  from calendar_link_correct [OF this] obtain query a b where
    "buildGoogleCalendarQuickAddUrl demo_input = ''https://calendar.google.com/calendar/render?'' @ query"
    "(''text'', qa_title demo_input) \<in> set (map read_pair (split_on (CHR ''&'') query))" by auto
  then show ?thesis by (auto simp: demo_input_def)
qed

end
