(* ===== verification/MailTemplate.thy ===== *)
theory MailTemplate
  imports EmailContent
begin

text \<open>
  The template of booking mails (templates/BookingEmail.tsx): the tree of components it
  returns, with the inline styles and the style sheet.  The tree names the components and
  their properties as the source does; what turns it into HTML is a library.  React keys
  and fragments, which leave no trace in the result, are omitted.
\<close>

section \<open>Trees of components\<close>

datatype styleValue = SText string | SNum int

type_synonym style = "(string \<times> styleValue) list"

datatype attr = AText string | ANum int | AStyle style

datatype node = Txt string | El string "(string \<times> attr) list" "node list"

abbreviation styled :: "style \<Rightarrow> string \<Rightarrow> (string \<times> attr) list" where
  "styled s cls \<equiv> [(''style'', AStyle s), (''className'', AText cls)]"

section \<open>Styles\<close>

definition serif :: string where
  "serif = ''\"Fraunces\", Georgia, \"Times New Roman\", serif''"

definition sans :: string where
  "sans = ''\"Work Sans\", Helvetica, Arial, sans-serif''"

definition buildStyles :: "emailPalette \<Rightarrow> (string \<times> style) list" where
  "buildStyles light =
    [ (''main'',
        [(''backgroundColor'', SText (ep_bg light)), (''fontFamily'', SText sans),
         (''padding'', SText ''24px 0'')]),
      (''container'',
        [(''backgroundColor'', SText (ep_bg light)), (''margin'', SText ''0 auto''),
         (''maxWidth'', SText ''480px''), (''borderRadius'', SText ''16px''),
         (''overflow'', SText ''hidden''), (''border'', SText (''1px solid '' @ ep_line light))]),
      (''letterhead'',
        [(''backgroundColor'', SText (ep_bgPanel light)), (''padding'', SText ''28px 32px 22px''),
         (''textAlign'', SText ''center''),
         (''borderBottom'', SText (''1px solid '' @ ep_line light))]),
      (''logo'',
        [(''display'', SText ''block''), (''margin'', SText ''0 auto 10px'')]),
      (''brandName'',
        [(''fontFamily'', SText serif), (''fontWeight'', SNum 480),
         (''letterSpacing'', SText ''-0.01em''), (''fontSize'', SText ''22px''),
         (''color'', SText (ep_ink light)), (''margin'', SNum 0)]),
      (''brandTagline'',
        [(''fontFamily'', SText sans), (''fontSize'', SText ''13px''),
         (''color'', SText (ep_inkSoft light)), (''margin'', SText ''4px 0 0'')]),
      (''content'',
        [(''padding'', SText ''32px'')]),
      (''h1'',
        [(''fontFamily'', SText serif), (''fontWeight'', SNum 480),
         (''letterSpacing'', SText ''-0.01em''), (''fontSize'', SText ''21px''),
         (''color'', SText (ep_ink light)), (''margin'', SText ''0 0 16px'')]),
      (''text'',
        [(''fontSize'', SText ''15px''), (''color'', SText (ep_inkSoft light)),
         (''lineHeight'', SText ''22px'')]),
      (''card'',
        [(''backgroundColor'', SText (ep_bgCard light)),
         (''border'', SText (''1px solid '' @ ep_line light)), (''borderRadius'', SText ''10px''),
         (''padding'', SText ''16px''), (''marginTop'', SText ''16px'')]),
      (''cardHeading'',
        [(''fontFamily'', SText sans), (''fontSize'', SText ''12px''), (''fontWeight'', SNum 600),
         (''color'', SText (ep_brown light)), (''textTransform'', SText ''uppercase''),
         (''letterSpacing'', SText ''0.04em''), (''margin'', SText ''0 0 8px'')]),
      (''noteCard'',
        [(''backgroundColor'', SText (ep_bgPanel light)),
         (''border'', SText (''1px solid '' @ ep_accentSoft light)),
         (''borderRadius'', SText ''10px''), (''padding'', SText ''16px''),
         (''marginTop'', SText ''12px'')]),
      (''detailRow'',
        [(''fontSize'', SText ''14px''), (''color'', SText (ep_inkSoft light)),
         (''margin'', SText ''4px 0'')]),
      (''buttonSection'',
        [(''textAlign'', SText ''center''), (''marginTop'', SText ''24px'')]),
      (''buttonPrimary'',
        [(''backgroundColor'', SText (ep_accent light)), (''color'', SText ''#ffffff''),
         (''padding'', SText ''12px 22px''), (''borderRadius'', SText ''999px''),
         (''fontFamily'', SText sans), (''fontWeight'', SNum 500), (''fontSize'', SText ''14px''),
         (''textDecoration'', SText ''none''), (''margin'', SText ''0 8px''),
         (''display'', SText ''inline-block'')]),
      (''buttonSecondary'',
        [(''backgroundColor'', SText (ep_bgCard light)), (''color'', SText (ep_ink light)),
         (''border'', SText (''1px solid '' @ ep_ink light)), (''padding'', SText ''12px 22px''),
         (''borderRadius'', SText ''999px''), (''fontFamily'', SText sans),
         (''fontWeight'', SNum 500), (''fontSize'', SText ''14px''),
         (''textDecoration'', SText ''none''), (''margin'', SText ''0 8px''),
         (''display'', SText ''inline-block'')]),
      (''calendarNote'',
        [(''textAlign'', SText ''center''), (''marginTop'', SText ''10px''),
         (''fontSize'', SText ''13px''), (''color'', SText (ep_inkSoft light)),
         (''lineHeight'', SText ''18px'')]),
      (''manageLinksRow'',
        [(''textAlign'', SText ''center''), (''marginTop'', SText ''24px''),
         (''fontSize'', SText ''13px''), (''color'', SText (ep_inkSoft light))]),
      (''manageLink'',
        [(''color'', SText (ep_inkSoft light)), (''textDecoration'', SText ''underline'')]),
      (''manageLinksSep'',
        [(''color'', SText (ep_line light))]),
      (''hr'',
        [(''borderColor'', SText (ep_line light)), (''marginTop'', SText ''32px'')]),
      (''footerText'',
        [(''fontSize'', SText ''12px''), (''color'', SText (ep_inkSoft light))]) ]"

definition buildFontAndDarkModeCss :: "emailBrandPalette \<Rightarrow> string" where
  "buildFontAndDarkModeCss palette =
    (let dark = bp_dark palette in html_lines [
       ''  @import url('' @ [CHR 0x27] @
         ''https://fonts.googleapis.com/css2?family=Fraunces:opsz,wght@9..144,480;9..144,560&family=Work+Sans:wght@400;500;600&display=swap'' @
         [CHR 0x27] @ '');'',
       [],
       ''  @media (prefers-color-scheme: dark) {'',
       ''    .bcc-body { background-color: '' @ ep_bg dark @ '' !important; }'',
       ''    .bcc-container { background-color: '' @ ep_bg dark @ '' !important; }'',
       ''    .bcc-letterhead { background-color: '' @ ep_bgPanel dark @
         '' !important; border-bottom-color: '' @ ep_line dark @ '' !important; }'',
       ''    .bcc-brand-name { color: '' @ ep_ink dark @ '' !important; }'',
       ''    .bcc-brand-tagline { color: '' @ ep_inkSoft dark @ '' !important; }'',
       ''    .bcc-h1, .bcc-detail strong { color: '' @ ep_ink dark @ '' !important; }'',
       ''    .bcc-text, .bcc-detail { color: '' @ ep_inkSoft dark @ '' !important; }'',
       ''    .bcc-card { background-color: '' @ ep_bgCard dark @ '' !important; border-color: '' @
         ep_line dark @ '' !important; }'',
       ''    .bcc-card-heading { color: '' @ ep_brown dark @ '' !important; }'',
       ''    .bcc-note { background-color: '' @ ep_bgPanel dark @ '' !important; border-color: '' @
         ep_accentSoft dark @ '' !important; }'',
       ''    .bcc-hr { border-color: '' @ ep_line dark @ '' !important; }'',
       ''    .bcc-footer { color: '' @ ep_inkSoft dark @ '' !important; }'',
       ''    .bcc-manage-links { color: '' @ ep_inkSoft dark @ '' !important; }'',
       ''    .bcc-button-secondary { background-color: '' @ ep_bgCard dark @
         '' !important; color: '' @ ep_ink dark @ '' !important; border-color: '' @ ep_line dark @
         '' !important; }'',
       ''  }'',
       []])"

section \<open>The mail\<close>

text \<open>\<open>{x && <...>}\<close> on a text: an absent and an empty text render nothing.\<close>

definition shown :: "string option \<Rightarrow> (string \<Rightarrow> node) \<Rightarrow> node list" where
  "shown x f = (if truthy x then [f (the x)] else [])"

definition detail_texts :: "labelled \<Rightarrow> node list" where
  "detail_texts d = [El ''strong'' [] [Txt (lb_label d), Txt '':''], Txt '' '', Txt (lb_value d)]"

definition manage_row :: "(string \<Rightarrow> style) \<Rightarrow> link list \<Rightarrow> node list" where
  "manage_row st links =
    concat (map (\<lambda>(i, l).
        (if 0 < i then [El ''span'' (styled (st ''manageLinksSep'') ''bcc-manage-links'')
                          [Txt '' '', Txt ([CHR 0xC2, CHR 0xB7]), Txt '' '']]
         else []) @
        [El ''a'' ((''href'', AText (ln_url l)) # styled (st ''manageLink'') ''bcc-manage-links'')
           [Txt (ln_label l)]])
      (enumerate 0 links))"

definition buttons :: "(string \<Rightarrow> style) \<Rightarrow> link option \<Rightarrow> link option \<Rightarrow> node list" where
  "buttons st primaryButton secondaryButton =
    (if primaryButton \<noteq> None \<or> secondaryButton \<noteq> None then
       [El ''Section'' [(''style'', AStyle (st ''buttonSection''))]
          ((case primaryButton of None \<Rightarrow> []
            | Some b \<Rightarrow> [El ''Button'' [(''href'', AText (ln_url b)), (''style'', AStyle (st ''buttonPrimary''))]
                [Txt (ln_label b)]]) @
           (case secondaryButton of None \<Rightarrow> []
            | Some b \<Rightarrow> [El ''Button'' ((''href'', AText (ln_url b)) #
                  styled (st ''buttonSecondary'') ''bcc-button-secondary'') [Txt (ln_label b)]]))]
     else [])"

definition letterhead :: "(string \<Rightarrow> style) \<Rightarrow> bookingEmailProps \<Rightarrow> node" where
  "letterhead st p =
    El ''Section'' (styled (st ''letterhead'') ''bcc-letterhead'')
      ([El ''Img'' [(''src'', AText (pr_logoUrl p)), (''width'', ANum 56), (''height'', ANum 56),
          (''alt'', AText (pr_brandName p)), (''style'', AStyle (st ''logo''))] [],
        El ''Text'' (styled (st ''brandName'') ''bcc-brand-name'') [Txt (pr_brandName p)]] @
       shown (pr_brandTagline p)
         (\<lambda>t. El ''Text'' (styled (st ''brandTagline'') ''bcc-brand-tagline'') [Txt t]))"

definition mail_content :: "(string \<Rightarrow> style) \<Rightarrow> bookingEmailProps \<Rightarrow> node" where
  "mail_content st p =
    El ''Section'' [(''style'', AStyle (st ''content''))]
      ([El ''Heading'' (styled (st ''h1'') ''bcc-h1'') [Txt (pr_heading p)],
        El ''Text'' (styled (st ''text'') ''bcc-text'') [Txt (pr_intro p)],
        El ''Section'' (styled (st ''card'') ''bcc-card'')
          (El ''Text'' (styled (st ''cardHeading'') ''bcc-card-heading'') [Txt (pr_detailsHeading p)] #
           map (\<lambda>d. El ''Text'' (styled (st ''detailRow'') ''bcc-detail'') (detail_texts d)) (pr_details p))] @
       (case pr_note p of None \<Rightarrow> []
        | Some n \<Rightarrow> [El ''Section'' (styled (st ''noteCard'') ''bcc-note'')
            [El ''Text'' (styled (st ''detailRow'') ''bcc-detail'') (detail_texts n)]]) @
       shown (pr_helperText p) (\<lambda>t. El ''Text'' (styled (st ''text'') ''bcc-text'') [Txt t]) @
       buttons st (pr_primaryButton p) (pr_secondaryButton p) @
       shown (pr_calendarNote p) (\<lambda>t. El ''Text'' (styled (st ''calendarNote'') ''bcc-manage-links'') [Txt t]) @
       (case pr_manageLinks p of None \<Rightarrow> []
        | Some links \<Rightarrow>
            if 0 < length links
            then [El ''Text'' (styled (st ''manageLinksRow'') ''bcc-manage-links'') (manage_row st links)]
            else []) @
       [El ''Hr'' (styled (st ''hr'') ''bcc-hr'') [],
        El ''Text'' (styled (st ''footerText'') ''bcc-footer'') [Txt (pr_footer p)]])"

definition BookingEmail :: "bookingEmailProps \<Rightarrow> node" where
  "BookingEmail p =
    (let styles = buildStyles (bp_light (pr_palette p));
         st = (\<lambda>name. the (map_of styles name))
     in El ''Html'' []
       [El ''Head'' [] [El ''style'' [] [Txt (buildFontAndDarkModeCss (pr_palette p))]],
        El ''Preview'' [] [Txt (pr_previewText p)],
        El ''Body'' (styled (st ''main'') ''bcc-body'')
          [El ''Container'' (styled (st ''container'') ''bcc-container'')
             [letterhead st p, mail_content st p]]])"

section \<open>Links\<close>

fun href_of :: "string \<times> attr \<Rightarrow> string list" where
  "href_of (k, AText u) = (if k = ''href'' then [u] else [])"
| "href_of _ = []"

fun hrefs :: "node \<Rightarrow> string list" where
  "hrefs (Txt s) = []"
| "hrefs (El n as ks) = concat (map href_of as) @ concat (map hrefs ks)"

lemma hrefs_details: "concat (map hrefs (detail_texts d)) = []"
  by (simp add: detail_texts_def)

lemma hrefs_detail_rows:
  "concat (map (hrefs \<circ> (\<lambda>d. El ''Text'' (styled s c) (detail_texts d))) ds) = []"
  by (induction ds) (simp_all add: hrefs_details)

lemma hrefs_manage_row: "concat (map hrefs (manage_row st links)) = map ln_url links"
proof -
  have "concat (map hrefs (concat (map (\<lambda>(i, l).
        (if 0 < i then [El ''span'' (styled (st ''manageLinksSep'') ''bcc-manage-links'')
                          [Txt '' '', Txt ([CHR 0xC2, CHR 0xB7]), Txt '' '']]
         else []) @
        [El ''a'' ((''href'', AText (ln_url l)) # styled (st ''manageLink'') ''bcc-manage-links'')
           [Txt (ln_label l)]]) (enumerate n links)))) = map ln_url links" for n
    by (induction links arbitrary: n) simp_all
  then show ?thesis by (simp add: manage_row_def)
qed

lemma hrefs_buttons:
  "concat (map hrefs (buttons st p s)) =
    (case p of None \<Rightarrow> [] | Some b \<Rightarrow> [ln_url b]) @ (case s of None \<Rightarrow> [] | Some b \<Rightarrow> [ln_url b])"
  by (cases p; cases s) (simp_all add: buttons_def)

lemma hrefs_shown: "(\<And>t. hrefs (f t) = []) \<Longrightarrow> concat (map hrefs (shown x f)) = []"
  by (simp add: shown_def)

lemma hrefs_BookingEmail:
  "hrefs (BookingEmail p) =
    (case pr_primaryButton p of None \<Rightarrow> [] | Some b \<Rightarrow> [ln_url b]) @
    (case pr_secondaryButton p of None \<Rightarrow> [] | Some b \<Rightarrow> [ln_url b]) @
    (case pr_manageLinks p of None \<Rightarrow> [] | Some ls \<Rightarrow> map ln_url ls)"
proof -
  have "hrefs (letterhead st p) = []" for st
    by (simp add: letterhead_def hrefs_shown)
  moreover have "hrefs (mail_content st p) =
    (case pr_primaryButton p of None \<Rightarrow> [] | Some b \<Rightarrow> [ln_url b]) @
    (case pr_secondaryButton p of None \<Rightarrow> [] | Some b \<Rightarrow> [ln_url b]) @
    (case pr_manageLinks p of None \<Rightarrow> [] | Some ls \<Rightarrow> map ln_url ls)" for st
    by (cases "pr_note p"; cases "pr_manageLinks p")
      (simp_all add: mail_content_def hrefs_shown hrefs_buttons hrefs_manage_row hrefs_detail_rows hrefs_details)
  ultimately show ?thesis by (simp add: BookingEmail_def Let_def)
qed

lemma details_manage: "buildDetails lib (ctx\<lparr>cx_manageUrl := u\<rparr>) l = buildDetails lib ctx l"
  by (cases "cx_location ctx") (simp_all add: buildDetails_def locationLabel_def)

lemma details_calendar: "buildDetails lib (ctx\<lparr>cx_googleCalendarUrl := u\<rparr>) l = buildDetails lib ctx l"
  by (cases "cx_location ctx") (simp_all add: buildDetails_def locationLabel_def)

lemma coach_scheduled_manage:
  "buildScheduledEmail lib (ctx\<lparr>cx_manageUrl := u\<rparr>) ToCoach l k = buildScheduledEmail lib ctx ToCoach l k"
  by (simp add: buildScheduledEmail_def details_manage Let_def)

lemma cancelled_manage: "buildCancelled lib (ctx\<lparr>cx_manageUrl := u\<rparr>) r l = buildCancelled lib ctx r l"
  by (cases r) (simp_all add: buildCancelled_def details_manage Let_def)

lemma scheduled_links:
  "hrefs (BookingEmail (snd (buildScheduledEmail lib ctx Client l k))) =
    [cx_googleCalendarUrl ctx, cx_manageUrl ctx @ ''&action=cancel#idopontfoglalas'',
     cx_manageUrl ctx @ ''&action=reschedule#idopontfoglalas'']"
  "hrefs (BookingEmail (snd (buildScheduledEmail lib ctx ToCoach l k))) = [cx_googleCalendarUrl ctx]"
  by (simp_all add: hrefs_BookingEmail buildScheduledEmail_def buildManageLinks_def Let_def)

text \<open>
  C39: the client's mail links to the calendar, to the cancellation and to the rescheduling of
  the booking, in this order; the coach's mail links to the calendar only and shows nothing of
  the address that manages the booking; a cancellation's mail, to either, has no link and
  shows nothing of that address.
\<close>

theorem mail_links_correct:
  "hrefs (BookingEmail (snd (buildConfirmed lib ctx Client l))) =
     [cx_googleCalendarUrl ctx, cx_manageUrl ctx @ ''&action=cancel#idopontfoglalas'',
      cx_manageUrl ctx @ ''&action=reschedule#idopontfoglalas''] \<and>
   hrefs (BookingEmail (snd (buildRescheduled lib ctx Client l))) =
     [cx_googleCalendarUrl ctx, cx_manageUrl ctx @ ''&action=cancel#idopontfoglalas'',
      cx_manageUrl ctx @ ''&action=reschedule#idopontfoglalas''] \<and>
   hrefs (BookingEmail (snd (buildConfirmed lib ctx ToCoach l))) = [cx_googleCalendarUrl ctx] \<and>
   hrefs (BookingEmail (snd (buildRescheduled lib ctx ToCoach l))) = [cx_googleCalendarUrl ctx] \<and>
   hrefs (BookingEmail (snd (buildCancelled lib ctx recipient l))) = [] \<and>
   buildConfirmed lib (ctx\<lparr>cx_manageUrl := u\<rparr>) ToCoach l = buildConfirmed lib ctx ToCoach l \<and>
   buildRescheduled lib (ctx\<lparr>cx_manageUrl := u\<rparr>) ToCoach l = buildRescheduled lib ctx ToCoach l \<and>
   buildCancelled lib (ctx\<lparr>cx_manageUrl := u\<rparr>) recipient l = buildCancelled lib ctx recipient l"
proof -
  have "hrefs (BookingEmail (snd (buildCancelled lib ctx recipient l))) = []"
    by (cases recipient) (simp_all add: hrefs_BookingEmail buildCancelled_def Let_def)
  then show ?thesis
    by (simp add: buildConfirmed_def buildRescheduled_def scheduled_links coach_scheduled_manage cancelled_manage)
qed

section \<open>The style sheet\<close>

text \<open>The characters that give a style sheet its structure, and those that could leave it.\<close>

definition structural :: "char \<Rightarrow> bool" where
  "structural c \<longleftrightarrow> c \<in> set ''{}:;,@()<>!/*'' \<or> c = CHR 0x22 \<or> c = CHR 0x27 \<or> c = CHR 0x5C \<or> c = CHR 0x0A"

definition palette_colours :: "emailPalette \<Rightarrow> string list" where
  "palette_colours p = [ep_bg p, ep_bgPanel p, ep_bgCard p, ep_ink p, ep_inkSoft p, ep_accent p,
     ep_accentSoft p, ep_line p, ep_brown p]"

definition hex_palette :: "emailPalette \<Rightarrow> bool" where
  "hex_palette p \<longleftrightarrow> list_all HEX_COLOR_RE (palette_colours p)"

lemma hex_digit_not_structural: "hex_digit c \<Longrightarrow> \<not> structural c"
  by (auto simp: structural_def hex_digit_def Let_def)

lemma hex_colour_plain: "HEX_COLOR_RE s \<Longrightarrow> filter structural s = []"
proof -
  assume h: "HEX_COLOR_RE s"
  then obtain ds where "s = CHR ''#'' # ds" "list_all hex_digit ds"
    by (cases s) (auto simp: HEX_COLOR_RE_def)
  moreover have "\<not> structural (CHR ''#'')" by (simp add: structural_def)
  ultimately show ?thesis
    by (auto simp: list_all_iff hex_digit_not_structural intro!: filter_False)
qed

lemma hex_palette_plain:
  assumes "hex_palette p"
  shows "filter structural (ep_bg p) = []" "filter structural (ep_bgPanel p) = []"
    "filter structural (ep_bgCard p) = []" "filter structural (ep_ink p) = []"
    "filter structural (ep_inkSoft p) = []" "filter structural (ep_accentSoft p) = []"
    "filter structural (ep_line p) = []" "filter structural (ep_brown p) = []"
  using assms by (simp_all add: hex_palette_def palette_colours_def hex_colour_plain)

lemma css_structure:
  assumes "hex_palette (bp_dark p)" and "hex_palette (bp_dark q)"
  shows "filter structural (buildFontAndDarkModeCss p) = filter structural (buildFontAndDarkModeCss q)"
proof -
  have cons: "html_lines (l # ls) = [CHR 0x0A] @ l @ html_lines ls" for l ls by (simp add: html_lines_simps)
  show ?thesis
    unfolding buildFontAndDarkModeCss_def Let_def cons html_lines_simps(1) filter_append
      hex_palette_plain [OF assms(1)] hex_palette_plain [OF assms(2)] append_Nil ..
qed

text \<open>The palette of a coach, as it is read back from its column.\<close>

definition colour_of :: "json \<Rightarrow> string \<Rightarrow> string" where
  "colour_of v k = (case json_field v k of JStr s \<Rightarrow> s | _ \<Rightarrow> ''undefined'')"

definition palette_of :: "json \<Rightarrow> emailPalette" where
  "palette_of v = \<lparr> ep_bg = colour_of v ''bg'', ep_bgPanel = colour_of v ''bgPanel'',
     ep_bgCard = colour_of v ''bgCard'', ep_ink = colour_of v ''ink'', ep_inkSoft = colour_of v ''inkSoft'',
     ep_accent = colour_of v ''accent'', ep_accentSoft = colour_of v ''accentSoft'',
     ep_line = colour_of v ''line'', ep_brown = colour_of v ''brown'' \<rparr>"

definition brand_palette :: "json option \<Rightarrow> emailBrandPalette" where
  "brand_palette v =
    (case v of
       None \<Rightarrow> DEFAULT_EMAIL_PALETTE
     | Some JNull \<Rightarrow> DEFAULT_EMAIL_PALETTE
     | Some j \<Rightarrow> \<lparr> bp_light = palette_of (json_field j ''light''), bp_dark = palette_of (json_field j ''dark'') \<rparr>)"

lemma colour_hex:
  "(case json_field v k of JStr s \<Rightarrow> HEX_COLOR_RE s | _ \<Rightarrow> False) = (HEX_COLOR_RE (colour_of v k) \<and> (\<exists>s. json_field v k = JStr s))"
  by (cases "json_field v k") (simp_all add: colour_of_def)

lemma valid_palette_hex: "isValidPalette v \<Longrightarrow> hex_palette (palette_of v)"
  by (simp add: isValidPalette_def PALETTE_KEYS_def hex_palette_def palette_colours_def palette_of_def colour_hex)

lemma default_palette_hex:
  "hex_palette (bp_light DEFAULT_EMAIL_PALETTE)" "hex_palette (bp_dark DEFAULT_EMAIL_PALETTE)"
  by (simp_all add: DEFAULT_EMAIL_PALETTE_def hex_palette_def palette_colours_def HEX_COLOR_RE_def hex_digit_def)

lemma brand_palette_hex:
  assumes "settings_wf s"
  shows "hex_palette (bp_light (brand_palette (s_emailBrandPalette s)))"
    "hex_palette (bp_dark (brand_palette (s_emailBrandPalette s)))"
  using assms
  by (auto simp: settings_wf_def brand_palette_def default_palette_hex valid_palette_hex
      isValidEmailBrandPalette_def split: option.splits json.splits)

lemma settings_update_wf:
  assumes "\<forall>s \<in> set (settingsRows w). settings_wf s" and "valid_settings_dto dto"
    and "settings_update k dto w = (x, w')"
  shows "\<forall>s \<in> set (settingsRows w'). settings_wf s"
proof -
  obtain y w1 where g: "settings_get k w = (y, w1)" by fastforce
  have wf1: "\<forall>s \<in> set (settingsRows w1). settings_wf s" by (rule settings_get_wf [OF assms(1) g])
  show ?thesis
  proof (cases y)
    case (Inl e)
    then show ?thesis using assms(3) g wf1 by (simp add: settings_update_def)
  next
    case (Inr s)
    then show ?thesis
      using assms(2,3) g wf1
      by (auto simp: settings_update_def set_updateRow apply_settings_wf split: if_splits option.splits)
  qed
qed

end
