(* ===== verification/Notifications.thy ===== *)
theory Notifications
  imports MailTemplate Demo
begin

text \<open>
  The mails about a booking (notifications.service.ts, ics.util.ts, email.service.ts
  \<open>send\<close>).  A mail is put together from the booking with its event type and its coach and
  from the coach's settings, and sent to the client and to the coach.

  The record \<open>notifier\<close> holds what is outside the program: the texts, the mail services,
  the renderer of component trees and the writer of calendar files.
\<close>

section \<open>The calendar file (ics.util.ts)\<close>

record person =
  ps_name :: string
  ps_email :: string

record icsInput =
  ic_uid :: string
  ic_title :: string
  ic_description :: "string option"
  ic_location :: string
  ic_startAt :: int
  ic_endAt :: int
  ic_organizer :: person
  ic_attendee :: person

record icsEvent =
  ie_uid :: string
  ie_title :: string
  ie_description :: "string option"
  ie_location :: string
  ie_start :: "int list"
  ie_end :: "int list"
  ie_organizer :: person
  ie_attendees :: "(person \<times> bool) list"  \<comment> \<open>with rsvp\<close>
  ie_status :: string

text \<open>\<open>createEvent\<close> answers with an error and a value, either of which may be missing.\<close>

type_synonym ics_writer = "icsEvent \<Rightarrow> string option \<times> string option"

definition toUtcArray :: "int \<Rightarrow> int list" where
  "toUtcArray ms =
    (case date_of_day (ms div ms_per_day) of (y, m, d) \<Rightarrow>
      [y, m, d, ms mod ms_per_day div 3600000, ms mod ms_per_day div 60000 mod 60])"

definition ics_event :: "icsInput \<Rightarrow> icsEvent" where
  "ics_event input =
    \<lparr> ie_uid = ic_uid input, ie_title = ic_title input, ie_description = ic_description input,
      ie_location = ic_location input, ie_start = toUtcArray (ic_startAt input),
      ie_end = toUtcArray (ic_endAt input), ie_organizer = ic_organizer input,
      ie_attendees = [(ic_attendee input, False)], ie_status = ''CONFIRMED'' \<rparr>"

definition buildIcsFile :: "ics_writer \<Rightarrow> icsInput \<Rightarrow> err + string" where
  "buildIcsFile createEvent input =
    (case createEvent (ics_event input) of (error, value) \<Rightarrow>
      if error \<noteq> None \<or> \<not> truthy value
      then Inl (PlainError (case error of Some e \<Rightarrow> e | None \<Rightarrow> ''Failed to build ICS file''))
      else Inr (the value))"

section \<open>The service (notifications.service.ts)\<close>

record notifier =
  nt_texts :: textLib
  nt_mailer :: mailer
  nt_render :: "node \<Rightarrow> string"
  nt_ics :: ics_writer

record bookingWithRelations =
  bw_booking :: booking
  bw_eventType :: eventType
  bw_coach :: coach

record sendEmailInput =
  se_to :: string
  se_subject :: string
  se_props :: bookingEmailProps
  se_icsContent :: "string option"
  se_icsFilename :: "string option"
  se_from :: "string option"

text \<open>EmailService.send: the template is rendered and delivered.\<close>

definition send :: "mailer \<Rightarrow> (node \<Rightarrow> string) \<Rightarrow> sendEmailInput \<Rightarrow> world \<Rightarrow> (world, unit) outcome" where
  "send ml render input w =
    deliver ml \<lparr> di_to = se_to input, di_subject = se_subject input,
      di_html = render (BookingEmail (se_props input)), di_icsContent = se_icsContent input,
      di_icsFilename = se_icsFilename input, di_from = se_from input \<rparr> w"

definition resolveLocationText :: "booking \<Rightarrow> string \<Rightarrow> string" where
  "resolveLocationText b businessAddress =
    (case b_location b of
       GOOGLE_MEET \<Rightarrow> (case b_meetLink b of None \<Rightarrow> [] | Some l \<Rightarrow> l)
     | PHONE \<Rightarrow> ''Telefon''
     | IN_PERSON \<Rightarrow> businessAddress)"

definition buildContext :: "bookingWithRelations \<Rightarrow> settings \<Rightarrow> bookingEmailContext" where
  "buildContext bk settings =
    (let b = bw_booking bk; et = bw_eventType bk; c = bw_coach bk;
         frontendUrl = (case b_originUrl b of None \<Rightarrow> [] | Some u \<Rightarrow> u)
     in \<lparr> cx_eventTypeTitle = et_title et, cx_price = et_price et, cx_clientName = b_clientName b,
          cx_coachName = c_name c, cx_startAt = b_startAt b, cx_endAt = b_endAt b,
          cx_durationMinutes = et_durationMinutes et, cx_location = b_location b,
          cx_businessAddress = s_businessAddress settings, cx_meetLink = b_meetLink b,
          cx_clientPhone = b_clientPhone b, cx_timezone = s_businessTimezone settings,
          cx_logoUrl = frontendUrl @ ''/email-logo.png'',
          cx_brandName = (case s_brandName settings of None \<Rightarrow> c_name c | Some n \<Rightarrow> n),
          cx_brandTagline = s_brandTagline settings,
          cx_palette = brand_palette (s_emailBrandPalette settings),
          cx_manageUrl = frontendUrl @ ''/?manage='' @ b_manageToken b,
          cx_googleCalendarUrl = buildGoogleCalendarQuickAddUrl
            \<lparr> qa_title = et_title et, qa_description = b_clientNote b,
              qa_location = resolveLocationText b (s_businessAddress settings),
              qa_startAt = b_startAt b, qa_endAt = b_endAt b \<rparr>,
          cx_cancelledBy = b_cancelledBy b, cx_cancellationReason = b_cancellationReason b \<rparr>)"

definition booking_ics :: "bookingWithRelations \<Rightarrow> string \<Rightarrow> icsInput" where
  "booking_ics bk businessAddress =
    (let b = bw_booking bk; c = bw_coach bk
     in \<lparr> ic_uid = b_id b @ ''@betti-coaching-calendar'', ic_title = et_title (bw_eventType bk),
          ic_description = b_clientNote b, ic_location = resolveLocationText b businessAddress,
          ic_startAt = b_startAt b, ic_endAt = b_endAt b,
          ic_organizer = \<lparr> ps_name = c_name c, ps_email = c_email c \<rparr>,
          ic_attendee = \<lparr> ps_name = b_clientName b, ps_email = b_clientEmail b \<rparr> \<rparr>)"

definition mail_content_of ::
  "textLib \<Rightarrow> notificationKind \<Rightarrow> bookingEmailContext \<Rightarrow> emailRecipient \<Rightarrow> string \<Rightarrow> string \<times> bookingEmailProps" where
  "mail_content_of lib kind ctx recipient locale_name =
    (case kind of
       Confirmed \<Rightarrow> buildConfirmed lib ctx recipient locale_name
     | Cancelled \<Rightarrow> buildCancelled lib ctx recipient locale_name
     | Rescheduled \<Rightarrow> buildRescheduled lib ctx recipient locale_name)"

definition sendTo ::
  "notifier \<Rightarrow> emailRecipient \<Rightarrow> notificationKind \<Rightarrow> bookingWithRelations \<Rightarrow> bookingEmailContext \<Rightarrow>
   string option \<Rightarrow> world \<Rightarrow> (world, unit) outcome" where
  "sendTo nt recipient kind bk ctx emailFrom w =
    (let b = bw_booking bk; c = bw_coach bk;
         locale_name = (case recipient of Client \<Rightarrow> b_locale b | ToCoach \<Rightarrow> c_preferredLocale c);
         to_addr = (case recipient of Client \<Rightarrow> b_clientEmail b | ToCoach \<Rightarrow> c_email c)
     in case mail_content_of (nt_texts nt) kind ctx recipient locale_name of (subject, props) \<Rightarrow>
        (case (if kind = Cancelled then Inr None
               else map_sum id Some (buildIcsFile (nt_ics nt) (booking_ics bk (cx_businessAddress ctx)))) of
           Inl e \<Rightarrow> (Inl e, w)
         | Inr ics \<Rightarrow>
             send (nt_mailer nt) (nt_render nt)
               \<lparr> se_to = to_addr, se_subject = subject, se_props = props, se_icsContent = ics,
                 se_icsFilename = Some ''booking.ics'', se_from = emailFrom \<rparr> w))"

text \<open>
  \<open>Promise.all\<close> of two sends: both are started, both run to their end, and the whole fails
  when one does.  The log keeps the client's mail first.
\<close>

definition both ::
  "('w \<Rightarrow> ('w, unit) outcome) \<Rightarrow> ('w \<Rightarrow> ('w, unit) outcome) \<Rightarrow> 'w \<Rightarrow> ('w, unit) outcome" where
  "both a b w =
    (case a w of (x, w1) \<Rightarrow> case b w1 of (y, w2) \<Rightarrow>
      (case x of Inl e \<Rightarrow> (Inl e, w2) | Inr _ \<Rightarrow> (y, w2)))"

definition notifyBooking ::
  "notifier \<Rightarrow> notificationKind \<Rightarrow> bookingWithRelations \<Rightarrow> world \<Rightarrow> (world, unit) outcome" where
  "notifyBooking nt kind bk w =
    andThen (settings_get (b_coachId (bw_booking bk)) w) (\<lambda>settings w.
      let ctx = buildContext bk settings
      in both (sendTo nt Client kind bk ctx (s_emailFrom settings))
              (sendTo nt ToCoach kind bk ctx (s_emailFrom settings)) w)"

definition notifyBookingConfirmed :: "notifier \<Rightarrow> bookingWithRelations \<Rightarrow> world \<Rightarrow> (world, unit) outcome" where
  "notifyBookingConfirmed nt = notifyBooking nt Confirmed"

definition notifyBookingCancelled :: "notifier \<Rightarrow> bookingWithRelations \<Rightarrow> world \<Rightarrow> (world, unit) outcome" where
  "notifyBookingCancelled nt = notifyBooking nt Cancelled"

definition notifyBookingRescheduled :: "notifier \<Rightarrow> bookingWithRelations \<Rightarrow> world \<Rightarrow> (world, unit) outcome" where
  "notifyBookingRescheduled nt = notifyBooking nt Rescheduled"

section \<open>What a mail consists of\<close>

definition sender_of :: "string option \<Rightarrow> string option" where
  "sender_of emailFrom = (if truthy emailFrom then emailFrom else None)"

definition booking_mail ::
  "notifier \<Rightarrow> emailRecipient \<Rightarrow> notificationKind \<Rightarrow> bookingWithRelations \<Rightarrow> settings \<Rightarrow>
   (string \<times> string) option \<Rightarrow> mail" where
  "booking_mail nt recipient kind bk s ics =
    (let b = bw_booking bk; c = bw_coach bk; ctx = buildContext bk s;
         locale_name = (case recipient of Client \<Rightarrow> b_locale b | ToCoach \<Rightarrow> c_preferredLocale c);
         content = mail_content_of (nt_texts nt) kind ctx recipient locale_name
     in \<lparr> m_from = sender_of (s_emailFrom s),
          m_to = (case recipient of Client \<Rightarrow> b_clientEmail b | ToCoach \<Rightarrow> c_email c),
          m_subject = fst content, m_html = nt_render nt (BookingEmail (snd content)),
          m_attachment = ics \<rparr>)"

definition mail_ics :: "notifier \<Rightarrow> notificationKind \<Rightarrow> bookingWithRelations \<Rightarrow> settings \<Rightarrow> err + (string \<times> string) option" where
  "mail_ics nt kind bk s =
    (if kind = Cancelled then Inr None
     else map_sum id (\<lambda>v. Some (''booking.ics'', v))
       (buildIcsFile (nt_ics nt) (booking_ics bk (s_businessAddress s))))"

text \<open>Handing a mail over: the key of the sending service is there, and the mail is accepted.\<close>

definition handed_over :: "mailer \<Rightarrow> mail \<Rightarrow> err option" where
  "handed_over ml m =
    (case m_from m of
       Some a \<Rightarrow>
         if \<not> truthy (ml_resendApiKey ml)
         then Some (PlainError (''Settings.emailFrom is set to '' @ [CHR 0x22] @ a @ [CHR 0x22] @
             '' but RESEND_API_KEY is not configured''))
         else map_option (\<lambda>e. PlainError (''Resend send failed: '' @ e)) (ml_answer ml m)
     | None \<Rightarrow> map_option PlainError (ml_answer ml m))"

lemma buildIcsFile_value: "buildIcsFile ce input = Inr v \<Longrightarrow> v \<noteq> []"
  by (auto simp: buildIcsFile_def truthy_def split: prod.splits if_splits)

lemma deliver_eq:
  "deliver ml d w =
    (let m = mail_of (sender_of (di_from d)) d
     in case handed_over ml m of Some e \<Rightarrow> (Inl e, w) | None \<Rightarrow> (Inr (), sent m w))"
  by (auto simp: deliver_def sendViaResend_def handed_over_def sender_of_def mail_of_def truthy_def Let_def
      split: option.splits)

lemma context_sel:
  "cx_businessAddress (buildContext bk s) = s_businessAddress s"
  by (simp add: buildContext_def Let_def)

lemma sendTo_eq:
  "sendTo nt r kind bk (buildContext bk s) (s_emailFrom s) w =
    (case mail_ics nt kind bk s of
       Inl e \<Rightarrow> (Inl e, w)
     | Inr ics \<Rightarrow>
         let m = booking_mail nt r kind bk s ics
         in case handed_over (nt_mailer nt) m of Some e \<Rightarrow> (Inl e, w) | None \<Rightarrow> (Inr (), sent m w))"
proof (cases "kind = Cancelled")
  case True
  then show ?thesis
    by (simp add: sendTo_def mail_ics_def send_def deliver_eq booking_mail_def mail_of_def attachment_def
        truthy_def Let_def case_prod_beta)
next
  case False
  show ?thesis
  proof (cases "buildIcsFile (nt_ics nt) (booking_ics bk (s_businessAddress s))")
    case (Inl e)
    with False show ?thesis
      by (simp add: sendTo_def mail_ics_def context_sel Let_def case_prod_beta)
  next
    case (Inr v)
    with False show ?thesis
      by (simp add: sendTo_def mail_ics_def context_sel send_def deliver_eq booking_mail_def mail_of_def
          attachment_def truthy_def Let_def buildIcsFile_value case_prod_beta)
  qed
qed

text \<open>
  The whole notification: nothing is sent when the calendar file cannot be written, else
  both mails are handed over, and it succeeds when both are accepted.
\<close>

lemma both_eq:
  "both (\<lambda>w. case f of Some e \<Rightarrow> (Inl e, w) | None \<Rightarrow> (Inr (), sent m w))
     (\<lambda>w. case g of Some e \<Rightarrow> (Inl e, w) | None \<Rightarrow> (Inr (), sent m' w)) w =
   (case f of Some e \<Rightarrow> Inl e | None \<Rightarrow> (case g of Some e \<Rightarrow> Inl e | None \<Rightarrow> Inr ()),
    (case g of Some e \<Rightarrow> id | None \<Rightarrow> sent m') ((case f of Some e \<Rightarrow> id | None \<Rightarrow> sent m) w))"
  by (simp add: both_def split: option.splits)

lemma notifyBooking_eq:
  "notifyBooking nt kind bk w =
    andThen (settings_get (b_coachId (bw_booking bk)) w) (\<lambda>s w.
      case mail_ics nt kind bk s of
        Inl e \<Rightarrow> (Inl e, w)
      | Inr ics \<Rightarrow>
          let m = booking_mail nt Client kind bk s ics; m' = booking_mail nt ToCoach kind bk s ics;
              f = handed_over (nt_mailer nt) m; g = handed_over (nt_mailer nt) m'
          in (case f of Some e \<Rightarrow> Inl e | None \<Rightarrow> (case g of Some e \<Rightarrow> Inl e | None \<Rightarrow> Inr ()),
              (case g of Some e \<Rightarrow> id | None \<Rightarrow> sent m') ((case f of Some e \<Rightarrow> id | None \<Rightarrow> sent m) w)))"
  unfolding notifyBooking_def Let_def sendTo_eq
  by (intro arg_cong [where f = "andThen _"] ext)
    (simp add: both_def split: sum.splits option.splits)

section \<open>Who learns the manage token\<close>

definition with_token :: "string \<Rightarrow> bookingWithRelations \<Rightarrow> bookingWithRelations" where
  "with_token tok bk = bk\<lparr>bw_booking := (bw_booking bk)\<lparr>b_manageToken := tok\<rparr>\<rparr>"

lemma context_token:
  "buildContext (with_token tok bk) s =
    (buildContext bk s)\<lparr>cx_manageUrl :=
       (case b_originUrl (bw_booking bk) of None \<Rightarrow> [] | Some u \<Rightarrow> u) @ ''/?manage='' @ tok\<rparr>"
proof -
  have "resolveLocationText ((bw_booking bk)\<lparr>b_manageToken := tok\<rparr>) a = resolveLocationText (bw_booking bk) a" for a
    by (cases "b_location (bw_booking bk)") (simp_all add: resolveLocationText_def)
  then show ?thesis by (simp add: buildContext_def with_token_def Let_def)
qed

lemma mail_ics_token: "mail_ics nt kind (with_token tok bk) s = mail_ics nt kind bk s"
proof -
  have "resolveLocationText ((bw_booking bk)\<lparr>b_manageToken := tok\<rparr>) a = resolveLocationText (bw_booking bk) a" for a
    by (cases "b_location (bw_booking bk)") (simp_all add: resolveLocationText_def)
  then show ?thesis by (simp add: mail_ics_def booking_ics_def with_token_def Let_def)
qed

lemma content_token:
  "mail_content_of lib kind (buildContext (with_token tok bk) s) ToCoach l = mail_content_of lib kind (buildContext bk s) ToCoach l"
  "mail_content_of lib Cancelled (buildContext (with_token tok bk) s) r l = mail_content_of lib Cancelled (buildContext bk s) r l"
  by (cases kind; simp add: mail_content_of_def context_token buildConfirmed_def buildRescheduled_def
      coach_scheduled_manage cancelled_manage)
    (simp add: mail_content_of_def context_token cancelled_manage)

lemma with_token_sel:
  "bw_coach (with_token tok bk) = bw_coach bk" "b_locale (bw_booking (with_token tok bk)) = b_locale (bw_booking bk)"
  "b_clientEmail (bw_booking (with_token tok bk)) = b_clientEmail (bw_booking bk)"
  "b_coachId (bw_booking (with_token tok bk)) = b_coachId (bw_booking bk)"
  by (simp_all add: with_token_def)

lemma mail_token:
  "booking_mail nt ToCoach kind (with_token tok bk) s ics = booking_mail nt ToCoach kind bk s ics"
  "booking_mail nt r Cancelled (with_token tok bk) s ics = booking_mail nt r Cancelled bk s ics"
  by (simp add: booking_mail_def content_token with_token_sel Let_def)
    (cases r; simp add: booking_mail_def content_token with_token_sel Let_def)

lemma context_manage_url:
  "cx_manageUrl (buildContext bk s) =
    (case b_originUrl (bw_booking bk) of None \<Rightarrow> [] | Some u \<Rightarrow> u) @ ''/?manage='' @ b_manageToken (bw_booking bk)"
  by (simp add: buildContext_def Let_def)


section \<open>The mails of a notification\<close>

lemma handed_answer: "handed_over ml m = None \<Longrightarrow> ml_answer ml m = None"
  by (auto simp: handed_over_def split: option.splits if_splits)

text \<open>
  C21: a notification that succeeds has sent two mails and nothing else: one to the client in
  the language of the booking, one to the coach in hers, both from the sender of the coach's
  settings, both with the calendar file exactly when the booking stands.
\<close>

theorem notify_mails:
  assumes "notifyBooking nt kind bk w = (Inr (), w')"
  shows "\<exists>s w1 m m' ics. settings_get (b_coachId (bw_booking bk)) w = (Inr s, w1) \<and>
    w' = w1\<lparr>externals := externals w @ [MailSent m, MailSent m']\<rparr> \<and>
    m = booking_mail nt Client kind bk s ics \<and> m' = booking_mail nt ToCoach kind bk s ics \<and>
    m_to m = b_clientEmail (bw_booking bk) \<and> m_to m' = c_email (bw_coach bk) \<and>
    m_subject m = fst (mail_content_of (nt_texts nt) kind (buildContext bk s) Client (b_locale (bw_booking bk))) \<and>
    m_subject m' = fst (mail_content_of (nt_texts nt) kind (buildContext bk s) ToCoach (c_preferredLocale (bw_coach bk))) \<and>
    m_from m = sender_of (s_emailFrom s) \<and> m_from m' = m_from m \<and>
    m_attachment m = ics \<and> m_attachment m' = ics \<and> (ics = None \<longleftrightarrow> kind = Cancelled) \<and>
    ml_answer (nt_mailer nt) m = None \<and> ml_answer (nt_mailer nt) m' = None"
proof -
  obtain s w1 where s: "settings_get (b_coachId (bw_booking bk)) w = (Inr s, w1)"
    using assms unfolding notifyBooking_eq by (elim andThen_InrD) auto
  then have e1: "externals w1 = externals w"
    by (auto simp: settings_get_def split: option.splits)
  obtain ics where i: "mail_ics nt kind bk s = Inr ics"
    using assms s unfolding notifyBooking_eq by (cases "mail_ics nt kind bk s") auto
  let ?m = "booking_mail nt Client kind bk s ics" and ?m' = "booking_mail nt ToCoach kind bk s ics"
  have h: "handed_over (nt_mailer nt) ?m = None" "handed_over (nt_mailer nt) ?m' = None"
    and w': "w' = sent ?m' (sent ?m w1)"
    using assms s i unfolding notifyBooking_eq by (auto simp: Let_def split: option.splits)
  have "ics = None \<longleftrightarrow> kind = Cancelled"
    using i by (cases "buildIcsFile (nt_ics nt) (booking_ics bk (s_businessAddress s))")
      (auto simp: mail_ics_def split: if_splits)
  moreover have "w' = w1\<lparr>externals := externals w @ [MailSent ?m, MailSent ?m']\<rparr>"
    by (simp add: w' sent_def e1)
  ultimately show ?thesis
    using s handed_answer [OF h(1)] handed_answer [OF h(2)]
    by (intro exI [of _ s] exI [of _ w1] exI [of _ ?m] exI [of _ ?m'] exI [of _ ics])
      (simp add: booking_mail_def Let_def)
qed

definition demo_notifier :: notifier where
  "demo_notifier = \<lparr> nt_texts = echo_texts,
     nt_mailer = \<lparr> ml_resendApiKey = None, ml_answer = (\<lambda>m. None) \<rparr>,
     nt_render = (\<lambda>n. concat (hrefs n)), nt_ics = (\<lambda>e. (None, Some ''BEGIN:VCALENDAR'')) \<rparr>"

definition demo_relations :: bookingWithRelations where
  "demo_relations = \<lparr> bw_booking = demo_booking ''b1'' ''t1'', bw_eventType = demo_event, bw_coach = demo_coach \<rparr>"

lemma demo_booked_settings: "settings_get ''c1'' demo_booked = (Inr demo_settings, demo_booked)"
  by code_simp

lemma demo_accepts: "handed_over (nt_mailer demo_notifier) (booking_mail nt r kind bk demo_settings ics) = None"
  by (simp add: handed_over_def booking_mail_def demo_notifier_def demo_settings_def default_settings_def
      sender_of_def truthy_def Let_def)

lemma demo_ics: "\<exists>ics. mail_ics demo_notifier kind bk s = Inr ics"
  by (simp add: mail_ics_def buildIcsFile_def demo_notifier_def truthy_def)

lemma demo_notified: "\<exists>w'. notifyBooking demo_notifier kind demo_relations demo_booked = (Inr (), w')"
proof -
  have "b_coachId (bw_booking demo_relations) = ''c1''" by (simp add: demo_relations_def demo_booking_sel)
  moreover obtain ics where "mail_ics demo_notifier kind demo_relations demo_settings = Inr ics"
    using demo_ics by blast
  ultimately show ?thesis
    unfolding notifyBooking_eq by (simp add: demo_booked_settings demo_accepts Let_def)
qed

lemma notify_mails_witness:
  "\<exists>w' m m'. notifyBooking demo_notifier Confirmed demo_relations demo_booked = (Inr (), w') \<and>
    externals w' = [MailSent m, MailSent m'] \<and> m_to m = ''e@c.hu'' \<and> m_to m' = ''a@b.hu''"
proof -
  obtain w' where n: "notifyBooking demo_notifier Confirmed demo_relations demo_booked = (Inr (), w')"
    using demo_notified by blast
  have "b_clientEmail (bw_booking demo_relations) = ''e@c.hu''" "c_email (bw_coach demo_relations) = ''a@b.hu''"
    "externals demo_booked = []"
    by (simp_all add: demo_relations_def demo_booking_def new_booking_def demo_dto_def demo_coach_def
        demo_booked_def demo_world_def empty_world_def)
  then show ?thesis using n notify_mails [OF n] by (auto simp: n)
qed

end
