(* ===== verification/BookingInvariant.thy ===== *)
theory BookingInvariant
  imports Bookings
begin

text \<open>
  What the booking operations need of an invariant of the database: that reading settings,
  inserting a booking, updating the members of a booking that are not keys, queueing a job
  and logging a call outside keep it.  Every operation then keeps it, on success and on
  error.  The constraints of the schema are such an invariant.
\<close>

locale booking_invariant =
  fixes inv :: "world \<Rightarrow> bool"
  assumes inv_settings: "inv w \<Longrightarrow> settings_get k w = (x, w') \<Longrightarrow> inv w'"
    and inv_create: "inv w \<Longrightarrow> booking_create b w = (y, w') \<Longrightarrow> inv w'"
    and inv_update: "inv w \<Longrightarrow> booking_update k f w = (y, w') \<Longrightarrow>
      (\<And>b. b_id (f b) = b_id b) \<Longrightarrow> (\<And>b. b_manageToken (f b) = b_manageToken b) \<Longrightarrow>
      (\<And>b. b_coachId (f b) = b_coachId b) \<Longrightarrow> (\<And>b. b_eventTypeId (f b) = b_eventTypeId b) \<Longrightarrow> inv w'"
    and inv_jobs: "inv w \<Longrightarrow> inv (w\<lparr>jobs := js\<rparr>)"
    and inv_log: "inv w \<Longrightarrow> inv (w\<lparr>externals := xs\<rparr>)"
begin

lemma inv_andThen:
  assumes "andThen r k = (x, w')" and "inv (snd r)"
    and "\<And>a w1. inv w1 \<Longrightarrow> k a w1 = (x, w') \<Longrightarrow> inv w'"
  shows "inv w'"
  using assms(1) by (rule andThen_cases) (use assms(2,3) in auto)

lemma inv_enqueue: "inv w \<Longrightarrow> inv (enqueue b c k w)"
  by (simp add: enqueue_def inv_jobs)

lemma inv_deleteEvent: "inv w \<Longrightarrow> deleteEvent cfg c ev w = (x, w') \<Longrightarrow> inv w'"
  by (auto elim!: deleteEvent_cases intro: inv_log)

lemma inv_client_may_change: "inv w \<Longrightarrow> client_may_change lx now token w = (x, w') \<Longrightarrow> inv w'"
  by (auto simp: client_may_change_def assertWithinNoticeWindow_def elim!: andThen_cases
      dest: inv_settings split: sum.splits if_splits)

lemma inv_cancelled:
  assumes "inv w" and "booking_update k (cancelled_row by reason) w = (x, w')"
  shows "inv w'"
  using assms by (rule inv_update) (simp_all add: cancelled_row_def)

lemma inv_cancel_and_notify:
  assumes "inv w" and "cancel_and_notify cfg b by reason w = (x, w')"
  shows "inv w'"
proof -
  have "inv w1" if "applyCancellation cfg b by reason w = (y, w1)" for y w1
    using that assms(1) unfolding applyCancellation_def
    by (auto elim!: andThen_cases dest: inv_deleteEvent inv_cancelled split: if_splits)
  then show ?thesis
    using assms(2) unfolding cancel_and_notify_def by (auto elim!: andThen_cases intro: inv_enqueue)
qed

lemma inv_cancelByClient: "inv w \<Longrightarrow> cancelByClient cfg lx now token reason w = (x, w') \<Longrightarrow> inv w'"
  unfolding cancelByClient_def
  by (auto elim!: andThen_cases dest: inv_client_may_change inv_cancel_and_notify)

lemma inv_cancelByCoach: "inv w \<Longrightarrow> cancelByCoach cfg reason c k w = (x, w') \<Longrightarrow> inv w'"
  unfolding cancelByCoach_def by (auto dest: inv_cancel_and_notify split: sum.splits)

lemma inv_create_prepare: "inv w \<Longrightarrow> create_prepare lx now dto w = (x, w') \<Longrightarrow> inv w'"
  by (auto simp: create_prepare_def Let_def elim!: andThen_cases dest: inv_settings
      split: option.splits sum.splits if_splits)

lemma inv_create_tx: "inv w \<Longrightarrow> create_tx lx tz loc b w = (x, w') \<Longrightarrow> inv w'"
  by (auto simp: create_tx_def reserve_def dest: inv_create split: sum.splits)

lemma inv_serializable:
  assumes "inv w" and "runSerializable refused tx w = (x, w')" and "\<And>y w1. tx w = (y, w1) \<Longrightarrow> inv w1"
  shows "inv w'"
  using assms runSerializable_Inr runSerializable_Inl by (cases x) fastforce+

lemma inv_create_booking:
  assumes "inv w" and "create lx now refused i tok dto org w = (x, w')"
  shows "inv w'"
  using assms(2) unfolding create_def
proof (cases rule: andThen_cases)
  case (err e)
  then show ?thesis using inv_create_prepare assms(1) by blast
next
  case (ok a w1)
  then have w1: "inv w1" using inv_create_prepare assms(1) by blast
  from ok(2) show ?thesis
    by (auto elim!: andThen_cases intro: inv_enqueue inv_serializable [OF w1] inv_create_tx [OF w1]
        split: prod.splits)
qed

lemma inv_reschedule_prepare:
  assumes "inv w" and "reschedule_prepare lx now token txt w = (x, w')"
  shows "inv w'"
  using assms(2) unfolding reschedule_prepare_def
proof (rule inv_andThen)
  show "inv (snd (client_may_change lx now token w))"
    using assms(1) inv_client_may_change by (metis prod.collapse)
qed (auto simp: Let_def elim!: andThen_cases dest: inv_settings split: sum.splits)

lemma inv_reschedule_tx: "inv w \<Longrightarrow> reschedule_tx lx tz b s e w = (x, w') \<Longrightarrow> inv w'"
  by (auto simp: reschedule_tx_def move_booking_def dest: inv_update split: sum.splits)

lemma inv_drop_event:
  assumes "inv w" and "drop_event cfg u w = (x, w')"
  shows "inv w'"
proof (cases "b_location u = GOOGLE_MEET \<and> truthy (b_googleEventId u)")
  case True
  then have "andThen (deleteEvent cfg (b_coachId u) (the (b_googleEventId u)) w)
      (\<lambda>_. booking_update (b_id u) (\<lambda>r. r\<lparr>b_meetLink := None, b_googleEventId := None\<rparr>)) = (x, w')"
    using assms(2) by (simp add: drop_event_def)
  then show ?thesis
  proof (rule inv_andThen)
    show "inv (snd (deleteEvent cfg (b_coachId u) (the (b_googleEventId u)) w))"
      using assms(1) inv_deleteEvent by (metis prod.collapse)
  next
    fix a w1
    assume "inv w1" "booking_update (b_id u) (\<lambda>r. r\<lparr>b_meetLink := None, b_googleEventId := None\<rparr>) w1 = (x, w')"
    then show "inv w'" by (rule inv_update) simp_all
  qed
next
  case False
  then show ?thesis using assms by (auto simp: drop_event_def)
qed

lemma inv_serializable_snd:
  assumes "inv w" and "\<And>y w1. tx w = (y, w1) \<Longrightarrow> inv w1"
  shows "inv (snd (runSerializable refused tx w))"
  by (rule inv_serializable [OF assms(1) prod.collapse [symmetric] assms(2)])

lemma inv_reschedule:
  assumes "inv w" and "rescheduleByClient cfg lx now refused token txt w = (x, w')"
  shows "inv w'"
  using assms(2) unfolding rescheduleByClient_def
proof (rule inv_andThen)
  show "inv (snd (reschedule_prepare lx now token txt w))"
    using assms(1) inv_reschedule_prepare by (metis prod.collapse)
next
  fix a :: "booking \<times> string \<times> int \<times> int" and w1
  obtain b tz s e where a: "a = (b, tz, s, e)" by (cases a)
  assume w1: "inv w1" and "(\<lambda>(b, timezone, startAt, endAt) w.
      andThen (runSerializable refused (reschedule_tx lx timezone b startAt endAt) w) (\<lambda>u w.
        andThen (drop_event cfg u w)
          (\<lambda>u w. (Inr u, enqueue (b_id u) (b_coachId u) Rescheduled w)))) a w1 = (x, w')"
  then have "andThen (runSerializable refused (reschedule_tx lx tz b s e) w1) (\<lambda>u w.
        andThen (drop_event cfg u w)
          (\<lambda>u w. (Inr u, enqueue (b_id u) (b_coachId u) Rescheduled w))) = (x, w')"
    by (simp only: a prod.case)
  then show "inv w'"
  proof (rule inv_andThen)
    show "inv (snd (runSerializable refused (reschedule_tx lx tz b s e) w1))"
      using w1 inv_reschedule_tx [OF w1] by (rule inv_serializable_snd)
  next
    fix u w2
    assume w2: "inv w2"
    assume "andThen (drop_event cfg u w2)
      (\<lambda>u w. (Inr u, enqueue (b_id u) (b_coachId u) Rescheduled w)) = (x, w')"
    then show "inv w'"
    proof (rule inv_andThen)
      show "inv (snd (drop_event cfg u w2))" using w2 inv_drop_event by (metis prod.collapse)
    qed (auto intro: inv_enqueue)
  qed
qed

end

interpretation schema: booking_invariant constraints_ok
proof
  fix w w' :: world and b y k f
  show "constraints_ok w \<Longrightarrow> booking_create b w = (y, w') \<Longrightarrow> constraints_ok w'"
    by (rule booking_create_ok)
qed (auto intro: settings_get_ok booking_update_ok)

end
