(* ===== verification/NotificationJobs.thy ===== *)
theory NotificationJobs
  imports Notifications BookingInvariant BookingSpecs
begin

text \<open>
  The worker of the notification queue (notification-jobs.service.ts).  A job fetches its
  booking, makes sure that an online booking has its meeting, and sends the mails; a job
  that fails is tried again.  What happens outside the program may differ from one attempt
  to the next: each attempt has its own \<open>notifier\<close> and its own answer of the calendar.
\<close>

section \<open>One attempt\<close>

record attempt =
  at_notifier :: notifier
  at_uuid :: string
  at_answer :: "err + insertAnswer"

definition with_relations :: "booking \<Rightarrow> world \<Rightarrow> bookingWithRelations option" where
  "with_relations b w =
    (case (findUnique et_id (b_eventTypeId b) (eventTypes w), findUnique c_id (b_coachId b) (coaches w)) of
       (Some et, Some c) \<Rightarrow> Some \<lparr> bw_booking = b, bw_eventType = et, bw_coach = c \<rparr>
     | _ \<Rightarrow> None)"

text \<open>The error of the database client when a required relation has no row.\<close>

definition inconsistent :: err where "inconsistent = PlainError ''Inconsistent query result''"

definition meet_input :: "bookingWithRelations \<Rightarrow> createMeetEventInput" where
  "meet_input bk =
    (let b = bw_booking bk
     in \<lparr> mi_title = et_title (bw_eventType bk) @ '' '' @ em_dash @ '' '' @ b_clientName b,
          mi_description = b_clientNote b, mi_startAt = b_startAt b, mi_endAt = b_endAt b,
          mi_attendeeEmails = [b_clientEmail b, c_email (bw_coach bk)] \<rparr>)"

definition ensureMeetLink ::
  "config \<Rightarrow> attempt \<Rightarrow> bookingWithRelations \<Rightarrow> world \<Rightarrow> (world, bookingWithRelations) outcome" where
  "ensureMeetLink cfg a bk w =
    (let b = bw_booking bk in
     if b_location b \<noteq> GOOGLE_MEET \<or> truthy (b_meetLink b) then (Inr bk, w)
     else andThen (createMeetEvent cfg (at_uuid a) (at_answer a) (b_coachId b) (meet_input bk) w)
       (\<lambda>meet w. andThen (booking_update (b_id b)
            (\<lambda>r. r\<lparr>b_meetLink := Some (me_meetLink meet), b_googleEventId := Some (me_eventId meet)\<rparr>) w)
          (\<lambda>updated w. case with_relations updated w of
              None \<Rightarrow> (Inl inconsistent, w) | Some bk' \<Rightarrow> (Inr bk', w))))"

definition process :: "config \<Rightarrow> attempt \<Rightarrow> job \<Rightarrow> world \<Rightarrow> (world, unit) outcome" where
  "process cfg a j w =
    (case findUnique b_id (j_bookingId j) (bookings w) of
       None \<Rightarrow> (Inr (), w)
     | Some booking \<Rightarrow>
         (case with_relations booking w of
            None \<Rightarrow> (Inl inconsistent, w)
          | Some bk \<Rightarrow>
              andThen (if j_kind j = Confirmed \<or> j_kind j = Rescheduled
                       then ensureMeetLink cfg a bk w else (Inr bk, w))
                (\<lambda>typed w. case j_kind j of
                   Confirmed \<Rightarrow> notifyBookingConfirmed (at_notifier a) typed w
                 | Cancelled \<Rightarrow> notifyBookingCancelled (at_notifier a) typed w
                 | Rescheduled \<Rightarrow> notifyBookingRescheduled (at_notifier a) typed w)))"

section \<open>The attempts of a job\<close>

definition retryLimit :: nat where "retryLimit = 3"

fun attempts :: "config \<Rightarrow> job \<Rightarrow> attempt \<Rightarrow> attempt list \<Rightarrow> world \<Rightarrow> (world, unit) outcome" where
  "attempts cfg j a [] w = process cfg a j w"
| "attempts cfg j a (a' # as) w =
    (case process cfg a j w of
       (Inl e, w') \<Rightarrow> attempts cfg j a' as w'
     | (Inr u, w') \<Rightarrow> (Inr u, w'))"

text \<open>The queue calls the worker once and, after failures, up to three times more.\<close>

definition work :: "config \<Rightarrow> job \<Rightarrow> attempt \<Rightarrow> attempt list \<Rightarrow> world \<Rightarrow> (world, unit) outcome" where
  "work cfg j a retries w = attempts cfg j a (take retryLimit retries) w"

section \<open>Frames\<close>

lemma process_eq:
  "process cfg a j w =
    (case findUnique b_id (j_bookingId j) (bookings w) of
       None \<Rightarrow> (Inr (), w)
     | Some booking \<Rightarrow>
         (case with_relations booking w of
            None \<Rightarrow> (Inl inconsistent, w)
          | Some bk \<Rightarrow>
              andThen (if j_kind j \<noteq> Cancelled then ensureMeetLink cfg a bk w else (Inr bk, w))
                (notifyBooking (at_notifier a) (j_kind j))))"
proof -
  have k: "(j_kind j = Confirmed \<or> j_kind j = Rescheduled) = (j_kind j \<noteq> Cancelled)"
    by (cases "j_kind j") simp_all
  have n: "(\<lambda>typed w. case j_kind j of
       Confirmed \<Rightarrow> notifyBookingConfirmed (at_notifier a) typed w
     | Cancelled \<Rightarrow> notifyBookingCancelled (at_notifier a) typed w
     | Rescheduled \<Rightarrow> notifyBookingRescheduled (at_notifier a) typed w) =
     notifyBooking (at_notifier a) (j_kind j)"
    by (intro ext; cases "j_kind j") (simp_all add: notifyBookingConfirmed_def
        notifyBookingCancelled_def notifyBookingRescheduled_def)
  show ?thesis unfolding process_def k n ..
qed

text \<open>A notification logs mails and may create the row of settings; nothing else changes.\<close>

fun is_mail :: "external \<Rightarrow> bool" where
  "is_mail (MailSent m) \<longleftrightarrow> True"
| "is_mail _ \<longleftrightarrow> False"

definition calendar_log :: "world \<Rightarrow> external list" where
  "calendar_log w = filter (\<lambda>x. \<not> is_mail x) (externals w)"

definition quiet :: "world \<Rightarrow> world \<Rightarrow> bool" where
  "quiet w w' \<longleftrightarrow> bookings w' = bookings w \<and> eventTypes w' = eventTypes w \<and> coaches w' = coaches w \<and>
    googleIntegrations w' = googleIntegrations w \<and> jobs w' = jobs w \<and> calendar_log w' = calendar_log w"

lemma quiet_refl [simp]: "quiet w w"
  by (simp add: quiet_def)

lemma quiet_trans: "quiet w w1 \<Longrightarrow> quiet w1 w2 \<Longrightarrow> quiet w w2"
  by (simp add: quiet_def)

lemma quiet_sent [simp]: "quiet w (sent m w')  = quiet w w'"
  by (simp add: quiet_def calendar_log_def)

lemma quiet_settings_get: "settings_get k w = (x, w') \<Longrightarrow> quiet w w'"
  by (auto simp: settings_get_def quiet_def calendar_log_def split: option.splits)

lemma notify_quiet:
  assumes "notifyBooking nt kind bk w = (x, w')"
  shows "quiet w w'"
  using assms unfolding notifyBooking_eq
proof (cases rule: andThen_cases)
  case (err e)
  then show ?thesis by (intro quiet_settings_get [OF err(1)])
next
  case (ok s w1)
  have "quiet w w1" using ok(1) by (rule quiet_settings_get)
  then show ?thesis using ok(2) by (auto simp: Let_def split: sum.splits option.splits)
qed

lemma getAuthenticatedClient_frame:
  "googleIntegrations w' = googleIntegrations w \<Longrightarrow> getAuthenticatedClient cfg c w' = getAuthenticatedClient cfg c w"
  by (simp add: getAuthenticatedClient_def)

lemma with_relations_frame:
  "eventTypes w' = eventTypes w \<Longrightarrow> coaches w' = coaches w \<Longrightarrow> with_relations b w' = with_relations b w"
  by (simp add: with_relations_def)

lemma with_relations_exists:
  assumes "constraints_ok w" and "b \<in> set (bookings w)"
  shows "\<exists>bk. with_relations b w = Some bk \<and> bw_booking bk = b"
proof -
  have "b_eventTypeId b \<in> et_id ` set (eventTypes w)" "b_coachId b \<in> c_id ` set (coaches w)"
    using assms by (auto simp: constraints_ok_def coach_exists_def)
  then show ?thesis
    using findUnique_exists [of _ et_id] findUnique_exists [of _ c_id]
    by (fastforce simp: with_relations_def)
qed

section \<open>The meeting of a booking\<close>

definition needs_meeting :: "booking \<Rightarrow> bool" where
  "needs_meeting b \<longleftrightarrow> b_location b = GOOGLE_MEET \<and> \<not> truthy (b_meetLink b)"

text \<open>The row once the meeting of an answer is stored, and the entry in the calendar's log.\<close>

definition linked :: "insertAnswer \<Rightarrow> booking \<Rightarrow> booking" where
  "linked r b = b\<lparr>b_meetLink := answer_link r, b_googleEventId := ia_id r\<rparr>"

definition meeting :: "attempt \<Rightarrow> insertAnswer \<Rightarrow> bookingWithRelations \<Rightarrow> external" where
  "meeting a r bk = CalendarInsert (b_coachId (bw_booking bk)) (the (ia_id r))
     (insert_request (at_uuid a) (meet_input bk))"

definition complete_answer :: "insertAnswer \<Rightarrow> bool" where
  "complete_answer r \<longleftrightarrow> truthy (ia_id r) \<and> truthy (answer_link r)"

lemma linked_sel [simp]:
  "b_id (linked r b) = b_id b" "b_coachId (linked r b) = b_coachId b"
  "b_eventTypeId (linked r b) = b_eventTypeId b" "b_clientEmail (linked r b) = b_clientEmail b"
  "b_status (linked r b) = b_status b" "b_location (linked r b) = b_location b"
  "b_meetLink (linked r b) = answer_link r"
  by (simp_all add: linked_def)

lemma linked_done: "complete_answer r \<Longrightarrow> \<not> needs_meeting (linked r b)"
  by (simp add: needs_meeting_def complete_answer_def)

lemma with_relations_linked:
  "with_relations b w = Some bk \<Longrightarrow>
   with_relations (linked r b) w = Some (bk\<lparr>bw_booking := linked r b\<rparr>)"
  by (auto simp: with_relations_def simp del: findUnique_None split: option.splits)

lemma with_relations_sel:
  "with_relations b w = Some bk \<Longrightarrow> bw_booking bk = b \<and>
    findUnique c_id (b_coachId b) (coaches w) = Some (bw_coach bk)"
  by (auto simp: with_relations_def simp del: findUnique_None split: option.splits)

lemma ensure_skips: "\<not> needs_meeting (bw_booking bk) \<Longrightarrow> ensureMeetLink cfg a bk w = (Inr bk, w)"
  by (auto simp: ensureMeetLink_def needs_meeting_def Let_def)

lemma ensure_refused:
  assumes "needs_meeting (bw_booking bk)"
    and "getAuthenticatedClient cfg (b_coachId (bw_booking bk)) w = Inl e \<or> at_answer a = Inl e"
  shows "\<exists>e. ensureMeetLink cfg a bk w = (Inl e, w)"
  using assms
  by (cases "getAuthenticatedClient cfg (b_coachId (bw_booking bk)) w")
    (auto simp: ensureMeetLink_def needs_meeting_def createMeetEvent_def Let_def)

lemma ensure_creates:
  assumes "needs_meeting b" and "with_relations b w = Some bk"
    and "findUnique b_id (b_id b) (bookings w) = Some b"
    and "getAuthenticatedClient cfg (b_coachId b) w = Inr t"
    and "at_answer a = Inr r" and "complete_answer r"
  shows "ensureMeetLink cfg a bk w =
    (Inr (bk\<lparr>bw_booking := linked r b\<rparr>),
     w\<lparr>externals := externals w @ [meeting a r bk], bookings := updateRow b_id (b_id b) (linked r) (bookings w)\<rparr>)"
proof -
  note bk = with_relations_sel [OF assms(2)]
  let ?w1 = "w\<lparr>externals := externals w @ [meeting a r bk]\<rparr>"
  obtain i l where il: "ia_id r = Some i" "answer_link r = Some l" "i \<noteq> []" "l \<noteq> []"
    using assms(6) by (auto simp: complete_answer_def truthy_def)
  have c: "createMeetEvent cfg (at_uuid a) (at_answer a) (b_coachId b) (meet_input bk) w =
      (Inr \<lparr> me_eventId = i, me_meetLink = l \<rparr>, ?w1)"
    using assms(4,5) il bk by (simp add: createMeetEvent_def meeting_def truthy_def)
  have f: "(\<lambda>x. x\<lparr>b_meetLink := Some l, b_googleEventId := Some i\<rparr>) = linked r"
    by (simp add: fun_eq_iff linked_def il)
  have u: "booking_update (b_id b) (linked r) ?w1 =
      (Inr (linked r b), ?w1\<lparr>bookings := updateRow b_id (b_id b) (linked r) (bookings w)\<rparr>)"
    using assms(3) by (simp add: booking_update_def)
  have r: "with_relations (linked r b) (?w1\<lparr>bookings := updateRow b_id (b_id b) (linked r) (bookings w)\<rparr>) =
      Some (bk\<lparr>bw_booking := linked r b\<rparr>)"
    using with_relations_linked [OF assms(2)] by (simp add: with_relations_def)
  have n: "\<not> (b_location b \<noteq> GOOGLE_MEET \<or> truthy (b_meetLink b))"
    using assms(1) by (simp add: needs_meeting_def)
  show ?thesis
    unfolding ensureMeetLink_def Let_def conjunct1 [OF bk] if_not_P [OF n] c andThen_Inr
    by (simp add: f u r)
qed

text \<open>Where a job stands: the meeting is still to be made, or it is made and stored.\<close>

definition pending :: "world \<Rightarrow> job \<Rightarrow> booking \<Rightarrow> world \<Rightarrow> bool" where
  "pending w0 j b w \<longleftrightarrow> quiet w0 w \<and> findUnique b_id (j_bookingId j) (bookings w) = Some b"

definition met :: "world \<Rightarrow> job \<Rightarrow> booking \<Rightarrow> bookingWithRelations \<Rightarrow> attempt \<Rightarrow> insertAnswer \<Rightarrow> world \<Rightarrow> bool" where
  "met w0 j b bk a r w \<longleftrightarrow> eventTypes w = eventTypes w0 \<and> coaches w = coaches w0 \<and>
     googleIntegrations w = googleIntegrations w0 \<and>
     at_answer a = Inr r \<and> complete_answer r \<and>
     calendar_log w = calendar_log w0 @ [meeting a r bk] \<and>
     findUnique b_id (j_bookingId j) (bookings w) = Some (linked r b)"

definition sound_answer :: "attempt \<Rightarrow> bool" where
  "sound_answer a \<longleftrightarrow> (case at_answer a of Inl e \<Rightarrow> True | Inr r \<Rightarrow> complete_answer r)"

lemma met_quiet: "met w0 j b bk a r w \<Longrightarrow> quiet w w' \<Longrightarrow> met w0 j b bk a r w'"
  by (simp add: met_def quiet_def)

lemma process_met:
  assumes "met w0 j b bk a r w" and "with_relations b w0 = Some bk" and "process cfg a' j w = (x, w')"
  shows "met w0 j b bk a r w'"
proof -
  have m: "findUnique b_id (j_bookingId j) (bookings w) = Some (linked r b)" "complete_answer r"
    "with_relations (linked r b) w = Some (bk\<lparr>bw_booking := linked r b\<rparr>)"
    using assms(1) with_relations_linked [OF assms(2)] with_relations_frame [of w w0]
    by (auto simp: met_def)
  have "ensureMeetLink cfg a' (bk\<lparr>bw_booking := linked r b\<rparr>) w = (Inr (bk\<lparr>bw_booking := linked r b\<rparr>), w)"
    by (rule ensure_skips) (simp add: linked_done [OF m(2)])
  then have "process cfg a' j w = notifyBooking (at_notifier a') (j_kind j) (bk\<lparr>bw_booking := linked r b\<rparr>) w"
    unfolding process_eq by (simp add: m)
  then have "quiet w w'" using assms(3) notify_quiet by metis
  with assms(1) show ?thesis by (rule met_quiet)
qed

lemma process_pending:
  assumes "pending w0 j b w" and "with_relations b w0 = Some bk" and "needs_meeting b"
    and "j_kind j \<noteq> Cancelled" and "sound_answer a" and "process cfg a j w = (x, w')"
  shows "(pending w0 j b w' \<and> x \<noteq> Inr ()) \<or> (\<exists>r. met w0 j b bk a r w')"
proof -
  have q: "quiet w0 w" and f: "findUnique b_id (j_bookingId j) (bookings w) = Some b"
    using assms(1) by (auto simp: pending_def)
  have rel: "with_relations b w = Some bk" using assms(2) q with_relations_frame by (metis quiet_def)
  note bk = with_relations_sel [OF rel]
  have k: "j_bookingId j = b_id b" using findUnique_key [OF f] by simp
  have p: "process cfg a j w = andThen (ensureMeetLink cfg a bk w) (notifyBooking (at_notifier a) (j_kind j))"
    unfolding process_eq by (simp add: f rel assms(4))
  show ?thesis
  proof (cases "\<exists>e. getAuthenticatedClient cfg (b_coachId b) w = Inl e \<or> at_answer a = Inl e")
    case True
    then obtain e where "ensureMeetLink cfg a bk w = (Inl e, w)"
      using ensure_refused [of bk cfg w _ a] assms(3) bk by auto
    then show ?thesis using assms(1,6) p by auto
  next
    case False
    then obtain t r where tr: "getAuthenticatedClient cfg (b_coachId b) w = Inr t" "at_answer a = Inr r"
      by (metis sum.exhaust)
    then have r: "complete_answer r" using assms(5) by (simp add: sound_answer_def)
    define w1 where "w1 = w\<lparr>externals := externals w @ [meeting a r bk],
        bookings := updateRow b_id (b_id b) (linked r) (bookings w)\<rparr>"
    have "met w0 j b bk a r w1"
      using q f tr r unfolding met_def w1_def k
      by (auto simp: quiet_def calendar_log_def meeting_def findUnique_updateRow)
    moreover have "quiet w1 w'"
      using assms(6) ensure_creates [OF assms(3) rel _ tr r] f notify_quiet
      unfolding p k w1_def by fastforce
    ultimately show ?thesis using met_quiet by blast
  qed
qed

lemma attempts_met:
  assumes "met w0 j b bk a r w" and "with_relations b w0 = Some bk" and "attempts cfg j a' as w = (x, w')"
  shows "met w0 j b bk a r w'"
  using assms(1,3)
proof (induction as arbitrary: a' w)
  case Nil
  then show ?case using process_met [OF _ assms(2)] by simp
next
  case (Cons a'' as)
  obtain y w1 where p: "process cfg a' j w = (y, w1)" by fastforce
  have "met w0 j b bk a r w1" by (rule process_met [OF Cons.prems(1) assms(2) p])
  with Cons show ?case by (cases y) (auto simp: p)
qed

lemma attempts_pending:
  assumes "pending w0 j b w" and "with_relations b w0 = Some bk" and "needs_meeting b"
    and "j_kind j \<noteq> Cancelled" and "list_all sound_answer (a # as)" and "attempts cfg j a as w = (x, w')"
  shows "(pending w0 j b w' \<and> x \<noteq> Inr ()) \<or> (\<exists>a' \<in> set (a # as). \<exists>r. met w0 j b bk a' r w')"
  using assms(1,5,6)
proof (induction as arbitrary: a w)
  case Nil
  then show ?case using process_pending [OF Nil.prems(1) assms(2-4)] by auto
next
  case (Cons a'' as)
  obtain y w1 where p: "process cfg a j w = (y, w1)" by fastforce
  have s: "(pending w0 j b w1 \<and> y \<noteq> Inr ()) \<or> (\<exists>r. met w0 j b bk a r w1)"
    using process_pending [OF Cons.prems(1) assms(2-4) _ p] Cons.prems(2) by simp
  show ?case
  proof (cases y)
    case (Inl e)
    then have a: "attempts cfg j a'' as w1 = (x, w')" using Cons.prems(3) by (simp add: p)
    from s show ?thesis
    proof (elim disjE conjE exE)
      assume "pending w0 j b w1"
      from Cons.IH [OF this _ a] Cons.prems(2) show ?thesis by auto
    next
      fix r
      assume "met w0 j b bk a r w1"
      from attempts_met [OF this assms(2) a] show ?thesis by auto
    qed
  next
    case (Inr u)
    with s Cons.prems(3) show ?thesis by (auto simp: p)
  qed
qed


section \<open>A job gets through\<close>

definition accepting :: "notifier \<Rightarrow> bool" where
  "accepting nt \<longleftrightarrow> (\<forall>m. handed_over (nt_mailer nt) m = None) \<and>
     (\<forall>e. \<exists>v. nt_ics nt e = (None, Some v) \<and> v \<noteq> [])"

definition good_attempt :: "attempt \<Rightarrow> bool" where
  "good_attempt a \<longleftrightarrow> accepting (at_notifier a) \<and> (\<exists>r. at_answer a = Inr r \<and> complete_answer r)"

definition informed :: "booking \<Rightarrow> coach \<Rightarrow> world \<Rightarrow> bool" where
  "informed b c w \<longleftrightarrow> (\<exists>m m'. MailSent m \<in> set (externals w) \<and> MailSent m' \<in> set (externals w) \<and>
     m_to m = b_clientEmail b \<and> m_to m' = c_email c)"

lemma accepting_ics: "accepting nt \<Longrightarrow> \<exists>ics. mail_ics nt kind bk s = Inr ics"
proof -
  assume a: "accepting nt"
  obtain v where "nt_ics nt (ics_event (booking_ics bk (s_businessAddress s))) = (None, Some v)" "v \<noteq> []"
    using a unfolding accepting_def by blast
  then show ?thesis by (simp add: mail_ics_def buildIcsFile_def truthy_def)
qed

lemma notify_accepted:
  assumes "accepting nt" and "coach_exists (b_coachId (bw_booking bk)) w"
  shows "\<exists>w'. notifyBooking nt kind bk w = (Inr (), w') \<and> informed (bw_booking bk) (bw_coach bk) w'"
proof -
  have "findUnique c_id (b_coachId (bw_booking bk)) (coaches w) \<noteq> None"
    using assms(2) by (simp add: coach_exists_def)
  then obtain s w1 where s: "settings_get (b_coachId (bw_booking bk)) w = (Inr s, w1)"
    by (cases "findUnique s_coachId (b_coachId (bw_booking bk)) (settingsRows w)")
      (auto simp: settings_get_def simp del: findUnique_None)
  obtain ics where i: "mail_ics nt kind bk s = Inr ics" using accepting_ics [OF assms(1)] by blast
  have h: "handed_over (nt_mailer nt) m = None" for m using assms(1) by (simp add: accepting_def)
  have "m_to (booking_mail nt Client kind bk s ics) = b_clientEmail (bw_booking bk)"
    "m_to (booking_mail nt ToCoach kind bk s ics) = c_email (bw_coach bk)"
    by (simp_all add: booking_mail_def Let_def)
  then have "informed (bw_booking bk) (bw_coach bk)
      (sent (booking_mail nt ToCoach kind bk s ics) (sent (booking_mail nt Client kind bk s ics) w1))"
    unfolding informed_def sent_frame by auto
  then show ?thesis unfolding notifyBooking_eq s andThen_Inr i by (simp add: h Let_def)
qed

text \<open>What every attempt, failed or not, leaves as it was.\<close>

definition same_case :: "world \<Rightarrow> job \<Rightarrow> booking \<Rightarrow> world \<Rightarrow> bool" where
  "same_case w0 j b w \<longleftrightarrow> eventTypes w = eventTypes w0 \<and> coaches w = coaches w0 \<and>
     googleIntegrations w = googleIntegrations w0 \<and>
     (\<exists>b'. findUnique b_id (j_bookingId j) (bookings w) = Some b' \<and> b_coachId b' = b_coachId b \<and>
       b_eventTypeId b' = b_eventTypeId b \<and> b_clientEmail b' = b_clientEmail b)"

lemma same_case_refl: "findUnique b_id (j_bookingId j) (bookings w) = Some b \<Longrightarrow> same_case w j b w"
  by (simp add: same_case_def)

lemma same_case_quiet: "same_case w0 j b w \<Longrightarrow> quiet w w' \<Longrightarrow> same_case w0 j b w'"
  by (simp add: same_case_def quiet_def)

lemma same_case_insert:
  assumes "same_case w0 j b w"
  shows "same_case w0 j b (w\<lparr>externals := xs\<rparr>)"
    "(\<And>x. b_id (f x) = b_id x \<and> b_coachId (f x) = b_coachId x \<and> b_eventTypeId (f x) = b_eventTypeId x \<and>
       b_clientEmail (f x) = b_clientEmail x) \<Longrightarrow>
     same_case w0 j b (w\<lparr>externals := xs, bookings := updateRow b_id k f (bookings w)\<rparr>)"
  using assms by (auto simp: same_case_def findUnique_updateRow)

lemma createMeetEvent_externals:
  "createMeetEvent cfg uuid ans c input w = (x, w') \<Longrightarrow> \<exists>xs. w' = w\<lparr>externals := xs\<rparr>"
  by (auto simp: createMeetEvent_def Let_def split: sum.splits if_splits intro: exI [of _ "externals w"])

lemma ensure_same:
  assumes "same_case w0 j b w" and "ensureMeetLink cfg a bk w = (x, w')"
  shows "same_case w0 j b w'"
proof (cases "needs_meeting (bw_booking bk)")
  case False
  then show ?thesis using assms ensure_skips [OF False] by simp
next
  case True
  obtain y w1 where c: "createMeetEvent cfg (at_uuid a) (at_answer a) (b_coachId (bw_booking bk)) (meet_input bk) w = (y, w1)"
    by fastforce
  obtain xs where w1: "w1 = w\<lparr>externals := xs\<rparr>" using createMeetEvent_externals [OF c] by blast
  have s1: "same_case w0 j b w1" unfolding w1 by (rule same_case_insert(1) [OF assms(1)])
  have n: "\<not> (b_location (bw_booking bk) \<noteq> GOOGLE_MEET \<or> truthy (b_meetLink (bw_booking bk)))"
    using True by (simp add: needs_meeting_def)
  show ?thesis
  proof (cases y)
    case (Inl e)
    then show ?thesis using assms(2) s1 unfolding ensureMeetLink_def Let_def if_not_P [OF n] c by simp
  next
    case (Inr me)
    then show ?thesis
      using assms(2) s1 same_case_insert(2) [OF assms(1), of "\<lambda>r. r\<lparr>b_meetLink := Some (me_meetLink me),
          b_googleEventId := Some (me_eventId me)\<rparr>"]
      unfolding ensureMeetLink_def Let_def if_not_P [OF n] c
      by (auto simp: booking_update_def w1 split: option.splits)
  qed
qed

lemma process_same:
  assumes "same_case w0 j b w" and "process cfg a j w = (x, w')"
  shows "same_case w0 j b w'"
proof -
  obtain b' where f: "findUnique b_id (j_bookingId j) (bookings w) = Some b'"
    using assms(1) by (auto simp: same_case_def)
  show ?thesis
  proof (cases "with_relations b' w")
    case None
    then show ?thesis using assms f by (simp add: process_eq)
  next
    case (Some bk)
    then have "andThen (if j_kind j \<noteq> Cancelled then ensureMeetLink cfg a bk w else (Inr bk, w))
        (notifyBooking (at_notifier a) (j_kind j)) = (x, w')"
      using assms(2) by (simp add: process_eq f)
    then show ?thesis
    proof (cases rule: andThen_cases)
      case (err e)
      then show ?thesis using assms(1) ensure_same by (auto split: if_splits)
    next
      case (ok bk' w1)
      then have "same_case w0 j b w1" using assms(1) ensure_same by (auto split: if_splits)
      then show ?thesis using notify_quiet [OF ok(2)] same_case_quiet by blast
    qed
  qed
qed

lemma notify_informs:
  assumes "notifyBooking nt kind bk w = (Inr (), w')"
  shows "informed (bw_booking bk) (bw_coach bk) w'"
proof -
  obtain s w1 where s: "settings_get (b_coachId (bw_booking bk)) w = (Inr s, w1)"
    using assms unfolding notifyBooking_eq by (elim andThen_InrD) auto
  obtain ics where i: "mail_ics nt kind bk s = Inr ics"
    using assms s unfolding notifyBooking_eq by (cases "mail_ics nt kind bk s") auto
  have "w' = sent (booking_mail nt ToCoach kind bk s ics) (sent (booking_mail nt Client kind bk s ics) w1)"
    using assms s i unfolding notifyBooking_eq by (auto simp: Let_def split: option.splits)
  moreover have "m_to (booking_mail nt Client kind bk s ics) = b_clientEmail (bw_booking bk)"
    "m_to (booking_mail nt ToCoach kind bk s ics) = c_email (bw_coach bk)"
    by (simp_all add: booking_mail_def Let_def)
  ultimately show ?thesis unfolding informed_def by auto
qed

lemma ensure_result:
  assumes "ensureMeetLink cfg a bk w = (Inr bk', w')" and "with_relations b w = Some bk"
    and "findUnique b_id (b_id b) (bookings w) = Some b"
  shows "b_clientEmail (bw_booking bk') = b_clientEmail b \<and> bw_coach bk' = bw_coach bk"
proof (cases "needs_meeting b")
  case False
  then show ?thesis using assms ensure_skips [of bk] with_relations_sel [OF assms(2)] by simp
next
  case True
  note bk = with_relations_sel [OF assms(2)]
  have n: "\<not> (b_location b \<noteq> GOOGLE_MEET \<or> truthy (b_meetLink b))"
    using True by (simp add: needs_meeting_def)
  have e: "andThen (createMeetEvent cfg (at_uuid a) (at_answer a) (b_coachId b) (meet_input bk) w)
      (\<lambda>meet w. andThen (booking_update (b_id b) (\<lambda>r. r\<lparr>b_meetLink := Some (me_meetLink meet),
            b_googleEventId := Some (me_eventId meet)\<rparr>) w)
          (\<lambda>updated w. case with_relations updated w of
              None \<Rightarrow> (Inl inconsistent, w) | Some bk' \<Rightarrow> (Inr bk', w))) = (Inr bk', w')"
    using assms(1) unfolding ensureMeetLink_def Let_def conjunct1 [OF bk] if_not_P [OF n] .
  obtain me w1 where c: "createMeetEvent cfg (at_uuid a) (at_answer a) (b_coachId b) (meet_input bk) w = (Inr me, w1)"
    and r: "andThen (booking_update (b_id b) (\<lambda>r. r\<lparr>b_meetLink := Some (me_meetLink me),
            b_googleEventId := Some (me_eventId me)\<rparr>) w1)
          (\<lambda>updated w. case with_relations updated w of
              None \<Rightarrow> (Inl inconsistent, w) | Some bk' \<Rightarrow> (Inr bk', w)) = (Inr bk', w')"
    by (rule andThen_InrD [OF e]) blast
  obtain xs where w1: "w1 = w\<lparr>externals := xs\<rparr>" using createMeetEvent_externals [OF c] by blast
  show ?thesis
    using r assms(2,3)
    by (auto simp: booking_update_def w1 with_relations_def simp del: findUnique_None split: option.splits)
qed

lemma process_case:
  assumes "same_case w0 j b w" and "with_relations b w0 = Some bk0"
  shows "\<exists>b' bk. findUnique b_id (j_bookingId j) (bookings w) = Some b' \<and> j_bookingId j = b_id b' \<and>
    with_relations b' w = Some bk \<and> bw_booking bk = b' \<and> bw_coach bk = bw_coach bk0 \<and>
    b_clientEmail b' = b_clientEmail b \<and> b_coachId b' = b_coachId b \<and>
    (\<forall>cfg a. process cfg a j w = andThen (if j_kind j \<noteq> Cancelled then ensureMeetLink cfg a bk w else (Inr bk, w))
        (notifyBooking (at_notifier a) (j_kind j)))"
proof -
  obtain b' where f: "findUnique b_id (j_bookingId j) (bookings w) = Some b'"
    and s: "b_coachId b' = b_coachId b" "b_eventTypeId b' = b_eventTypeId b" "b_clientEmail b' = b_clientEmail b"
    and w: "eventTypes w = eventTypes w0" "coaches w = coaches w0"
    using assms(1) by (auto simp: same_case_def)
  have r: "with_relations b' w = Some (bk0\<lparr>bw_booking := b'\<rparr>)"
    using assms(2) s w by (auto simp: with_relations_def simp del: findUnique_None split: option.splits)
  show ?thesis
    by (intro exI [of _ b'] exI [of _ "bk0\<lparr>bw_booking := b'\<rparr>"])
      (use findUnique_key [OF f] s in \<open>simp add: process_eq f r\<close>)
qed

lemma process_informs:
  assumes "same_case w0 j b w" and "with_relations b w0 = Some bk0" and "process cfg a j w = (Inr (), w')"
  shows "informed b (bw_coach bk0) w'"
proof -
  obtain b' bk where c: "findUnique b_id (j_bookingId j) (bookings w) = Some b'" "j_bookingId j = b_id b'"
    "with_relations b' w = Some bk" "bw_booking bk = b'" "bw_coach bk = bw_coach bk0"
    "b_clientEmail b' = b_clientEmail b" "b_coachId b' = b_coachId b"
    and p: "\<forall>cfg a. process cfg a j w = andThen (if j_kind j \<noteq> Cancelled then ensureMeetLink cfg a bk w else (Inr bk, w))
        (notifyBooking (at_notifier a) (j_kind j))"
    using process_case [OF assms(1,2)] by blast
  obtain bk' w1 where e: "(if j_kind j \<noteq> Cancelled then ensureMeetLink cfg a bk w else (Inr bk, w)) = (Inr bk', w1)"
    and n: "notifyBooking (at_notifier a) (j_kind j) bk' w1 = (Inr (), w')"
    by (rule andThen_InrD [OF assms(3) [unfolded p [rule_format]]]) blast
  have "b_clientEmail (bw_booking bk') = b_clientEmail b' \<and> bw_coach bk' = bw_coach bk"
    using e ensure_result [OF _ c(3)] c(1,2,4) by (auto split: if_splits)
  then show ?thesis using notify_informs [OF n] c(5,6) by (simp add: informed_def)
qed

lemma process_good:
  assumes "same_case w0 j b w" and "with_relations b w0 = Some bk0" and "good_attempt a"
    and "getAuthenticatedClient cfg (b_coachId b) w0 = Inr t"
  shows "\<exists>w'. process cfg a j w = (Inr (), w')"
proof -
  obtain b' bk where c: "findUnique b_id (j_bookingId j) (bookings w) = Some b'" "j_bookingId j = b_id b'"
    "with_relations b' w = Some bk" "bw_booking bk = b'" "bw_coach bk = bw_coach bk0"
    "b_clientEmail b' = b_clientEmail b" "b_coachId b' = b_coachId b"
    and p: "\<forall>cfg a. process cfg a j w = andThen (if j_kind j \<noteq> Cancelled then ensureMeetLink cfg a bk w else (Inr bk, w))
        (notifyBooking (at_notifier a) (j_kind j))"
    using process_case [OF assms(1,2)] by blast
  obtain r where r: "at_answer a = Inr r" "complete_answer r" and acc: "accepting (at_notifier a)"
    using assms(3) by (auto simp: good_attempt_def)
  have t: "getAuthenticatedClient cfg (b_coachId b') w = Inr t"
    using assms(1,4) c(7) getAuthenticatedClient_frame by (metis same_case_def)
  have ex: "coach_exists (b_coachId b') w"
    using with_relations_sel [OF c(3)] findUnique_Some unfolding coach_exists_def by (metis imageI)
  have f: "findUnique b_id (b_id b') (bookings w) = Some b'" using c(1,2) by simp
  obtain bk' w1 where e: "(if j_kind j \<noteq> Cancelled then ensureMeetLink cfg a bk w else (Inr bk, w)) = (Inr bk', w1)"
    and k: "b_coachId (bw_booking bk') = b_coachId b'" "coaches w1 = coaches w"
  proof (cases "j_kind j \<noteq> Cancelled \<and> needs_meeting b'")
    case True
    show ?thesis
      by (rule that [of "bk\<lparr>bw_booking := linked r b'\<rparr>" "w\<lparr>externals := externals w @ [meeting a r bk],
            bookings := updateRow b_id (b_id b') (linked r) (bookings w)\<rparr>"])
        (use ensure_creates [OF _ c(3) f t r] True in simp_all)
  next
    case False
    show ?thesis
      by (rule that [of bk w]) (use ensure_skips [of bk cfg a w] False c(4) in auto)
  qed
  show ?thesis
    using notify_accepted [OF acc, of bk' w1 "j_kind j"] ex k unfolding p [rule_format] e
    by (auto simp: coach_exists_def)
qed

lemma attempts_good:
  assumes "same_case w0 j b w" and "with_relations b w0 = Some bk0" and "list_ex good_attempt (a # as)"
    and "getAuthenticatedClient cfg (b_coachId b) w0 = Inr t"
  shows "\<exists>w'. attempts cfg j a as w = (Inr (), w') \<and> informed b (bw_coach bk0) w'"
  using assms(1,3)
proof (induction as arbitrary: a w)
  case Nil
  then have "good_attempt a" by simp
  then obtain w' where "process cfg a j w = (Inr (), w')"
    using process_good [OF Nil.prems(1) assms(2) _ assms(4)] by blast
  then show ?case using process_informs [OF Nil.prems(1) assms(2)] by auto
next
  case (Cons a' as)
  obtain x w1 where p: "process cfg a j w = (x, w1)" by fastforce
  show ?case
  proof (cases x)
    case (Inr u)
    then show ?thesis using process_informs [OF Cons.prems(1) assms(2)] p by auto
  next
    case (Inl e)
    then have "\<not> good_attempt a"
      using process_good [OF Cons.prems(1) assms(2) _ assms(4)] p by (metis Inl_Inr_False prod.inject)
    then show ?thesis
      using Cons.IH [OF process_same [OF Cons.prems(1) p]] Cons.prems(2) Inl by (simp add: p)
  qed
qed

text \<open>
  C11: a job gets through: if at one of its up to four attempts the mails are accepted and the
  calendar answers with an event, the job ends well and the client and the coach have been
  sent their mails, whatever the other attempts met.
\<close>

theorem job_gets_through:
  assumes "constraints_ok w" and "findUnique b_id (j_bookingId j) (bookings w) = Some b"
    and "getAuthenticatedClient cfg (b_coachId b) w = Inr t"
    and "list_ex good_attempt (first # take 3 retries)"
  shows "\<exists>w' c. work cfg j first retries w = (Inr (), w') \<and>
    findUnique c_id (b_coachId b) (coaches w) = Some c \<and> informed b c w'"
proof -
  obtain bk where bk: "with_relations b w = Some bk" "bw_booking bk = b"
    using with_relations_exists [OF assms(1)] findUnique_in [OF assms(2)] by blast
  have "list_ex good_attempt (first # take retryLimit retries)" using assms(4) by (simp add: retryLimit_def)
  from attempts_good [OF same_case_refl [of j w b, OF assms(2)] bk(1) this assms(3)]
  show ?thesis using with_relations_sel [OF bk(1)] by (auto simp: work_def)
qed

section \<open>A booking that is cancelled before its job\<close>

lemma cancel_leaves_row:
  assumes "constraints_ok w" and "cancelByClient cfg lx now token reason w = (Inr b, w')"
  shows "b_status b = CANCELLED \<and> findUnique b_id (b_id b) (bookings w') = Some b"
proof -
  obtain b0 w1 where c: "client_may_change lx now token w = (Inr b0, w1)"
    "cancel_and_notify cfg b0 CLIENT reason w1 = (Inr b, w')"
    using assms(2) unfolding cancelByClient_def by (elim andThen_InrD)
  note fr = client_may_change_frame [OF c(1)]
  have b0: "b0 \<in> set (bookings w1)"
    using c(1) by (rule client_may_change_InrD) (simp add: findUnique_in beside_settingsD(5) [OF fr])
  have d: "distinct (map b_id (bookings w1))"
    using schema.inv_client_may_change [OF assms(1) c(1)] by (simp add: constraints_ok_def)
  have "b = cancelled_row CLIENT reason b0 \<and> bookings w' = updateRow b_id (b_id b0) (cancelled_row CLIENT reason) (bookings w1)"
    using cancel_outcome [OF d b0 c(2)] by simp
  then show ?thesis
    using findUnique_distinct [OF d b0] by (auto simp: findUnique_updateRow cancelled_row_def)
qed

lemma good_sound: "good_attempt a \<Longrightarrow> sound_answer a"
  by (auto simp: good_attempt_def sound_answer_def)

text \<open>
  C40: a booking cancelled before its confirmation job has run gets a meeting after all: the
  job does not look at the status.  It makes the event and sends the confirmation; the job of
  the cancellation does not remove the event, so it stays in the coach's calendar.
\<close>

theorem cancelled_booking_gets_meeting:
  assumes "constraints_ok w" and "cancelByClient cfg lx now token reason w = (Inr b, w1)"
    and "needs_meeting b" and "getAuthenticatedClient cfg (b_coachId b) w1 = Inr t"
    and "good_attempt a" "good_attempt a'"
  shows "\<exists>w2 w3 b' event request.
    process cfg a \<lparr>j_bookingId = b_id b, j_coachId = b_coachId b, j_kind = Confirmed\<rparr> w1 = (Inr (), w2) \<and>
    process cfg a' \<lparr>j_bookingId = b_id b, j_coachId = b_coachId b, j_kind = Cancelled\<rparr> w2 = (Inr (), w3) \<and>
    calendar_log w3 = calendar_log w1 @ [CalendarInsert (b_coachId b) event request] \<and>
    findUnique b_id (b_id b) (bookings w3) = Some b' \<and> b_status b' = CANCELLED \<and>
    b_googleEventId b' = Some event"
proof -
  let ?j = "\<lparr>j_bookingId = b_id b, j_coachId = b_coachId b, j_kind = Confirmed\<rparr>"
  let ?k = "\<lparr>j_bookingId = b_id b, j_coachId = b_coachId b, j_kind = Cancelled\<rparr>"
  have ok: "constraints_ok w1" by (rule schema.inv_cancelByClient [OF assms(1,2)])
  have row: "b_status b = CANCELLED" "findUnique b_id (b_id b) (bookings w1) = Some b"
    using cancel_leaves_row [OF assms(1,2)] by simp_all
  obtain bk where bk: "with_relations b w1 = Some bk" "bw_booking bk = b"
    using with_relations_exists [OF ok] findUnique_in [OF row(2)] by blast
  have s: "same_case w1 ?j b w1" "same_case w1 ?k b w1" using row(2) by (simp_all add: same_case_refl)
  obtain w2 where p2: "process cfg a ?j w1 = (Inr (), w2)"
    using process_good [OF s(1) bk(1) assms(5,4)] by blast
  have "pending w1 ?j b w1" using row(2) by (simp add: pending_def)
  from process_pending [OF this bk(1) assms(3) _ good_sound [OF assms(5)] p2]
  obtain r where m: "met w1 ?j b bk a r w2" by auto
  have "same_case w1 ?k b w2"
    using process_same [OF s(1) p2] by (simp add: same_case_def)
  then obtain w3 where p3: "process cfg a' ?k w2 = (Inr (), w3)"
    using process_good [OF _ bk(1) assms(6,4)] by blast
  have "met w1 ?k b bk a r w2" using m by (simp add: met_def)
  from process_met [OF this bk(1) p3] have m3: "met w1 ?k b bk a r w3" .
  obtain event where ev: "ia_id r = Some event"
    using m3 by (auto simp: met_def complete_answer_def truthy_def)
  have "calendar_log w3 = calendar_log w1 @ [CalendarInsert (b_coachId b) event (insert_request (at_uuid a) (meet_input bk))]"
    "findUnique b_id (b_id b) (bookings w3) = Some (linked r b)"
    "b_status (linked r b) = CANCELLED" "b_googleEventId (linked r b) = Some event"
    using m3 ev row(1) by (simp_all add: met_def meeting_def bk(2) linked_def)
  with p2 p3 show ?thesis by blast
qed

section \<open>A concrete job\<close>

definition demo_iv :: string where "demo_iv = replicate 12 CHR ''i''"

definition demo_payload :: string where
  "demo_payload = the (encrypt toy_gcm demo_iv ''tok'' (cf_encryptionKey demo_cfg))"

definition connected :: "world \<Rightarrow> world" where
  "connected w = w\<lparr>googleIntegrations := [\<lparr> g_coachId = ''c1'', g_refreshTokenEncrypted = demo_payload,
     g_connectedEmail = ''a@gmail.com'', g_connectedAt = 0 \<rparr>]\<rparr>"

lemma demo_key: "length (from_base64 (cf_encryptionKey demo_cfg)) = 32"
  by code_simp

lemma connected_client:
  assumes "googleIntegrations w = googleIntegrations (connected w0)"
  shows "getAuthenticatedClient demo_cfg ''c1'' w = Inr ''tok''"
proof -
  have "encrypt toy_gcm demo_iv ''tok'' (cf_encryptionKey demo_cfg) = Some demo_payload"
    using demo_key by (simp add: demo_payload_def encrypt_def toy_gcm_def)
  then have "decrypt toy_gcm demo_payload (cf_encryptionKey demo_cfg) = Some ''tok''"
    by (intro decrypt_encrypt [OF toy_gcm_laws]) (simp_all add: demo_iv_def IV_LENGTH_def)
  then show ?thesis
    by (simp add: getAuthenticatedClient_def assms connected_def demo_cfg_def)
qed

definition online_booking :: booking where
  "online_booking = (demo_booking ''b1'' ''t1'')\<lparr>b_location := GOOGLE_MEET\<rparr>"

definition online_world :: world where
  "online_world = connected (demo_world\<lparr>bookings := [online_booking]\<rparr>)"

definition event_answer :: insertAnswer where
  "event_answer = \<lparr> ia_id = Some ''ev'', ia_hangoutLink = Some ''https://meet'', ia_entryPoints = [] \<rparr>"

definition demo_attempt :: attempt where
  "demo_attempt = \<lparr> at_notifier = demo_notifier\<lparr>nt_mailer := \<lparr> ml_resendApiKey = Some ''key'', ml_answer = (\<lambda>m. None) \<rparr>\<rparr>,
     at_uuid = ''u'', at_answer = Inr event_answer \<rparr>"

definition failing_attempt :: attempt where
  "failing_attempt = demo_attempt\<lparr>at_notifier := demo_notifier\<lparr>nt_mailer := \<lparr> ml_resendApiKey = None,
     ml_answer = (\<lambda>m. if m_to m = ''e@c.hu'' then None else Some ''451'') \<rparr>\<rparr>\<rparr>"

definition demo_job :: job where
  "demo_job = \<lparr> j_bookingId = ''b1'', j_coachId = ''c1'', j_kind = Confirmed \<rparr>"

lemma demo_answer_complete: "complete_answer event_answer"
  by (simp add: complete_answer_def event_answer_def answer_link_def truthy_def)

lemma demo_attempt_good: "good_attempt demo_attempt"
  by (auto simp: good_attempt_def accepting_def demo_attempt_def demo_notifier_def handed_over_def truthy_def
      demo_answer_complete split: option.splits)

lemma failing_attempt_sound: "sound_answer failing_attempt"
  by (simp add: sound_answer_def failing_attempt_def demo_attempt_def demo_answer_complete)

lemma online_sel:
  "b_id online_booking = ''b1''" "b_coachId online_booking = ''c1''" "b_manageToken online_booking = ''t1''"
  "b_status online_booking = CONFIRMED" "b_startAt online_booking = demo_start"
  "b_googleEventId online_booking = None" "b_locale online_booking = ''hu''"
  "bookings online_world = [online_booking]" "coaches online_world = [demo_coach]"
  "googleIntegrations online_world = googleIntegrations (connected online_world)"
  by (simp_all add: online_booking_def demo_booking_sel online_world_def connected_def demo_world_def)

lemma online_needs: "needs_meeting online_booking"
  by (simp add: needs_meeting_def online_booking_def demo_booking_def new_booking_def truthy_def)

lemma online_constraints: "constraints_ok online_world"
  by (simp add: online_world_def connected_def constraints_ok_def demo_world_def empty_world_def sites_unique_def
      coach_exists_def demo_coach_def demo_event_def demo_weekly_def demo_settings_def default_settings_def
      online_booking_def demo_booking_def new_booking_def demo_dto_def)

lemma online_found: "findUnique b_id (j_bookingId demo_job) (bookings online_world) = Some online_booking"
  by (simp add: online_sel demo_job_def)

lemma online_client: "getAuthenticatedClient demo_cfg (b_coachId online_booking) online_world = Inr ''tok''"
  unfolding online_sel(2) by (rule connected_client [OF online_sel(10)])

lemma online_tries: "list_ex good_attempt (failing_attempt # take 3 [demo_attempt])"
  by (simp add: demo_attempt_good)

lemma online_work: "\<exists>w'. work demo_cfg demo_job failing_attempt [demo_attempt] online_world = (Inr (), w')"
proof -
  obtain bk where "with_relations online_booking online_world = Some bk"
    using with_relations_exists [OF online_constraints] findUnique_in [OF online_found] by blast
  from attempts_good [OF same_case_refl [OF online_found] this online_tries online_client]
  show ?thesis unfolding work_def retryLimit_def by blast
qed


lemma job_gets_through_witness:
  "\<exists>w' c. work demo_cfg demo_job failing_attempt [demo_attempt] online_world = (Inr (), w') \<and>
    informed online_booking c w'"
  using job_gets_through [OF online_constraints online_found online_client online_tries] by blast

lemma online_cancel:
  "\<exists>w1. cancelByClient demo_cfg demo_lx demo_now ''t1'' None online_world =
     (Inr (cancelled_row CLIENT None online_booking), w1) \<and>
     googleIntegrations w1 = googleIntegrations (connected online_world)"
proof -
  have s: "settings_get ''c1'' online_world = (Inr demo_settings, online_world)"
    by (simp add: settings_get_def online_world_def connected_def demo_world_def demo_coach_def
        demo_settings_def default_settings_def)
  have "\<not> demo_start < lx_plusHours demo_lx demo_now 48"
    by (simp add: demo_start_def demo_lx_def zone_clock_def demo_now_def)
  then have "client_may_change demo_lx demo_now ''t1'' online_world = (Inr online_booking, online_world)"
    by (simp add: client_may_change_def findByManageToken_def assertConfirmed_def assertWithinNoticeWindow_def
        online_sel s) (simp add: demo_settings_def default_settings_def)
  then show ?thesis
    by (simp add: cancelByClient_def cancel_and_notify_def applyCancellation_def booking_update_def
        online_sel truthy_def connected_def)
qed

lemma cancelled_booking_gets_meeting_witness:
  "\<exists>w1 w3 b' event request.
    cancelByClient demo_cfg demo_lx demo_now ''t1'' None online_world =
      (Inr (cancelled_row CLIENT None online_booking), w1) \<and>
    calendar_log w3 = calendar_log w1 @ [CalendarInsert ''c1'' event request] \<and>
    findUnique b_id ''b1'' (bookings w3) = Some b' \<and> b_status b' = CANCELLED"
proof -
  obtain w1 where c: "cancelByClient demo_cfg demo_lx demo_now ''t1'' None online_world =
     (Inr (cancelled_row CLIENT None online_booking), w1)"
    and g: "googleIntegrations w1 = googleIntegrations (connected online_world)"
    using online_cancel by blast
  have b: "b_id (cancelled_row CLIENT None online_booking) = ''b1''"
    "b_coachId (cancelled_row CLIENT None online_booking) = ''c1''"
    by (simp_all add: cancelled_row_def online_sel)
  have "needs_meeting (cancelled_row CLIENT None online_booking)"
    using online_needs by (simp add: needs_meeting_def cancelled_row_def)
  from cancelled_booking_gets_meeting [OF online_constraints c this _ demo_attempt_good demo_attempt_good]
  show ?thesis using c connected_client [OF g] unfolding b by blast
qed

end
