(* ===== verification/Api.thy ===== *)
theory Api
  imports Coaches AllowedOrigins EventTypes NotificationJobs
begin

text \<open>
  The routes of the program (the controllers, their guards and their DTOs).  A request is
  first authenticated as its route demands, then its body is checked, then its handler runs:
  the order of the framework.  Bodies are typed; a body of another shape is one that fails
  the check.

  The state is the cache of allowed origins of the instance and the database.  What a request
  brings besides its body, and what the outside answers during it, is the record
  \<open>exchange\<close>; the checks of formats (addresses, URLs, dates, phones, zones) belong to the
  validation library and are parameters.
\<close>

section \<open>Requests\<close>

text \<open>A request of each controller, with its path and query parameters and its body.\<close>

datatype authRequest = Login string string | ForgotPassword string | ResetPassword string string

datatype coachesRequest =
    ListCoaches | Me | UpdateMe updateCoachDto | ChangePassword string string
  | InviteCoach inviteCoachDto | AcceptInvite string string | RevokeSessions string
  | SetFrontendUrl string string

datatype eventTypesRequest =
    ActiveEventTypes string | MyEventTypes "string option" | CreateEventType createEventTypeDto
  | ReorderEventTypes "string list" | UpdateEventType string updateEventTypeDto
  | ArchiveEventType string | RemoveEventType string

datatype availabilityRequest =
    MyWeekly "string option" | CreateWeekly int int int | UpdateWeekly string weeklyDto
  | RemoveWeekly string
  | MyOverrides "string option" | CreateOverride string overrideDto
  | UpdateOverride string overrideDto | RemoveOverride string

datatype bookingsRequest =
    ListBookings "string option" | CreateBooking createBookingDto | FindByToken string
  | CancelByClient string "string option" | RescheduleByClient string string
  | CancelByCoach string string

datatype settingsRequest = GetSettings string | UpdateSettings updateSettingsDto
datatype googleRequest = ConnectToken | Connect string | Callback string string | GoogleStatus
datatype originsRequest = ListOrigins | AddOrigin string "string option" | RemoveOrigin string

datatype apiRequest =
    AuthR authRequest | CoachesR coachesRequest | EventTypesR eventTypesRequest
  | AvailabilityR availabilityRequest | SlotsR querySlotsDto | BookingsR bookingsRequest
  | SettingsR settingsRequest | GoogleR googleRequest | OriginsR originsRequest | HealthR

datatype reply =
    Done | SessionOf string coach | ACoach coach | SomeCoaches "coach list"
  | AnEventType eventType | SomeEventTypes "eventType list"
  | AWeekly weeklyAvailability | SomeWeekly "weeklyAvailability list"
  | AnOverride availabilityOverride | SomeOverrides "availabilityOverride list"
  | SomeSlots "slot list" | ABooking booking | SomeBookings "booking list"
  | TheSettings settings | State string | Redirect string | Connected
  | Status "(string \<times> int) option" | AnOrigin allowedOrigin | SomeOrigins "allowedOrigin list"
  | Ok

record checks =
  ck_email :: "string \<Rightarrow> bool"
  ck_url :: "string \<Rightarrow> bool"
  ck_phone :: "string \<Rightarrow> bool"
  ck_iso8601 :: "string \<Rightarrow> bool"
  ck_dateString :: "string \<Rightarrow> bool"
  ck_timeZone :: "string \<Rightarrow> bool"

record apiEnv =
  av_auth :: authEnv
  av_config :: config
  av_luxon :: luxon
  av_parse :: url_parser
  av_collate :: "string \<Rightarrow> nat"
  av_checks :: checks
  av_authUrl :: "string \<Rightarrow> string"  \<comment> \<open>generateAuthUrl for a state\<close>

record exchange =
  rq_authorization :: "string option"
  rq_origin :: "string option"
  rq_referer :: "string option"
  rq_clock :: "nat \<Rightarrow> int"              \<comment> \<open>the successive readings of the clock\<close>
  rq_newId :: string
  rq_nanoid :: string
  rq_salt :: string
  rq_refused :: "nat \<Rightarrow> bool"           \<comment> \<open>serialization failures of the database\<close>
  rq_iv :: string
  rq_tokens :: "err + string option"
  rq_userInfo :: "err + string option"

section \<open>Who may call a route\<close>

datatype access = Public | Session | AdminOnly

text \<open>The \<open>@UseGuards\<close> and \<open>@Roles\<close> decorators of the routes.\<close>

fun coaches_access :: "coachesRequest \<Rightarrow> access" where
  "coaches_access ListCoaches = AdminOnly"
| "coaches_access Me = Session"
| "coaches_access (UpdateMe _) = Session"
| "coaches_access (ChangePassword _ _) = Session"
| "coaches_access (InviteCoach _) = AdminOnly"
| "coaches_access (AcceptInvite _ _) = Public"
| "coaches_access (RevokeSessions _) = AdminOnly"
| "coaches_access (SetFrontendUrl _ _) = AdminOnly"

fun bookings_access :: "bookingsRequest \<Rightarrow> access" where
  "bookings_access (ListBookings _) = Session"
| "bookings_access (CreateBooking _) = Public"
| "bookings_access (FindByToken _) = Public"
| "bookings_access (CancelByClient _ _) = Public"
| "bookings_access (RescheduleByClient _ _) = Public"
| "bookings_access (CancelByCoach _ _) = Session"

fun access_of :: "apiRequest \<Rightarrow> access" where
  "access_of (AuthR _) = Public"
| "access_of (CoachesR r) = coaches_access r"
| "access_of (EventTypesR r) = (case r of ActiveEventTypes _ \<Rightarrow> Public | _ \<Rightarrow> Session)"
| "access_of (AvailabilityR _) = Session"
| "access_of (SlotsR _) = Public"
| "access_of (BookingsR r) = bookings_access r"
| "access_of (SettingsR r) = (case r of GetSettings _ \<Rightarrow> Public | UpdateSettings _ \<Rightarrow> Session)"
| "access_of (GoogleR r) =
    (case r of Connect _ \<Rightarrow> Public | Callback _ _ \<Rightarrow> Public | ConnectToken \<Rightarrow> Session | GoogleStatus \<Rightarrow> Session)"
| "access_of (OriginsR _) = AdminOnly"
| "access_of HealthR = Public"

definition guards :: "apiEnv \<Rightarrow> exchange \<Rightarrow> access \<Rightarrow> world \<Rightarrow> err + coach option" where
  "guards env rq acc w =
    (case acc of
       Public \<Rightarrow> Inr None
     | Session \<Rightarrow> map_sum id Some (authorize (av_auth env) (rq_clock rq 0) None (rq_authorization rq) w)
     | AdminOnly \<Rightarrow>
         map_sum id Some (authorize (av_auth env) (rq_clock rq 0) (Some [ADMIN]) (rq_authorization rq) w))"

section \<open>Validation of bodies (the DTOs)\<close>

text \<open>The validation library counts characters: the bytes that do not continue one.\<close>

definition text_length :: "string \<Rightarrow> nat" where
  "text_length s = length (filter (\<lambda>c. of_char c div 64 \<noteq> (2 :: nat)) s)"

definition optional :: "('a \<Rightarrow> bool) \<Rightarrow> 'a option \<Rightarrow> bool" where
  "optional p x = (case x of None \<Rightarrow> True | Some v \<Rightarrow> p v)"

definition valid_login :: "checks \<Rightarrow> string \<Rightarrow> string \<Rightarrow> bool" where
  "valid_login ck email password \<longleftrightarrow> ck_email ck email \<and> 1 \<le> text_length password"

definition valid_forgot_password :: "checks \<Rightarrow> string \<Rightarrow> bool" where
  "valid_forgot_password ck email \<longleftrightarrow> ck_email ck email"

definition valid_reset_password :: "string \<Rightarrow> bool" where
  "valid_reset_password newPassword \<longleftrightarrow> 8 \<le> text_length newPassword"

definition valid_change_password :: "string \<Rightarrow> bool" where
  "valid_change_password newPassword \<longleftrightarrow> 8 \<le> text_length newPassword"

definition valid_accept_invite :: "string \<Rightarrow> bool" where
  "valid_accept_invite password \<longleftrightarrow> 8 \<le> text_length password"

definition valid_frontend_url :: "checks \<Rightarrow> string \<Rightarrow> bool" where
  "valid_frontend_url ck url \<longleftrightarrow> ck_url ck url"

definition valid_reorder :: "string list \<Rightarrow> bool" where
  "valid_reorder ids \<longleftrightarrow> 1 \<le> length ids"

definition valid_reschedule :: "checks \<Rightarrow> string \<Rightarrow> bool" where
  "valid_reschedule ck startAt \<longleftrightarrow> ck_iso8601 ck startAt"

definition valid_client_cancel :: "string option \<Rightarrow> bool" where
  "valid_client_cancel reason \<longleftrightarrow> optional (\<lambda>r. text_length r \<le> 2000) reason"

definition valid_coach_cancel :: "string \<Rightarrow> bool" where
  "valid_coach_cancel reason \<longleftrightarrow> text_length reason \<le> 2000"

definition valid_invite :: "checks \<Rightarrow> inviteCoachDto \<Rightarrow> bool" where
  "valid_invite ck dto \<longleftrightarrow> ck_email ck (ic_email dto) \<and> 1 \<le> text_length (ic_name dto) \<and>
     ck_url ck (ic_frontendUrl dto)"

definition valid_update_coach :: "updateCoachDto \<Rightarrow> bool" where
  "valid_update_coach dto \<longleftrightarrow> patch_ok (\<lambda>n. 1 \<le> text_length n) (uc_name dto) \<and>
     patch_ok (\<lambda>l. l \<in> {''hu'', ''en''}) (uc_preferredLocale dto)"

definition valid_create_booking :: "checks \<Rightarrow> createBookingDto \<Rightarrow> bool" where
  "valid_create_booking ck dto \<longleftrightarrow>
     ck_iso8601 ck (cb_startAt dto) \<and>
     1 \<le> text_length (cb_clientName dto) \<and> text_length (cb_clientName dto) \<le> 200 \<and>
     ck_email ck (cb_clientEmail dto) \<and> ck_phone ck (cb_clientPhone dto) \<and>
     optional (\<lambda>n. text_length n \<le> 2000) (cb_clientNote dto) \<and> cb_locale dto \<in> {''hu'', ''en''}"

definition valid_update_settings :: "checks \<Rightarrow> updateSettingsDto \<Rightarrow> bool" where
  "valid_update_settings ck dto \<longleftrightarrow> valid_settings_dto dto \<and>
     patch_ok (ck_timeZone ck) (us_businessTimezone dto) \<and>
     (case us_emailBrandPalette dto of JUndefined \<Rightarrow> True | JNull \<Rightarrow> True | JObj _ \<Rightarrow> True | _ \<Rightarrow> False)"

definition valid_query_slots :: "checks \<Rightarrow> querySlotsDto \<Rightarrow> bool" where
  "valid_query_slots ck q \<longleftrightarrow> ck_dateString ck (q_from q) \<and> ck_dateString ck (q_to q)"

fun valid_auth :: "checks \<Rightarrow> authRequest \<Rightarrow> bool" where
  "valid_auth ck (Login email password) = valid_login ck email password"
| "valid_auth ck (ForgotPassword email) = valid_forgot_password ck email"
| "valid_auth ck (ResetPassword _ newPassword) = valid_reset_password newPassword"

fun valid_coaches :: "checks \<Rightarrow> coachesRequest \<Rightarrow> bool" where
  "valid_coaches ck (UpdateMe dto) = valid_update_coach dto"
| "valid_coaches ck (ChangePassword _ newPassword) = valid_change_password newPassword"
| "valid_coaches ck (InviteCoach dto) = valid_invite ck dto"
| "valid_coaches ck (AcceptInvite _ password) = valid_accept_invite password"
| "valid_coaches ck (SetFrontendUrl _ url) = valid_frontend_url ck url"
| "valid_coaches ck _ = True"

fun valid_event_types :: "eventTypesRequest \<Rightarrow> bool" where
  "valid_event_types (CreateEventType dto) = valid_create_event_type dto"
| "valid_event_types (ReorderEventTypes ids) = valid_reorder ids"
| "valid_event_types (UpdateEventType _ dto) = valid_update_event_type dto"
| "valid_event_types _ = True"

fun valid_availability :: "checks \<Rightarrow> availabilityRequest \<Rightarrow> bool" where
  "valid_availability ck (CreateWeekly d s e) =
     valid_weekly_dto \<lparr> wd_weekday = Some d, wd_startMinute = Some s, wd_endMinute = Some e \<rparr>"
| "valid_availability ck (UpdateWeekly _ dto) = valid_weekly_dto dto"
| "valid_availability ck (CreateOverride date dto) = (ck_dateString ck date \<and> valid_override_dto dto)"
| "valid_availability ck (UpdateOverride _ dto) =
     (optional (ck_dateString ck) (od_date dto) \<and> valid_override_dto dto)"
| "valid_availability ck _ = True"

fun valid_bookings :: "checks \<Rightarrow> bookingsRequest \<Rightarrow> bool" where
  "valid_bookings ck (CreateBooking dto) = valid_create_booking ck dto"
| "valid_bookings ck (CancelByClient _ reason) = valid_client_cancel reason"
| "valid_bookings ck (RescheduleByClient _ startAt) = valid_reschedule ck startAt"
| "valid_bookings ck (CancelByCoach _ reason) = valid_coach_cancel reason"
| "valid_bookings ck _ = True"

definition valid_origin :: "checks \<Rightarrow> string \<Rightarrow> string option \<Rightarrow> bool" where
  "valid_origin ck origin label \<longleftrightarrow> ck_url ck origin \<and> optional (\<lambda>l. text_length l \<le> 200) label"

fun valid_body :: "checks \<Rightarrow> apiRequest \<Rightarrow> bool" where
  "valid_body ck (AuthR r) = valid_auth ck r"
| "valid_body ck (CoachesR r) = valid_coaches ck r"
| "valid_body ck (EventTypesR r) = valid_event_types r"
| "valid_body ck (AvailabilityR r) = valid_availability ck r"
| "valid_body ck (SlotsR q) = valid_query_slots ck q"
| "valid_body ck (BookingsR r) = valid_bookings ck r"
| "valid_body ck (SettingsR (UpdateSettings dto)) = valid_update_settings ck dto"
| "valid_body ck (OriginsR (AddOrigin origin label)) = valid_origin ck origin label"
| "valid_body ck _ = True"

end
