(* ===== verification/Controllers.thy ===== *)
theory Controllers
  imports Api
begin

text \<open>
  The handlers of the routes and the way a request takes: guards, validation, handler.  A
  handler that needs the coach of the session gets the one the guard attached
  (\<open>@CurrentCoach\<close>); on a route without a guard there is none.  The result is an option: a
  query for slots whose day loop never ends has no answer.
\<close>

section \<open>Lifting operations\<close>

type_synonym answer = "(origins_state, reply) outcome option"

definition on_world :: "('a \<Rightarrow> reply) \<Rightarrow> (world \<Rightarrow> (world, 'a) outcome) \<Rightarrow> origins_state \<Rightarrow> answer" where
  "on_world f op st =
    (case st of (oc, w) \<Rightarrow> case op w of (x, w') \<Rightarrow> Some (map_sum id f x, (oc, w')))"

definition on_origins :: "('a \<Rightarrow> reply) \<Rightarrow> (origins_state \<Rightarrow> (origins_state, 'a) outcome) \<Rightarrow> origins_state \<Rightarrow> answer" where
  "on_origins f op st = (case op st of (x, st') \<Rightarrow> Some (map_sum id f x, st'))"

definition reads :: "(world \<Rightarrow> err + reply) \<Rightarrow> origins_state \<Rightarrow> answer" where
  "reads f st = Some (f (snd st), st)"

section \<open>Controllers\<close>

fun auth_controller :: "apiEnv \<Rightarrow> exchange \<Rightarrow> authRequest \<Rightarrow> origins_state \<Rightarrow> answer" where
  "auth_controller env rq (Login email password) =
     on_world (\<lambda>(k, c). SessionOf k c) (login (av_auth env) (rq_clock rq 1) email password)"
| "auth_controller env rq (ForgotPassword email) =
     on_world (\<lambda>_. Done)
       (auth_forgotPassword (av_parse env) (av_auth env) (rq_clock rq 1) email (rq_origin rq) (rq_referer rq))"
| "auth_controller env rq (ResetPassword token newPassword) =
     on_world (\<lambda>(k, c). SessionOf k c)
       (resetPassword (av_auth env) (rq_clock rq 1) (rq_clock rq 2) (rq_clock rq 3) (rq_salt rq) token newPassword)"

fun coaches_controller ::
  "apiEnv \<Rightarrow> exchange \<Rightarrow> coach option \<Rightarrow> coachesRequest \<Rightarrow> origins_state \<Rightarrow> answer" where
  "coaches_controller env rq me ListCoaches =
     reads (\<lambda>w. Inr (SomeCoaches (findAllCoaches (av_collate env) w)))"
| "coaches_controller env rq me Me = reads (\<lambda>_. Inr (ACoach (the me)))"
| "coaches_controller env rq me (UpdateMe dto) = on_world ACoach (updateCoach (c_id (the me)) dto)"
| "coaches_controller env rq me (ChangePassword current new) =
     on_world (\<lambda>_. Done) (changePassword (av_auth env) (rq_salt rq) (the me) current new)"
| "coaches_controller env rq me (InviteCoach dto) =
     on_world (\<lambda>_. Done) (invite (av_auth env) (rq_clock rq 1) dto)"
| "coaches_controller env rq me (AcceptInvite token password) =
     on_world (\<lambda>(k, c). SessionOf k c)
       (acceptInvite (av_auth env) (rq_clock rq 1) (rq_clock rq 2) (rq_salt rq) (rq_newId rq) token password)"
| "coaches_controller env rq me (RevokeSessions k) = on_world ACoach (revokeSessions (rq_clock rq 1) k)"
| "coaches_controller env rq me (SetFrontendUrl k url) = on_world ACoach (setFrontendUrl k url)"

fun event_types_controller ::
  "apiEnv \<Rightarrow> exchange \<Rightarrow> coach option \<Rightarrow> eventTypesRequest \<Rightarrow> origins_state \<Rightarrow> answer" where
  "event_types_controller env rq me (ActiveEventTypes coachId) =
     reads (\<lambda>w. Inr (SomeEventTypes (findActive (av_collate env) coachId w)))"
| "event_types_controller env rq me (MyEventTypes coachId) =
     reads (\<lambda>w. map_sum id (\<lambda>k. SomeEventTypes (findMine (av_collate env) k w)) (resolveCoachScope (the me) coachId))"
| "event_types_controller env rq me (CreateEventType dto) =
     on_world AnEventType (eventTypes_create (rq_newId rq) (the me) dto)"
| "event_types_controller env rq me (ReorderEventTypes ids) = on_world (\<lambda>_. Done) (reorder (the me) ids)"
| "event_types_controller env rq me (UpdateEventType k dto) = on_world AnEventType (eventTypes_edit dto (the me) k)"
| "event_types_controller env rq me (ArchiveEventType k) = on_world AnEventType (eventTypes_archive (the me) k)"
| "event_types_controller env rq me (RemoveEventType k) = on_world (\<lambda>_. Done) (eventTypes_remove (the me) k)"

fun availability_controller ::
  "exchange \<Rightarrow> coach option \<Rightarrow> availabilityRequest \<Rightarrow> origins_state \<Rightarrow> answer" where
  "availability_controller rq me (MyWeekly coachId) =
     reads (\<lambda>w. map_sum id (\<lambda>k. SomeWeekly (weekly_findForCoach k w)) (resolveCoachScope (the me) coachId))"
| "availability_controller rq me (CreateWeekly d s e) =
     on_world AWeekly (weeklyAvailability_create (rq_newId rq) (the me) d s e)"
| "availability_controller rq me (UpdateWeekly k dto) = on_world AWeekly (weeklyAvailability_update dto (the me) k)"
| "availability_controller rq me (RemoveWeekly k) = on_world (\<lambda>_. Done) (weeklyAvailability_remove (the me) k)"
| "availability_controller rq me (MyOverrides coachId) =
     reads (\<lambda>w. map_sum id (\<lambda>k. SomeOverrides (override_findForCoach k w)) (resolveCoachScope (the me) coachId))"
| "availability_controller rq me (CreateOverride date dto) =
     on_world AnOverride (availabilityOverride_create (rq_newId rq) (the me) date dto)"
| "availability_controller rq me (UpdateOverride k dto) =
     on_world AnOverride (availabilityOverride_update dto (the me) k)"
| "availability_controller rq me (RemoveOverride k) =
     on_world (\<lambda>_. Done) (availabilityOverride_remove (the me) k)"

definition slots_controller :: "apiEnv \<Rightarrow> exchange \<Rightarrow> querySlotsDto \<Rightarrow> origins_state \<Rightarrow> answer" where
  "slots_controller env rq query st =
    (case computeSlots (av_luxon env) (rq_clock rq 1) query (snd st) of
       None \<Rightarrow> None
     | Some (x, w') \<Rightarrow> Some (map_sum id SomeSlots x, (fst st, w')))"

fun bookings_controller ::
  "apiEnv \<Rightarrow> exchange \<Rightarrow> coach option \<Rightarrow> bookingsRequest \<Rightarrow> origins_state \<Rightarrow> answer" where
  "bookings_controller env rq me (ListBookings coachId) =
     reads (\<lambda>w. map_sum id SomeBookings (findAll (the me) coachId w))"
| "bookings_controller env rq me (CreateBooking dto) =
     on_world ABooking (create (av_luxon env) (rq_clock rq 1) (rq_refused rq) (rq_newId rq) (rq_nanoid rq) dto
       (resolveRequestOrigin (av_parse env) (rq_origin rq) (rq_referer rq)))"
| "bookings_controller env rq me (FindByToken token) =
     reads (\<lambda>w. map_sum id ABooking (findByManageToken token w))"
| "bookings_controller env rq me (CancelByClient token reason) =
     on_world ABooking (cancelByClient (av_config env) (av_luxon env) (rq_clock rq 1) token reason)"
| "bookings_controller env rq me (RescheduleByClient token startAt) =
     on_world ABooking
       (rescheduleByClient (av_config env) (av_luxon env) (rq_clock rq 1) (rq_refused rq) token startAt)"
| "bookings_controller env rq me (CancelByCoach k reason) =
     on_world ABooking (cancelByCoach (av_config env) reason (the me) k)"

fun settings_controller :: "coach option \<Rightarrow> settingsRequest \<Rightarrow> origins_state \<Rightarrow> answer" where
  "settings_controller me (GetSettings coachId) = on_world TheSettings (settings_get coachId)"
| "settings_controller me (UpdateSettings dto) = on_world TheSettings (settings_update (c_id (the me)) dto)"

text \<open>
  A state token without a subject: the write at the end of the callback gets an undefined key,
  which the database client refuses before it looks for the coach.
\<close>

definition google_callback ::
  "apiEnv \<Rightarrow> exchange \<Rightarrow> string \<Rightarrow> string \<Rightarrow> world \<Rightarrow> (world, unit) outcome" where
  "google_callback env rq code state w =
    (case verifyGoogleConnectState (ae_tokens (av_auth env)) (rq_clock rq 0) state of
       Inl e \<Rightarrow> (Inl e, w)
     | Inr (Some coachId) \<Rightarrow>
         handleCallback (av_config env) (rq_iv rq) (rq_clock rq 1) (rq_tokens rq) (rq_userInfo rq) code coachId w
     | Inr None \<Rightarrow>
         (case fst (handleCallback (av_config env) (rq_iv rq) (rq_clock rq 1) (rq_tokens rq) (rq_userInfo rq) code [] w) of
            Inl e \<Rightarrow> (Inl (if e = P2003 then PrismaValidation else e), w)
          | Inr _ \<Rightarrow> (Inl PrismaValidation, w)))"

fun google_controller :: "apiEnv \<Rightarrow> exchange \<Rightarrow> coach option \<Rightarrow> googleRequest \<Rightarrow> origins_state \<Rightarrow> answer" where
  "google_controller env rq me ConnectToken =
     reads (\<lambda>_. Inr (State (signGoogleConnectState (ae_tokens (av_auth env)) (rq_clock rq 1) (c_id (the me)))))"
| "google_controller env rq me (Connect state) =
     reads (\<lambda>_. map_sum id (\<lambda>_. Redirect (av_authUrl env state))
       (verifyGoogleConnectState (ae_tokens (av_auth env)) (rq_clock rq 0) state))"
| "google_controller env rq me (Callback code state) = on_world (\<lambda>_. Connected) (google_callback env rq code state)"
| "google_controller env rq me GoogleStatus = reads (\<lambda>w. Inr (Status (googleStatus (c_id (the me)) w)))"

fun origins_controller :: "exchange \<Rightarrow> originsRequest \<Rightarrow> origins_state \<Rightarrow> answer" where
  "origins_controller rq ListOrigins = reads (\<lambda>w. Inr (SomeOrigins (origins_list w)))"
| "origins_controller rq (AddOrigin origin label) =
     on_origins AnOrigin (origins_add (rq_newId rq) (rq_clock rq 1) origin label)"
| "origins_controller rq (RemoveOrigin k) = on_origins (\<lambda>_. Done) (origins_remove k)"

definition getHealth :: "origins_state \<Rightarrow> answer" where
  "getHealth = reads (\<lambda>_. Inr Ok)"

section \<open>A request from end to end\<close>

fun dispatch :: "apiEnv \<Rightarrow> exchange \<Rightarrow> coach option \<Rightarrow> apiRequest \<Rightarrow> origins_state \<Rightarrow> answer" where
  "dispatch env rq me (AuthR r) = auth_controller env rq r"
| "dispatch env rq me (CoachesR r) = coaches_controller env rq me r"
| "dispatch env rq me (EventTypesR r) = event_types_controller env rq me r"
| "dispatch env rq me (AvailabilityR r) = availability_controller rq me r"
| "dispatch env rq me (SlotsR q) = slots_controller env rq q"
| "dispatch env rq me (BookingsR r) = bookings_controller env rq me r"
| "dispatch env rq me (SettingsR r) = settings_controller me r"
| "dispatch env rq me (GoogleR r) = google_controller env rq me r"
| "dispatch env rq me (OriginsR r) = origins_controller rq r"
| "dispatch env rq me HealthR = getHealth"

definition validation_failed :: err where
  "validation_failed = BadRequest (Text ''Bad Request'')"

definition api :: "apiEnv \<Rightarrow> exchange \<Rightarrow> apiRequest \<Rightarrow> origins_state \<Rightarrow> answer" where
  "api env rq req st =
    (case guards env rq (access_of req) (snd st) of
       Inl e \<Rightarrow> Some (Inl e, st)
     | Inr me \<Rightarrow>
         if \<not> valid_body (av_checks env) req then Some (Inl validation_failed, st)
         else dispatch env rq me req st)"

lemma api_cases:
  assumes "api env rq req st = Some (x, st')"
  obtains (refused) e where "guards env rq (access_of req) (snd st) = Inl e" "x = Inl e" "st' = st"
    | (invalid) me where "guards env rq (access_of req) (snd st) = Inr me"
      "\<not> valid_body (av_checks env) req" "x = Inl validation_failed" "st' = st"
    | (handled) me where "guards env rq (access_of req) (snd st) = Inr me"
      "valid_body (av_checks env) req" "dispatch env rq me req st = Some (x, st')"
proof (cases "guards env rq (access_of req) (snd st)")
  case (Inl e)
  with assms show ?thesis by (intro refused) (auto simp: api_def)
next
  case (Inr me)
  show ?thesis
  proof (cases "valid_body (av_checks env) req")
    case True
    then have "\<not> \<not> valid_body (av_checks env) req" by simp
    from assms have "dispatch env rq me req st = Some (x, st')"
      unfolding api_def Inr sum.case if_not_P [OF \<open>\<not> \<not> valid_body (av_checks env) req\<close>] .
    then show ?thesis by (rule handled [OF Inr True])
  next
    case False
    from assms show ?thesis
      unfolding api_def Inr sum.case if_P [OF False] using Inr False by (intro invalid) auto
  qed
qed

end
