(* ===== verification/Frames.thy ===== *)
theory Frames
  imports Controllers
begin

text \<open>
  Which tables each route may write.  The booking operations are covered by one
  interpretation of \<open>booking_invariant\<close>: they leave the static part of the database alone and
  create rows of settings only with the defaults.
\<close>

section \<open>The booking operations\<close>

text \<open>Everything but the settings, the bookings, the queue and the log.\<close>

definition static_part :: "world \<Rightarrow> world" where
  "static_part w = w\<lparr>bookings := [], settingsRows := [], jobs := [], externals := []\<rparr>"

definition settings_grown :: "settings list \<Rightarrow> settings list \<Rightarrow> bool" where
  "settings_grown old new \<longleftrightarrow> set old \<subseteq> set new \<and> (\<forall>s \<in> set new. s \<in> set old \<or> (\<exists>k. s = default_settings k))"

lemma settings_grown_refl [simp]: "settings_grown t t"
  by (simp add: settings_grown_def)

lemma static_part_upd [simp]:
  "static_part (w\<lparr>bookings := x1\<rparr>) = static_part w" "static_part (w\<lparr>settingsRows := x2\<rparr>) = static_part w"
  "static_part (w\<lparr>jobs := x3\<rparr>) = static_part w" "static_part (w\<lparr>externals := x4\<rparr>) = static_part w"
  by (simp_all add: static_part_def)

lemma static_partD:
  assumes "static_part w' = static_part w"
  shows "coaches w' = coaches w" "eventTypes w' = eventTypes w" "weeklies w' = weeklies w"
    "overrides w' = overrides w" "googleIntegrations w' = googleIntegrations w"
    "allowedOrigins w' = allowedOrigins w"
  using assms by (cases w; cases w'; simp add: static_part_def)+

definition visit :: "world \<Rightarrow> world \<Rightarrow> bool" where
  "visit w0 w \<longleftrightarrow> static_part w = static_part w0 \<and> settings_grown (settingsRows w0) (settingsRows w)"

lemma visit_refl [simp]: "visit w w"
  by (simp add: visit_def)

lemma visit_settings_get: "visit w0 w \<Longrightarrow> settings_get k w = (x, w') \<Longrightarrow> visit w0 w'"
  by (fastforce simp: visit_def settings_get_def settings_grown_def simp del: findUnique_None
      split: option.splits)

interpretation visiting: booking_invariant "visit w0" for w0
proof
  fix w w' :: world and b y k f
  show "visit w0 w \<Longrightarrow> booking_create b w = (y, w') \<Longrightarrow> visit w0 w'"
    by (auto simp: visit_def booking_create_def split: if_splits)
  show "visit w0 w \<Longrightarrow> booking_update k f w = (y, w') \<Longrightarrow> visit w0 w'"
    by (auto simp: visit_def booking_update_def split: option.splits)
  show "visit w0 w \<Longrightarrow> settings_get k w = (z, w') \<Longrightarrow> visit w0 w'" for k z
    by (rule visit_settings_get)
qed (simp_all add: visit_def)

lemma computeSlots_cases:
  assumes "computeSlots lx now q w = Some (x, w')"
  obtains "w' = w" | k y where "settings_get k w = (y, w')"
  using assms unfolding computeSlots_def
  by (auto simp: Let_def simp del: findUnique_None split: option.splits if_splits prod.splits sum.splits)

section \<open>The identity of the coaches\<close>

definition identities :: "coach list \<Rightarrow> (string \<times> string \<times> coachRole) list" where
  "identities = map (\<lambda>c. (c_id c, c_email c, c_role c))"

lemma coach_update_frame:
  assumes "\<And>c. (c_id (f c), c_email (f c), c_role (f c)) = (c_id c, c_email c, c_role c)"
    and "coach_update k f w = (x, w')"
  shows "\<exists>cs. w' = w\<lparr>coaches := cs\<rparr> \<and> identities cs = identities (coaches w)"
proof -
  have "identities (updateRow c_id k f (coaches w)) = identities (coaches w)"
    using assms(1) by (auto simp: identities_def updateRow_def)
  note upd = this
  from assms(2) consider "w' = w" | "w' = w\<lparr>coaches := updateRow c_id k f (coaches w)\<rparr>"
    by (auto simp: coach_update_def split: option.splits if_splits)
  then show ?thesis
  proof cases
    case 1
    then show ?thesis by (intro exI [of _ "coaches w"]) simp
  next
    case 2
    with upd show ?thesis by (intro exI [of _ "updateRow c_id k f (coaches w)"]) simp
  qed
qed

text \<open>The writes to the coaches: an update of one row that keeps who she is, or an accepted invitation.\<close>

definition coaches_edited :: "world \<Rightarrow> world \<Rightarrow> bool" where
  "coaches_edited w w' \<longleftrightarrow> (\<exists>cs xs. w' = w\<lparr>coaches := cs, externals := xs\<rparr> \<and>
     (identities cs = identities (coaches w) \<or>
      (\<exists>i e. identities cs = identities (coaches w) @ [(i, e, COACH)])))"

lemma edited_refl [simp]: "coaches_edited w w"
  unfolding coaches_edited_def by (rule exI [of _ "coaches w"], rule exI [of _ "externals w"]) simp

lemma edited_update:
  assumes "\<And>c. (c_id (f c), c_email (f c), c_role (f c)) = (c_id c, c_email c, c_role c)"
    and "coach_update k f w = (x, w')"
  shows "coaches_edited w w'"
proof -
  from coach_update_frame [OF assms] obtain cs where
    cs: "w' = w\<lparr>coaches := cs\<rparr>" "identities cs = identities (coaches w)" by blast
  then have "w' = w\<lparr>coaches := cs, externals := externals w\<rparr>" by simp
  with cs(2) show ?thesis unfolding coaches_edited_def by blast
qed

lemma edited_sent: "coaches_edited w (sent m w)"
proof -
  have "sent m w = w\<lparr>coaches := coaches w, externals := externals w @ [MailSent m]\<rparr>"
    by (simp add: sent_def)
  then show ?thesis unfolding coaches_edited_def by blast
qed

lemma auth_edited:
  "login a t e p w = (x1, w') \<Longrightarrow> coaches_edited w w'"
  "auth_forgotPassword parse a t e org ref w = (x2, w') \<Longrightarrow> coaches_edited w w'"
  "resetPassword a t1 t2 t3 salt tok p w = (x3, w') \<Longrightarrow> coaches_edited w w'"
proof -
  show "login a t e p w = (x1, w') \<Longrightarrow> coaches_edited w w'"
    by (auto simp: login_def split: option.splits if_splits)
  show "auth_forgotPassword parse a t e org ref w = (x2, w') \<Longrightarrow> coaches_edited w w'"
    by (auto simp: auth_forgotPassword_def forgotPassword_def sendReset_eq Let_def edited_sent
        split: option.splits if_splits)
  show "resetPassword a t1 t2 t3 salt tok p w = (x3, w') \<Longrightarrow> coaches_edited w w'"
    by (auto simp: resetPassword_def reset_write_def new_password_def elim!: andThen_cases
        intro: edited_update [rotated] split: sum.splits)
qed

lemma coaches_edits:
  "updateCoach k dto w = (x1, w') \<Longrightarrow> coaches_edited w w'"
  "changePassword a salt c old new w = (x2, w') \<Longrightarrow> coaches_edited w w'"
  "setFrontendUrl k url w = (x3, w') \<Longrightarrow> coaches_edited w w'"
  "revokeSessions t k w = (x4, w') \<Longrightarrow> coaches_edited w w'"
  "invite a t ic w = (x5, w') \<Longrightarrow> coaches_edited w w'"
proof -
  show "updateCoach k dto w = (x1, w') \<Longrightarrow> coaches_edited w w'"
    by (auto simp: updateCoach_def intro: edited_update [rotated] split: if_splits)
  show "changePassword a salt c old new w = (x2, w') \<Longrightarrow> coaches_edited w w'"
    by (auto simp: changePassword_def elim!: andThen_cases intro: edited_update [rotated] split: if_splits)
  show "setFrontendUrl k url w = (x3, w') \<Longrightarrow> coaches_edited w w'"
    by (auto simp: setFrontendUrl_def intro: edited_update [rotated] split: if_splits option.splits)
  show "revokeSessions t k w = (x4, w') \<Longrightarrow> coaches_edited w w'"
    by (auto simp: revokeSessions_def intro: edited_update [rotated])
  show "invite a t ic w = (x5, w') \<Longrightarrow> coaches_edited w w'"
    by (auto simp: invite_def sendInvite_eq Let_def edited_sent split: option.splits if_splits)
qed

lemma coach_create_frame:
  assumes "coach_create c w = (x, w')" and "c_role c = COACH"
  shows "coaches_edited w w'"
proof -
  have "w\<lparr>coaches := createRow c (coaches w)\<rparr> = w\<lparr>coaches := createRow c (coaches w), externals := externals w\<rparr>"
    by simp
  moreover have "identities (createRow c (coaches w)) = identities (coaches w) @ [(c_id c, c_email c, COACH)]"
    using assms(2) by (simp add: identities_def createRow_def)
  ultimately have "coaches_edited w (w\<lparr>coaches := createRow c (coaches w)\<rparr>)"
    unfolding coaches_edited_def by blast
  with assms(1) show ?thesis by (auto simp: coach_create_def split: if_splits)
qed

lemma acceptInvite_edited: "acceptInvite a t1 t2 salt i tok pw w = (x, w') \<Longrightarrow> coaches_edited w w'"
  by (auto simp: acceptInvite_def elim!: andThen_cases
      intro: coach_create_frame simp: invited_coach_def split: sum.splits option.splits if_splits)

section \<open>The routes\<close>

lemma on_world_cases:
  assumes "on_world f op (oc, w) = Some (x, (oc', w'))"
  obtains y where "oc' = oc" "op w = (y, w')" "x = map_sum id f y"
  using assms by (auto simp: on_world_def split: prod.splits)

lemma reads_cases:
  assumes "reads f st = Some (x, st')"
  obtains "st' = st" "x = f (snd st)"
  using assms by (auto simp: reads_def)

lemma auth_frame:
  "auth_controller env rq r (oc, w) = Some (x, (oc', w')) \<Longrightarrow> oc' = oc \<and> coaches_edited w w'"
  by (cases r) (auto elim!: on_world_cases dest: auth_edited)

lemma coaches_frame:
  "coaches_controller env rq me r (oc, w) = Some (x, (oc', w')) \<Longrightarrow> oc' = oc \<and> coaches_edited w w'"
  by (cases r) (auto elim!: on_world_cases reads_cases dest: coaches_edits acceptInvite_edited)

lemma slots_frame:
  assumes "slots_controller env rq q (oc, w) = Some (x, (oc', w'))"
  shows "oc' = oc \<and> visit w w'"
proof -
  from assms obtain y where "computeSlots (av_luxon env) (rq_clock rq 1) q w = Some (y, w')" "oc' = oc"
    by (auto simp: slots_controller_def split: option.splits)
  from this(1) have "visit w w'"
    by (rule computeSlots_cases) (auto intro: visit_settings_get [OF visit_refl])
  with \<open>oc' = oc\<close> show ?thesis ..
qed

lemma bookings_frame:
  "bookings_controller env rq me r (oc, w) = Some (x, (oc', w')) \<Longrightarrow> oc' = oc \<and> visit w w'"
  by (cases r) (auto elim!: on_world_cases reads_cases intro: visiting.inv_create_booking
      visiting.inv_cancelByClient visiting.inv_cancelByCoach visiting.inv_reschedule visit_refl)

end
