(* ===== verification/BookingsRace.thy ===== *)
theory BookingsRace
  imports Bookings Demo
begin

text \<open>
  Concurrent requests.  Every request that books, cancels or reschedules is a thread that
  advances phase by phase (the phases of \<open>Bookings\<close>), and the phases of different
  requests interleave freely.  A serializable transaction is one atomic step on the
  bookings: the check for overlaps and the write behave as if no other transaction ran
  between them, or the database refuses the attempt (P2034) and the loop of
  \<open>runSerializable\<close> runs the callback again, up to three times.  The schedule is read
  outside the transaction, so that check is a step of its own.

  Everything else that runs (edits of schedules and settings, logins, jobs) is the rule
  \<open>others\<close>, which may change anything but the columns of bookings that the checks read.
\<close>

section \<open>Threads\<close>

datatype thread =
    Idle
  | CreateReady string string booking nat     \<comment> \<open>zone, locale, row to insert, attempt\<close>
  | CreateChecked string string booking nat
  | CreateReserved booking
  | CancelReady booking cancelledBy "string option"
  | CancelDropped booking cancelledBy "string option"
  | CancelStored booking
  | MoveReady string booking int int nat      \<comment> \<open>zone, booking as read, start, end, attempt\<close>
  | MoveChecked string booking int int nat
  | MoveStored booking
  | MoveDropped booking
  | MoveFinished booking
  | Answered "err + booking"

type_synonym threads = "nat \<Rightarrow> thread"

definition booking_key :: "booking \<Rightarrow> string \<times> string \<times> string \<times> int \<times> int \<times> bookingStatus" where
  "booking_key b = (b_id b, b_manageToken b, b_coachId b, b_startAt b, b_endAt b, b_status b)"

text \<open>After a refused attempt the callback runs again, unless it was the last attempt.\<close>

definition retry :: "nat \<Rightarrow> (nat \<Rightarrow> thread) \<Rightarrow> thread" where
  "retry attempt again =
    (if attempt < serialization_retry_attempts then again (attempt + 1) else Answered (Inl P2034))"

inductive step :: "config \<Rightarrow> luxon \<Rightarrow> world \<times> threads \<Rightarrow> world \<times> threads \<Rightarrow> bool"
  for cfg lx where
  create_begin:
    "th t = Idle \<Longrightarrow> create_prepare lx now dto w = (Inr (et, tz, s, e), w') \<Longrightarrow>
     step cfg lx (w, th)
       (w', th(t := CreateReady tz (cb_locale dto) (new_booking i tok dto org et s e) 1))"
| create_rejected:
    "th t = Idle \<Longrightarrow> create_prepare lx now dto w = (Inl err, w') \<Longrightarrow>
     step cfg lx (w, th) (w', th(t := Answered (Inl err)))"
| create_check:
    "th t = CreateReady tz locale b k \<Longrightarrow>
     assertWithinSchedule lx (b_coachId b) (b_startAt b) (b_endAt b) tz locale w = x \<Longrightarrow>
     step cfg lx (w, th) (w, th(t := (case x of Inl err \<Rightarrow> Answered (Inl err)
       | Inr _ \<Rightarrow> CreateChecked tz locale b k)))"
| create_reserve:
    "th t = CreateChecked tz locale b k \<Longrightarrow> reserve locale b w = (x, w') \<Longrightarrow>
     step cfg lx (w, th) (w', th(t := (case x of Inl err \<Rightarrow> Answered (Inl err)
       | Inr b' \<Rightarrow> CreateReserved b')))"
| create_refused:
    "th t = CreateReady tz locale b k \<or> th t = CreateChecked tz locale b k \<Longrightarrow>
     step cfg lx (w, th) (w, th(t := retry k (CreateReady tz locale b)))"
| create_enqueue:
    "th t = CreateReserved b \<Longrightarrow>
     step cfg lx (w, th)
       (enqueue (b_id b) (b_coachId b) Confirmed w, th(t := Answered (Inr b)))"
| cancel_begin_client:
    "th t = Idle \<Longrightarrow> client_may_change lx now token w = (x, w') \<Longrightarrow>
     step cfg lx (w, th) (w', th(t := (case x of Inl err \<Rightarrow> Answered (Inl err)
       | Inr b \<Rightarrow> CancelReady b CLIENT reason)))"
| cancel_begin_coach:
    "th t = Idle \<Longrightarrow> coach_may_cancel c k w = x \<Longrightarrow>
     step cfg lx (w, th) (w, th(t := (case x of Inl err \<Rightarrow> Answered (Inl err)
       | Inr b \<Rightarrow> CancelReady b BY_COACH (Some reason))))"
| cancel_drop:
    "th t = CancelReady b who reason \<Longrightarrow>
     (if truthy (b_googleEventId b)
      then deleteEvent cfg (b_coachId b) (the (b_googleEventId b)) w else (Inr (), w)) = (x, w') \<Longrightarrow>
     step cfg lx (w, th) (w', th(t := (case x of Inl err \<Rightarrow> Answered (Inl err)
       | Inr _ \<Rightarrow> CancelDropped b who reason)))"
| cancel_store:
    "th t = CancelDropped b who reason \<Longrightarrow>
     booking_update (b_id b) (cancelled_row who reason) w = (x, w') \<Longrightarrow>
     step cfg lx (w, th) (w', th(t := (case x of Inl err \<Rightarrow> Answered (Inl err)
       | Inr u \<Rightarrow> CancelStored u)))"
| cancel_enqueue:
    "th t = CancelStored u \<Longrightarrow>
     step cfg lx (w, th)
       (enqueue (b_id u) (b_coachId u) Cancelled w, th(t := Answered (Inr u)))"
| move_begin:
    "th t = Idle \<Longrightarrow> reschedule_prepare lx now token given w = (Inr (b, tz, s, e), w') \<Longrightarrow>
     step cfg lx (w, th) (w', th(t := MoveReady tz b s e 1))"
| move_rejected:
    "th t = Idle \<Longrightarrow> reschedule_prepare lx now token given w = (Inl err, w') \<Longrightarrow>
     step cfg lx (w, th) (w', th(t := Answered (Inl err)))"
| move_check:
    "th t = MoveReady tz b s e k \<Longrightarrow>
     assertWithinSchedule lx (b_coachId b) s e tz (b_locale b) w = x \<Longrightarrow>
     step cfg lx (w, th) (w, th(t := (case x of Inl err \<Rightarrow> Answered (Inl err)
       | Inr _ \<Rightarrow> MoveChecked tz b s e k)))"
| move_store:
    "th t = MoveChecked tz b s e k \<Longrightarrow> move_booking b s e w = (x, w') \<Longrightarrow>
     step cfg lx (w, th) (w', th(t := (case x of Inl err \<Rightarrow> Answered (Inl err)
       | Inr u \<Rightarrow> MoveStored u)))"
| move_refused:
    "th t = MoveReady tz b s e k \<or> th t = MoveChecked tz b s e k \<Longrightarrow>
     step cfg lx (w, th) (w, th(t := retry k (MoveReady tz b s e)))"
| move_keep:
    "th t = MoveStored u \<Longrightarrow> \<not> (b_location u = GOOGLE_MEET \<and> truthy (b_googleEventId u)) \<Longrightarrow>
     step cfg lx (w, th) (w, th(t := MoveFinished u))"
| move_drop:
    "th t = MoveStored u \<Longrightarrow> b_location u = GOOGLE_MEET \<Longrightarrow> truthy (b_googleEventId u) \<Longrightarrow>
     deleteEvent cfg (b_coachId u) (the (b_googleEventId u)) w = (x, w') \<Longrightarrow>
     step cfg lx (w, th) (w', th(t := (case x of Inl err \<Rightarrow> Answered (Inl err)
       | Inr _ \<Rightarrow> MoveDropped u)))"
| move_clear:
    "th t = MoveDropped u \<Longrightarrow>
     booking_update (b_id u) (\<lambda>r. r\<lparr>b_meetLink := None, b_googleEventId := None\<rparr>) w = (x, w') \<Longrightarrow>
     step cfg lx (w, th) (w', th(t := (case x of Inl err \<Rightarrow> Answered (Inl err)
       | Inr u' \<Rightarrow> MoveFinished u')))"
| move_enqueue:
    "th t = MoveFinished u \<Longrightarrow>
     step cfg lx (w, th)
       (enqueue (b_id u) (b_coachId u) Rescheduled w, th(t := Answered (Inr u)))"
| others:
    "map booking_key (bookings w') = map booking_key (bookings w) \<Longrightarrow>
     step cfg lx (w, th) (w', th)"

inductive reachable :: "config \<Rightarrow> luxon \<Rightarrow> world \<times> threads \<Rightarrow> bool" for cfg lx where
  start: "reachable cfg lx (empty_world, \<lambda>_. Idle)"
| next_step: "reachable cfg lx st \<Longrightarrow> step cfg lx st st' \<Longrightarrow> reachable cfg lx st'"

abbreviation steps :: "config \<Rightarrow> luxon \<Rightarrow> world \<times> threads \<Rightarrow> world \<times> threads \<Rightarrow> bool" where
  "steps cfg lx \<equiv> (step cfg lx)\<^sup>*\<^sup>*"

section \<open>No double booking\<close>

definition no_double_booking :: "booking list \<Rightarrow> bool" where
  "no_double_booking bs \<longleftrightarrow> (\<forall>a \<in> set bs. \<forall>b \<in> set bs.
     b_id a \<noteq> b_id b \<and> b_coachId a = b_coachId b \<and> b_status a = CONFIRMED \<and> b_status b = CONFIRMED \<longrightarrow>
     \<not> (b_startAt a < b_endAt b \<and> b_startAt b < b_endAt a))"

text \<open>The coach of a booking never changes: what a thread has read about it stays true.\<close>

definition held :: "booking list \<Rightarrow> booking \<Rightarrow> bool" where
  "held bs b \<longleftrightarrow> (b_id b, b_coachId b) \<in> (\<lambda>r. (b_id r, b_coachId r)) ` set bs"

fun held_by :: "thread \<Rightarrow> booking set" where
  "held_by (MoveReady _ b _ _ _) = {b}"
| "held_by (MoveChecked _ b _ _ _) = {b}"
| "held_by _ = {}"

definition safe :: "world \<times> threads \<Rightarrow> bool" where
  "safe st \<longleftrightarrow> (case st of (w, th) \<Rightarrow>
     distinct (map b_id (bookings w)) \<and> no_double_booking (bookings w) \<and>
     (\<forall>t. \<forall>b \<in> held_by (th t). held (bookings w) b))"

text \<open>What a step does to the table of bookings.\<close>

inductive change :: "thread \<Rightarrow> booking list \<Rightarrow> booking list \<Rightarrow> bool" for thr bs where
  same: "map booking_key bs' = map booking_key bs \<Longrightarrow> change thr bs bs'"
| added: "b_id b \<notin> b_id ` set bs \<Longrightarrow> clear_of (b_coachId b) (b_startAt b) (b_endAt b) None bs \<Longrightarrow>
    change thr bs (bs @ [b])"
| cancelled: "change thr bs (updateRow b_id k (cancelled_row who reason) bs)"
| moved: "b \<in> held_by thr \<Longrightarrow> clear_of (b_coachId b) s e (Some (b_id b)) bs \<Longrightarrow>
    change thr bs (updateRow b_id (b_id b) (\<lambda>r. r\<lparr>b_startAt := s, b_endAt := e\<rparr>) bs)"

lemma reserve_change:
  assumes "reserve loc b w = (x, w')"
  shows "change thr (bookings w) (bookings w')"
proof (cases x)
  case (Inl e)
  with assms have "w' = w" by (auto dest: reserve_InlD)
  then show ?thesis by (simp add: change.same)
next
  case (Inr b')
  with assms have r: "reserve loc b w = (Inr b', w')" by simp
  from reserve_InrD [OF r] have "bookings w' = bookings w @ [b]" by simp
  with reserve_InrD [OF r] show ?thesis by (simp add: change.added)
qed

lemma cancel_change:
  "booking_update k (cancelled_row who reason) w = (x, w') \<Longrightarrow> change thr (bookings w) (bookings w')"
  by (auto simp: booking_update_def intro: change.intros split: option.splits)

lemma clear_change:
  "booking_update k (\<lambda>r. r\<lparr>b_meetLink := None, b_googleEventId := None\<rparr>) w = (x, w') \<Longrightarrow>
   change thr (bookings w) (bookings w')"
  by (auto simp: booking_update_def booking_key_def intro!: change.same split: option.splits)

lemma move_change:
  assumes "move_booking b s e w = (x, w')"
  shows "change (MoveChecked tz b s e k) (bookings w) (bookings w')"
proof (cases x)
  case (Inl err)
  with assms have "w' = w" by (auto simp: move_booking_def booking_update_def split: sum.splits option.splits)
  then show ?thesis by (simp add: change.same)
next
  case (Inr b')
  with assms have "move_booking b s e w = (Inr b', w')" by simp
  then show ?thesis
  proof (rule move_booking_InrD)
    fix r assume "clear_of (b_coachId b) s e (Some (b_id b)) (bookings w)"
      and "w' = w\<lparr>bookings := updateRow b_id (b_id b) (\<lambda>r. r\<lparr>b_startAt := s, b_endAt := e\<rparr>) (bookings w)\<rparr>"
    then show ?thesis
      using change.moved [of b "MoveChecked tz b s e k"] by simp
  qed
qed

lemma change_refl: "bs' = bs \<Longrightarrow> change thr bs bs'"
  by (simp add: change.same)

lemmas prepare_bookings =
  create_prepare_frame [THEN beside_settingsD(5)]
  reschedule_prepare_frame [THEN beside_settingsD(5)]
  client_may_change_frame [THEN beside_settingsD(5)]

text \<open>Every step changes the table in one of these ways and keeps what threads hold.\<close>

lemma step_change:
  assumes "step cfg lx (w, th) (w', th')"
  shows "\<exists>t. change (th t) (bookings w) (bookings w') \<and>
    (\<forall>u. held_by (th' u) \<subseteq> held_by (th u) \<or> held_by (th' u) \<subseteq> set (bookings w'))"
  using assms
proof (cases rule: step.cases)
  case (create_begin t now dto et tz s e i tok org)
  then show ?thesis
    using prepare_bookings(1) by (auto intro!: change_refl)
next
  case (create_rejected t now dto err)
  then show ?thesis
    using prepare_bookings(1) by (auto intro!: change_refl)
next
  case (create_reserve t tz loc b k x)
  then show ?thesis using reserve_change by (auto split: sum.splits)
next
  case (cancel_begin_client t now token x reason)
  then show ?thesis
    using prepare_bookings(3) by (auto intro!: change_refl split: sum.splits)
next
  case (cancel_store t b who reason x)
  then show ?thesis using cancel_change by (auto split: sum.splits)
next
  case (move_begin t now token given b tz s e)
  then have "bookings w' = bookings w" using prepare_bookings(2) by blast
  moreover from move_begin have "b \<in> set (bookings w)"
    by (auto elim!: reschedule_prepare_InrD dest: findUnique_in)
  ultimately show ?thesis using move_begin by (auto intro!: change_refl)
next
  case (move_rejected t now token given err)
  then show ?thesis
    using prepare_bookings(2) by (auto intro!: change_refl)
next
  case (move_store t tz b s e k x)
  then have "change (th t) (bookings w) (bookings w')" using move_change by metis
  with move_store show ?thesis by (intro exI [of _ t]) (auto split: sum.splits)
next
  case (move_clear t u x)
  then show ?thesis using clear_change by (auto split: sum.splits)
next
  case others
  then show ?thesis by (auto intro: change.same)
qed (auto intro!: change_refl simp: retry_def deleteEvent_def split: sum.splits if_splits)

text \<open>Each way of changing the table keeps it free of double bookings.\<close>

lemma no_double_keys:
  assumes "map booking_key bs' = map booking_key bs" and "no_double_booking bs"
  shows "no_double_booking bs'"
proof -
  have img: "booking_key ` set bs' = booking_key ` set bs"
    using arg_cong [OF assms(1), of set] by simp
  have "\<exists>a \<in> set bs. booking_key a' = booking_key a" if "a' \<in> set bs'" for a'
    using imageI [OF that, of booking_key] unfolding img by auto
  with assms(2) show ?thesis
    unfolding no_double_booking_def booking_key_def by (metis prod.inject)
qed

lemma no_double_append:
  assumes "no_double_booking bs" and "clear_of (b_coachId b) (b_startAt b) (b_endAt b) None bs"
  shows "no_double_booking (bs @ [b])"
  using assms
  by (auto simp: no_double_booking_def clear_of_def overlapping_def truthy_def)

lemma no_double_cancel:
  assumes "no_double_booking bs"
  shows "no_double_booking (updateRow b_id k (cancelled_row who reason) bs)"
  using assms by (auto simp: no_double_booking_def cancelled_row_def set_updateRow)

lemma no_double_move:
  assumes nd: "no_double_booking bs"
    and clear: "clear_of c s e (Some k) bs" and k: "\<And>r. r \<in> set bs \<Longrightarrow> b_id r = k \<Longrightarrow> b_coachId r = c"
  shows "no_double_booking (updateRow b_id k (\<lambda>r. r\<lparr>b_startAt := s, b_endAt := e\<rparr>) bs)"
proof -
  have free: "\<not> (b_startAt r < e \<and> s < b_endAt r)"
    if "r \<in> set bs" "b_coachId r = c" "b_status r = CONFIRMED" "b_id r \<noteq> k" for r
    using clear that by (auto simp: clear_of_def overlapping_def)
  show ?thesis
    unfolding no_double_booking_def
  proof (intro ballI impI)
    fix a b
    assume a: "a \<in> set (updateRow b_id k (\<lambda>r. r\<lparr>b_startAt := s, b_endAt := e\<rparr>) bs)"
      and b: "b \<in> set (updateRow b_id k (\<lambda>r. r\<lparr>b_startAt := s, b_endAt := e\<rparr>) bs)"
      and ab: "b_id a \<noteq> b_id b \<and> b_coachId a = b_coachId b \<and> b_status a = CONFIRMED \<and>
        b_status b = CONFIRMED"
    consider (left) a' where "a' \<in> set bs" "b_id a' = k" "a = a'\<lparr>b_startAt := s, b_endAt := e\<rparr>"
        "b \<in> set bs" "b_id b \<noteq> k"
      | (right) b' where "b' \<in> set bs" "b_id b' = k" "b = b'\<lparr>b_startAt := s, b_endAt := e\<rparr>"
        "a \<in> set bs" "b_id a \<noteq> k"
      | (none) "a \<in> set bs" "b \<in> set bs"
      using updateRow_mem [OF a] updateRow_mem [OF b] ab by auto
    then show "\<not> (b_startAt a < b_endAt b \<and> b_startAt b < b_endAt a)"
    proof cases
      case left
      then show ?thesis using free [OF left(4)] k [OF left(1,2)] ab by auto
    next
      case right
      then show ?thesis using free [OF right(4)] k [OF right(1,2)] ab by auto
    next
      case none
      with nd ab show ?thesis unfolding no_double_booking_def by blast
    qed
  qed
qed

lemma held_coach:
  "held bs b \<Longrightarrow> distinct (map b_id bs) \<Longrightarrow> r \<in> set bs \<Longrightarrow> b_id r = b_id b \<Longrightarrow>
   b_coachId r = b_coachId b"
  by (auto simp: held_def distinct_map inj_on_def)

lemma change_keeps:
  assumes "change thr bs bs'" and "distinct (map b_id bs)" and "no_double_booking bs"
    and "\<forall>b \<in> held_by thr. held bs b"
  shows "distinct (map b_id bs') \<and> no_double_booking bs' \<and> (\<forall>b. held bs b \<longrightarrow> held bs' b)"
  using assms(1)
proof cases
  case same
  have "map (\<lambda>b. fst (booking_key b)) bs' = map (\<lambda>b. fst (booking_key b)) bs"
    and ic: "map (\<lambda>b. (fst (booking_key b), fst (snd (snd (booking_key b))))) bs' =
      map (\<lambda>b. (fst (booking_key b), fst (snd (snd (booking_key b))))) bs"
    using arg_cong [OF same, of "map fst"]
      arg_cong [OF same, of "map (\<lambda>k. (fst k, fst (snd (snd k))))"] by (simp_all add: o_def)
  then have "map b_id bs' = map b_id bs" by (simp add: booking_key_def)
  moreover have "(\<lambda>r. (b_id r, b_coachId r)) ` set bs' = (\<lambda>r. (b_id r, b_coachId r)) ` set bs"
    using arg_cong [OF ic, of set] by (simp add: booking_key_def image_image cong: image_cong_simp)
  ultimately show ?thesis
    using assms(2,3) no_double_keys [OF same] by (simp add: held_def)
next
  case (added b)
  with assms(2,3) no_double_append show ?thesis by (auto simp: held_def)
next
  case (cancelled k who reason)
  have "map b_id bs' = map b_id bs"
    unfolding cancelled by (rule map_updateRow_frame) (simp add: cancelled_row_def)
  moreover have "(\<lambda>r. (b_id r, b_coachId r)) ` set bs' = (\<lambda>r. (b_id r, b_coachId r)) ` set bs"
    unfolding cancelled by (rule image_updateRow) (simp add: cancelled_row_def)
  ultimately show ?thesis
    using assms(2,3) no_double_cancel cancelled by (simp add: held_def)
next
  case (moved b s e)
  have "map b_id bs' = map b_id bs" unfolding moved(1) by simp
  moreover have "(\<lambda>r. (b_id r, b_coachId r)) ` set bs' = (\<lambda>r. (b_id r, b_coachId r)) ` set bs"
    unfolding moved(1) by (rule image_updateRow) simp
  moreover have "no_double_booking bs'"
    unfolding moved(1) using assms(2-4) moved(2,3) held_coach no_double_move by blast
  ultimately show ?thesis using assms(2) by (simp add: held_def)
qed

lemma held_mem: "b \<in> set bs \<Longrightarrow> held bs b"
  by (auto simp: held_def)

lemma change_persist:
  assumes "change thr bs bs'" and "b \<in> set bs"
  shows "\<exists>b' \<in> set bs'. b_id b' = b_id b \<and> b_coachId b' = b_coachId b \<and>
    (b_status b = CANCELLED \<longrightarrow> b_status b' = CANCELLED)"
  using assms(1)
proof cases
  case same
  have "booking_key ` set bs' = booking_key ` set bs"
    using arg_cong [OF same, of set] by simp
  then have "booking_key b \<in> booking_key ` set bs'" using assms(2) by simp
  then show ?thesis by (auto simp: booking_key_def)
next
  case (cancelled k who reason)
  with updateRow_keeps [OF assms(2), of b_id k "cancelled_row who reason"] show ?thesis
    by (intro bexI) (auto simp: cancelled_row_def)
next
  case (moved a s e)
  with updateRow_keeps [OF assms(2), of b_id "b_id a" "\<lambda>r. r\<lparr>b_startAt := s, b_endAt := e\<rparr>"]
  show ?thesis by (intro bexI) auto
qed (use assms(2) in auto)

lemma steps_persist:
  assumes "steps cfg lx st st'"
  shows "\<forall>b \<in> set (bookings (fst st)). \<exists>b' \<in> set (bookings (fst st')). b_id b' = b_id b \<and>
    b_coachId b' = b_coachId b \<and> (b_status b = CANCELLED \<longrightarrow> b_status b' = CANCELLED)"
  using assms
proof (induction rule: rtranclp_induct)
  case base
  then show ?case by blast
next
  case (step y z)
  obtain w th w' th' where yz: "y = (w, th)" "z = (w', th')" by (cases y; cases z) auto
  from step_change [OF step.hyps(2) [unfolded yz]] obtain t where
    "change (th t) (bookings w) (bookings w')" by blast
  from change_persist [OF this] step.IH show ?case unfolding yz by fastforce
qed

lemma step_safe:
  assumes "step cfg lx st st'" and "safe st"
  shows "safe st'"
proof -
  obtain w th w' th' where st: "st = (w, th)" "st' = (w', th')" by (cases st; cases st') auto
  from step_change [OF assms(1) [unfolded st]] obtain t where
    ch: "change (th t) (bookings w) (bookings w')"
    and h: "\<And>u. held_by (th' u) \<subseteq> held_by (th u) \<or> held_by (th' u) \<subseteq> set (bookings w')"
    by blast
  from assms(2) have s: "distinct (map b_id (bookings w))" "no_double_booking (bookings w)"
    "\<And>t. \<forall>b \<in> held_by (th t). held (bookings w) b" by (auto simp: safe_def st)
  from change_keeps [OF ch s] have k: "distinct (map b_id (bookings w'))"
    "no_double_booking (bookings w')" "\<And>b. held (bookings w) b \<Longrightarrow> held (bookings w') b" by auto
  have "\<forall>b \<in> held_by (th' u). held (bookings w') b" for u
    using h [of u] s(3) k(3) held_mem by blast
  with k show ?thesis by (simp add: safe_def st)
qed

lemma reachable_safe: "reachable cfg lx st \<Longrightarrow> safe st"
proof (induction rule: reachable.induct)
  case start
  then show ?case by (simp add: safe_def empty_world_def no_double_booking_def)
next
  case (next_step st st')
  then show ?case using step_safe by blast
qed

section \<open>The operations are runs of the steps\<close>

fun create_result :: "err + booking \<Rightarrow> thread" where
  "create_result (Inl e) = Answered (Inl e)"
| "create_result (Inr b) = CreateReserved b"

fun move_result :: "err + booking \<Rightarrow> thread" where
  "move_result (Inl e) = Answered (Inl e)"
| "move_result (Inr b) = MoveStored b"

text \<open>
  The loop of \<open>runSerializable\<close> is a run, when each attempt is one and a refusal is a step.
\<close>

lemma serializable_run:
  assumes refuse: "\<And>k. step cfg lx (w, th(t := ready k)) (w, th(t := retry k ready))"
    and attempt: "\<And>k. steps cfg lx (w, th(t := ready k))
      (snd (transaction False fn w), th(t := result (fst (transaction False fn w))))"
    and fails: "result (Inl P2034) = Answered (Inl P2034)" "fst (fn w) \<noteq> Inl P2034"
    and "k \<le> 3"
  shows "steps cfg lx (w, th(t := ready k))
    (snd (attempt_from refused fn msg k w), th(t := result (fst (attempt_from refused fn msg k w))))"
  using \<open>k \<le> 3\<close>
proof (induction "3 - k" arbitrary: k)
  case 0
  then have k: "k = 3" by simp
  have a: "attempt_from refused fn msg k w = transaction (refused k) fn w"
    using k by (simp add: attempt_step)
  show ?case
  proof (cases "refused k")
    case True
    then have tr: "transaction (refused k) fn w = (Inl P2034, w)" by (simp add: transaction_def)
    have "retry k ready = Answered (Inl P2034)" by (simp add: retry_def serialization_retry_attempts_def k)
    with refuse [of k] have "step cfg lx (w, th(t := ready k)) (w, th(t := Answered (Inl P2034)))" by simp
    then show ?thesis unfolding a tr fst_conv snd_conv fails(1) by (rule r_into_rtranclp)
  next
    case False
    then have f: "refused k = False" by simp
    show ?thesis unfolding a f by (rule attempt)
  qed
next
  case (Suc n)
  then have k: "k < 3" "n = 3 - (k + 1)" "k + 1 \<le> 3" by simp_all
  show ?case
  proof (cases "refused k")
    case True
    have a: "attempt_from refused fn msg k w = attempt_from refused fn msg (k + 1) w"
      using True k(1) by (simp add: attempt_step transaction_def)
    have "retry k ready = ready (k + 1)" using k(1) by (simp add: retry_def serialization_retry_attempts_def)
    with refuse [of k] have "step cfg lx (w, th(t := ready k)) (w, th(t := ready (k + 1)))" by simp
    then show ?thesis
      unfolding a using Suc.hyps(1) [OF k(2,3)] by (rule converse_rtranclp_into_rtranclp)
  next
    case False
    then have f: "refused k = False" by simp
    have "fst (transaction False fn w) \<noteq> Inl P2034"
      using fails(2) by (auto simp: transaction_cases split: sum.splits)
    then have a: "attempt_from refused fn msg k w = transaction False fn w"
      using k(1) f by (simp add: attempt_step)
    show ?thesis unfolding a by (rule attempt)
  qed
qed

lemma create_attempt_run:
  "steps cfg lx (w, th(t := CreateReady tz loc b k))
    (snd (transaction False (create_tx lx tz loc b) w),
     th(t := create_result (fst (transaction False (create_tx lx tz loc b) w))))"
proof -
  let ?x = "assertWithinSchedule lx (b_coachId b) (b_startAt b) (b_endAt b) tz loc w"
  have c: "step cfg lx (w, th(t := CreateReady tz loc b k))
      (w, th(t := (case ?x of Inl err \<Rightarrow> Answered (Inl err) | Inr _ \<Rightarrow> CreateChecked tz loc b k)))"
    using create_check [of "th(t := CreateReady tz loc b k)" t tz loc b k lx w ?x cfg] by simp
  show ?thesis
  proof (cases ?x)
    case (Inl err)
    with c show ?thesis by (auto simp: transaction_def create_tx_def)
  next
    case (Inr u)
    obtain x w' where r: "reserve loc b w = (x, w')" by (cases "reserve loc b w")
    have "step cfg lx (w, th(t := CreateChecked tz loc b k))
        (w', th(t := (case x of Inl err \<Rightarrow> Answered (Inl err) | Inr b' \<Rightarrow> CreateReserved b')))"
      using create_reserve [of "th(t := CreateChecked tz loc b k)" t tz loc b k w x w' cfg lx] r by simp
    with c Inr have "steps cfg lx (w, th(t := CreateReady tz loc b k))
        (w', th(t := (case x of Inl err \<Rightarrow> Answered (Inl err) | Inr b' \<Rightarrow> CreateReserved b')))"
      by (auto intro: converse_rtranclp_into_rtranclp)
    moreover have "transaction False (create_tx lx tz loc b) w = (x, w')"
      using Inr r reserve_InlD [of loc b w _ w']
      by (cases x) (auto simp: transaction_def create_tx_def)
    ultimately show ?thesis by (cases x) simp_all
  qed
qed

lemma move_attempt_run:
  "steps cfg lx (w, th(t := MoveReady tz b s e k))
    (snd (transaction False (reschedule_tx lx tz b s e) w),
     th(t := move_result (fst (transaction False (reschedule_tx lx tz b s e) w))))"
proof -
  let ?x = "assertWithinSchedule lx (b_coachId b) s e tz (b_locale b) w"
  have c: "step cfg lx (w, th(t := MoveReady tz b s e k))
      (w, th(t := (case ?x of Inl err \<Rightarrow> Answered (Inl err) | Inr _ \<Rightarrow> MoveChecked tz b s e k)))"
    using move_check [of "th(t := MoveReady tz b s e k)" t tz b s e k lx w ?x cfg] by simp
  show ?thesis
  proof (cases ?x)
    case (Inl err)
    with c show ?thesis by (auto simp: transaction_def reschedule_tx_def)
  next
    case (Inr u)
    obtain x w' where r: "move_booking b s e w = (x, w')" by (cases "move_booking b s e w")
    have "step cfg lx (w, th(t := MoveChecked tz b s e k))
        (w', th(t := (case x of Inl err \<Rightarrow> Answered (Inl err) | Inr u \<Rightarrow> MoveStored u)))"
      using move_store [of "th(t := MoveChecked tz b s e k)" t tz b s e k w x w' cfg lx] r by simp
    with c Inr have "steps cfg lx (w, th(t := MoveReady tz b s e k))
        (w', th(t := (case x of Inl err \<Rightarrow> Answered (Inl err) | Inr u \<Rightarrow> MoveStored u)))"
      by (auto intro: converse_rtranclp_into_rtranclp)
    moreover have "w' = w" if "x = Inl err" for err
      using r that by (auto simp: move_booking_def booking_update_def split: sum.splits option.splits)
    then have "transaction False (reschedule_tx lx tz b s e) w = (x, w')"
      using Inr r by (cases x) (auto simp: transaction_def reschedule_tx_def)
    ultimately show ?thesis by (cases x) simp_all
  qed
qed

lemma schedule_not_P2034: "assertWithinSchedule lx c s e tz loc w \<noteq> Inl P2034"
  by (auto simp: assertWithinSchedule_def isWithinEffectiveRange_def getEffectiveRangesForDate_def
      i18n_error_def Let_def split: sum.splits option.splits if_splits)

lemma create_serializable_run:
  "steps cfg lx (w, th(t := CreateReady tz loc b 1))
    (snd (runSerializable refused (create_tx lx tz loc b) w),
     th(t := create_result (fst (runSerializable refused (create_tx lx tz loc b) w))))"
  unfolding runSerializable_def
proof (rule serializable_run)
  show "step cfg lx (w, th(t := CreateReady tz loc b k))
      (w, th(t := retry k (CreateReady tz loc b)))" for k
    using create_refused [of "th(t := CreateReady tz loc b k)" t tz loc b k cfg lx w] by simp
  show "fst (create_tx lx tz loc b w) \<noteq> Inl P2034"
    using schedule_not_P2034 [of lx]
    by (auto simp: create_tx_def reserve_def booking_create_def assertNotOverlapping_iff
        i18n_error_def split: sum.splits)
qed (simp_all add: create_attempt_run)

lemma move_serializable_run:
  "steps cfg lx (w, th(t := MoveReady tz b s e 1))
    (snd (runSerializable refused (reschedule_tx lx tz b s e) w),
     th(t := move_result (fst (runSerializable refused (reschedule_tx lx tz b s e) w))))"
  unfolding runSerializable_def
proof (rule serializable_run)
  show "step cfg lx (w, th(t := MoveReady tz b s e k))
      (w, th(t := retry k (MoveReady tz b s e)))" for k
    using move_refused [of "th(t := MoveReady tz b s e k)" t tz b s e k cfg lx w] by simp
  show "fst (reschedule_tx lx tz b s e w) \<noteq> Inl P2034"
    using schedule_not_P2034 [of lx]
    by (auto simp: reschedule_tx_def move_booking_def booking_update_def assertNotOverlapping_iff
        i18n_error_def split: sum.splits option.splits)
qed (simp_all add: move_attempt_run)

lemma create_run:
  assumes "th t = Idle"
  shows "steps cfg lx (w, th) (snd (create lx now refused i tok dto org w),
    th(t := Answered (fst (create lx now refused i tok dto org w))))"
proof (cases "create_prepare lx now dto w")
  case (Pair x w1)
  show ?thesis
  proof (cases x)
    case (Inl err)
    with Pair assms have "step cfg lx (w, th) (w1, th(t := Answered (Inl err)))"
      by (auto intro: create_rejected)
    with Pair Inl show ?thesis by (simp add: create_def r_into_rtranclp)
  next
    case (Inr q)
    obtain et tz s e where q: "q = (et, tz, s, e)" by (cases q) auto
    let ?b = "new_booking i tok dto org et s e" and ?loc = "cb_locale dto"
    let ?r = "runSerializable refused (create_tx lx tz ?loc ?b) w1"
    have "step cfg lx (w, th) (w1, th(t := CreateReady tz ?loc ?b 1))"
      using Pair Inr q assms by (intro create_begin) simp_all
    moreover have run: "steps cfg lx (w1, th(t := CreateReady tz ?loc ?b 1))
        (snd ?r, th(t := create_result (fst ?r)))"
      by (rule create_serializable_run)
    ultimately have r: "steps cfg lx (w, th) (snd ?r, th(t := create_result (fst ?r)))"
      by (rule converse_rtranclp_into_rtranclp)
    show ?thesis
    proof (cases ?r)
      case (Pair y w2)
      show ?thesis
      proof (cases y)
        case (Inl err)
        with r \<open>create_prepare lx now dto w = (x, w1)\<close> Pair \<open>x = Inr q\<close> q
        show ?thesis by (simp add: create_def)
      next
        case (Inr b)
        have "step cfg lx (w2, th(t := CreateReserved b))
            (enqueue (b_id b) (b_coachId b) Confirmed w2, th(t := Answered (Inr b)))"
          using create_enqueue [of "th(t := CreateReserved b)" t b cfg lx w2] by simp
        with r Pair Inr have "steps cfg lx (w, th)
            (enqueue (b_id b) (b_coachId b) Confirmed w2, th(t := Answered (Inr b)))"
          by (auto intro: rtranclp.rtrancl_into_rtrancl)
        with \<open>create_prepare lx now dto w = (x, w1)\<close> Pair Inr \<open>x = Inr q\<close> q
        show ?thesis by (simp add: create_def)
      qed
    qed
  qed
qed

lemma cancel_run:
  "steps cfg lx (w, th(t := CancelReady b who reason))
    (snd (cancel_and_notify cfg b who reason w),
     th(t := Answered (fst (cancel_and_notify cfg b who reason w))))"
proof -
  let ?drop = "if truthy (b_googleEventId b)
    then deleteEvent cfg (b_coachId b) (the (b_googleEventId b)) w else (Inr (), w)"
  obtain x w1 where d: "?drop = (x, w1)" by (cases ?drop)
  have s1: "step cfg lx (w, th(t := CancelReady b who reason)) (w1, th(t := (case x of
      Inl err \<Rightarrow> Answered (Inl err) | Inr _ \<Rightarrow> CancelDropped b who reason)))"
    using cancel_drop [of "th(t := CancelReady b who reason)" t b who reason cfg w x w1 lx] d by simp
  show ?thesis
  proof (cases x)
    case (Inl err)
    with s1 d show ?thesis
      by (simp add: cancel_and_notify_def applyCancellation_def r_into_rtranclp)
  next
    case (Inr u)
    obtain y w2 where up: "booking_update (b_id b) (cancelled_row who reason) w1 = (y, w2)"
      by (cases "booking_update (b_id b) (cancelled_row who reason) w1")
    have s2: "step cfg lx (w1, th(t := CancelDropped b who reason)) (w2, th(t := (case y of
        Inl err \<Rightarrow> Answered (Inl err) | Inr u \<Rightarrow> CancelStored u)))"
      using cancel_store [of "th(t := CancelDropped b who reason)" t b who reason w1 y w2 cfg lx] up
      by simp
    have c: "applyCancellation cfg b who reason w = (y, w2)"
      using d Inr up by (simp add: applyCancellation_def)
    from s1 s2 Inr have s12: "steps cfg lx (w, th(t := CancelReady b who reason)) (w2, th(t := (case y of
        Inl err \<Rightarrow> Answered (Inl err) | Inr u \<Rightarrow> CancelStored u)))"
      by (auto intro: converse_rtranclp_into_rtranclp)
    show ?thesis
    proof (cases y)
      case (Inl err)
      with s12 c show ?thesis by (simp add: cancel_and_notify_def)
    next
      case (Inr v)
      have "step cfg lx (w2, th(t := CancelStored v))
          (enqueue (b_id v) (b_coachId v) Cancelled w2, th(t := Answered (Inr v)))"
        using cancel_enqueue [of "th(t := CancelStored v)" t v cfg lx w2] by simp
      with s12 Inr have "steps cfg lx (w, th(t := CancelReady b who reason))
          (enqueue (b_id v) (b_coachId v) Cancelled w2, th(t := Answered (Inr v)))"
        by (auto intro: rtranclp.rtrancl_into_rtrancl)
      with c Inr show ?thesis by (simp add: cancel_and_notify_def)
    qed
  qed
qed

lemma cancelByClient_run:
  assumes "th t = Idle"
  shows "steps cfg lx (w, th) (snd (cancelByClient cfg lx now token reason w),
    th(t := Answered (fst (cancelByClient cfg lx now token reason w))))"
proof (cases "client_may_change lx now token w")
  case (Pair x w1)
  have s: "step cfg lx (w, th) (w1, th(t := (case x of Inl err \<Rightarrow> Answered (Inl err)
      | Inr b \<Rightarrow> CancelReady b CLIENT reason)))"
    using assms Pair by (rule cancel_begin_client)
  show ?thesis
  proof (cases x)
    case (Inl err)
    with s Pair show ?thesis by (simp add: cancelByClient_def r_into_rtranclp)
  next
    case (Inr b)
    with s have "step cfg lx (w, th) (w1, th(t := CancelReady b CLIENT reason))" by simp
    from converse_rtranclp_into_rtranclp [of "step cfg lx", OF this cancel_run] Pair Inr
    show ?thesis by (simp add: cancelByClient_def)
  qed
qed

lemma cancelByCoach_run:
  assumes "th t = Idle"
  shows "steps cfg lx (w, th) (snd (cancelByCoach cfg reason c k w),
    th(t := Answered (fst (cancelByCoach cfg reason c k w))))"
proof -
  have s: "step cfg lx (w, th) (w, th(t := (case coach_may_cancel c k w of
      Inl err \<Rightarrow> Answered (Inl err) | Inr b \<Rightarrow> CancelReady b BY_COACH (Some reason))))"
    using assms by (rule cancel_begin_coach) simp
  show ?thesis
  proof (cases "coach_may_cancel c k w")
    case (Inl err)
    with s show ?thesis by (simp add: cancelByCoach_def r_into_rtranclp)
  next
    case (Inr b)
    with s have "step cfg lx (w, th) (w, th(t := CancelReady b BY_COACH (Some reason)))" by simp
    from converse_rtranclp_into_rtranclp [of "step cfg lx", OF this cancel_run] Inr
    show ?thesis by (simp add: cancelByCoach_def)
  qed
qed

lemma drop_run:
  "steps cfg lx (w, th(t := MoveStored u)) (snd (drop_event cfg u w),
    th(t := (case fst (drop_event cfg u w) of Inl e \<Rightarrow> Answered (Inl e) | Inr v \<Rightarrow> MoveFinished v)))"
proof (cases "b_location u = GOOGLE_MEET \<and> truthy (b_googleEventId u)")
  case False
  then have "step cfg lx (w, th(t := MoveStored u)) (w, th(t := MoveFinished u))"
    using move_keep [of "th(t := MoveStored u)" t u cfg lx w] by simp
  moreover have "drop_event cfg u w = (Inr u, w)" using False by (auto simp: drop_event_def)
  ultimately show ?thesis by (simp add: r_into_rtranclp)
next
  case True
  obtain x w1 where d: "deleteEvent cfg (b_coachId u) (the (b_googleEventId u)) w = (x, w1)"
    by (cases "deleteEvent cfg (b_coachId u) (the (b_googleEventId u)) w")
  have s1: "step cfg lx (w, th(t := MoveStored u)) (w1, th(t := (case x of
      Inl err \<Rightarrow> Answered (Inl err) | Inr _ \<Rightarrow> MoveDropped u)))"
    using move_drop [of "th(t := MoveStored u)" t u cfg w x w1 lx] True d by simp
  show ?thesis
  proof (cases x)
    case (Inl err)
    with s1 d True show ?thesis by (simp add: drop_event_def r_into_rtranclp)
  next
    case (Inr v)
    let ?f = "\<lambda>r. r\<lparr>b_meetLink := None, b_googleEventId := None\<rparr>"
    obtain y w2 where up: "booking_update (b_id u) ?f w1 = (y, w2)"
      by (cases "booking_update (b_id u) ?f w1")
    have "step cfg lx (w1, th(t := MoveDropped u)) (w2, th(t := (case y of
        Inl err \<Rightarrow> Answered (Inl err) | Inr u' \<Rightarrow> MoveFinished u')))"
      using move_clear [of "th(t := MoveDropped u)" t u w1 y w2 cfg lx] up by simp
    with s1 Inr have "steps cfg lx (w, th(t := MoveStored u)) (w2, th(t := (case y of
        Inl err \<Rightarrow> Answered (Inl err) | Inr u' \<Rightarrow> MoveFinished u')))"
      by (auto intro: converse_rtranclp_into_rtranclp)
    moreover have "drop_event cfg u w = (y, w2)" using True d Inr up by (simp add: drop_event_def)
    ultimately show ?thesis by simp
  qed
qed

lemma reschedule_run:
  assumes "th t = Idle"
  shows "steps cfg lx (w, th) (snd (rescheduleByClient cfg lx now refused token given w),
    th(t := Answered (fst (rescheduleByClient cfg lx now refused token given w))))"
proof (cases "reschedule_prepare lx now token given w")
  case (Pair x w1)
  note prep = Pair
  show ?thesis
  proof (cases x)
    case (Inl err)
    with prep assms have "step cfg lx (w, th) (w1, th(t := Answered (Inl err)))"
      by (auto intro: move_rejected)
    with prep Inl show ?thesis by (simp add: rescheduleByClient_def r_into_rtranclp)
  next
    case (Inr q)
    note x = Inr
    obtain b tz s e where q: "q = (b, tz, s, e)" by (cases q) auto
    let ?r = "runSerializable refused (reschedule_tx lx tz b s e) w1"
    have "step cfg lx (w, th) (w1, th(t := MoveReady tz b s e 1))"
      using prep x q assms by (intro move_begin) simp_all
    moreover have "steps cfg lx (w1, th(t := MoveReady tz b s e 1))
        (snd ?r, th(t := move_result (fst ?r)))"
      by (rule move_serializable_run)
    ultimately have r: "steps cfg lx (w, th) (snd ?r, th(t := move_result (fst ?r)))"
      by (rule converse_rtranclp_into_rtranclp)
    obtain y w2 where y: "?r = (y, w2)" by (cases ?r)
    show ?thesis
    proof (cases y)
      case (Inl err)
      with r y prep x q show ?thesis by (simp add: rescheduleByClient_def)
    next
      case (Inr u)
      obtain z w3 where z: "drop_event cfg u w2 = (z, w3)" by (cases "drop_event cfg u w2")
      from r y Inr have "steps cfg lx (w, th) (w2, th(t := MoveStored u))" by simp
      from rtranclp_trans [OF this drop_run] z
      have d: "steps cfg lx (w, th) (w3, th(t := (case z of Inl e \<Rightarrow> Answered (Inl e)
          | Inr v \<Rightarrow> MoveFinished v)))" by simp
      show ?thesis
      proof (cases z)
        case (Inl err)
        with d y Inr z prep x q show ?thesis by (simp add: rescheduleByClient_def)
      next
        case (Inr v)
        have "step cfg lx (w3, th(t := MoveFinished v))
            (enqueue (b_id v) (b_coachId v) Rescheduled w3, th(t := Answered (Inr v)))"
          using move_enqueue [of "th(t := MoveFinished v)" t v cfg lx w3] by simp
        with d Inr have "steps cfg lx (w, th)
            (enqueue (b_id v) (b_coachId v) Rescheduled w3, th(t := Answered (Inr v)))"
          by (auto intro: rtranclp.rtrancl_into_rtrancl)
        with y \<open>y = Inr u\<close> z Inr prep x q show ?thesis by (simp add: rescheduleByClient_def)
      qed
    qed
  qed
qed

section \<open>A race for one slot\<close>

definition race_threads :: threads where
  "race_threads = (\<lambda>_. Idle)(0 := CreateReserved (demo_booking ''b1'' ''t1''),
     1 := Answered (Inl (i18n_error Conflict ''slotJustBooked'' (Some ''hu''))))"

lemma step_to: "reachable cfg lx st \<Longrightarrow> step cfg lx st st' \<Longrightarrow> st' = st2 \<Longrightarrow> reachable cfg lx st2"
  by (auto intro: next_step)

text \<open>Both requests pass every check outside the transaction before either inserts.\<close>

lemma demo_race: "reachable demo_cfg demo_lx (demo_booked, race_threads)"
proof -
  let ?ready = "\<lambda>i tok. CreateReady ''Etc/UTC'' ''hu'' (demo_booking i tok) 1"
  let ?checked = "\<lambda>i tok. CreateChecked ''Etc/UTC'' ''hu'' (demo_booking i tok) 1"
  have b: "new_booking i tok demo_dto None demo_event demo_start demo_end = demo_booking i tok"
    "cb_locale demo_dto = ''hu''" "b_coachId (demo_booking i tok) = ''c1''"
    "b_startAt (demo_booking i tok) = demo_start" "b_endAt (demo_booking i tok) = demo_end" for i tok
    by (simp_all add: demo_booking_def new_booking_def demo_event_def demo_dto_def)
  have "reachable demo_cfg demo_lx (demo_world, \<lambda>_. Idle)"
    by (rule step_to [OF start others [of demo_world]]) (simp_all add: demo_world_def empty_world_def)
  from step_to [OF this create_begin [where t = 0 and i = "''b1''" and tok = "''t1''" and org = None, OF _ demo_prepare]]
  have "reachable demo_cfg demo_lx (demo_world, (\<lambda>_. Idle)(0 := ?ready ''b1'' ''t1''))"
    by (simp add: b)
  from step_to [OF this create_begin [where t = 1 and i = "''b2''" and tok = "''t2''" and org = None, OF _ demo_prepare]]
  have "reachable demo_cfg demo_lx (demo_world,
      (\<lambda>_. Idle)(0 := ?ready ''b1'' ''t1'', 1 := ?ready ''b2'' ''t2''))" by (simp add: b)
  from step_to [OF this create_check [where t = 0, OF _ refl]]
  have "reachable demo_cfg demo_lx (demo_world,
      (\<lambda>_. Idle)(0 := ?checked ''b1'' ''t1'', 1 := ?ready ''b2'' ''t2''))"
    by (simp add: b demo_schedule fun_upd_twist)
  from step_to [OF this create_check [where t = 1, OF _ refl]]
  have "reachable demo_cfg demo_lx (demo_world,
      (\<lambda>_. Idle)(0 := ?checked ''b1'' ''t1'', 1 := ?checked ''b2'' ''t2''))"
    by (simp add: b demo_schedule)
  from step_to [OF this create_reserve [where t = 0, OF _ demo_reserve]]
  have "reachable demo_cfg demo_lx (demo_booked,
      (\<lambda>_. Idle)(0 := CreateReserved (demo_booking ''b1'' ''t1''), 1 := ?checked ''b2'' ''t2''))"
    by (simp add: fun_upd_twist)
  from step_to [OF this create_reserve [where t = 1, OF _ demo_taken]]
  show ?thesis by (simp add: race_threads_def)
qed

section \<open>A reschedule that races a cancellation\<close>

definition race_cancelled :: world where
  "race_cancelled = demo_booked\<lparr>bookings := [cancelled_row CLIENT None (demo_booking ''b1'' ''t1'')]\<rparr>"

definition race_moved :: booking where
  "race_moved = (cancelled_row CLIENT None (demo_booking ''b1'' ''t1''))
     \<lparr>b_startAt := moved_start, b_endAt := moved_end\<rparr>"

lemma race_schedule:
  "assertWithinSchedule demo_lx ''c1'' moved_start moved_end ''Etc/UTC'' loc race_cancelled = Inr ()"
  by (rule moved_schedule) (simp_all add: race_cancelled_def demo_booked_def)

lemma race_move:
  "move_booking (demo_booking ''b1'' ''t1'') moved_start moved_end race_cancelled =
     (Inr race_moved, race_cancelled\<lparr>bookings := [race_moved]\<rparr>)"
  by (simp add: move_booking_def assertNotOverlapping_def overlapping_def race_cancelled_def
      race_moved_def cancelled_row_def booking_update_def updateRow_def demo_booking_def new_booking_def)

lemma race_moved_fields:
  "b_id race_moved = ''b1''" "b_coachId race_moved = ''c1''" "b_status race_moved = CANCELLED"
  "b_location race_moved = PHONE"
  by (simp_all add: race_moved_def cancelled_row_def demo_booking_def new_booking_def demo_event_def
      demo_dto_def)

lemma race_cancel:
  "booking_update ''b1'' (cancelled_row CLIENT None) demo_booked =
     (Inr (cancelled_row CLIENT None (demo_booking ''b1'' ''t1'')), race_cancelled)"
  by (simp add: race_cancelled_def demo_booked_def booking_update_def updateRow_def demo_booking_def
      new_booking_def)

text \<open>
  One run: a reschedule reads the booking, then a cancellation runs to its end of writing,
  then the reschedule goes on, moves the cancelled booking and queues its mail.
\<close>

lemma race_end:
  "\<exists>th. th 2 = Answered (Inr race_moved) \<and>
    reachable demo_cfg demo_lx
      (enqueue ''b1'' ''c1'' Rescheduled (race_cancelled\<lparr>bookings := [race_moved]\<rparr>), th)"
proof -
  let ?b = "demo_booking ''b1'' ''t1''" and ?tz = "''Etc/UTC''"
  have f: "b_id ?b = ''b1''" "b_coachId ?b = ''c1''" "b_locale ?b = ''hu''" "b_googleEventId ?b = None"
    by (simp_all add: demo_booking_def new_booking_def demo_event_def demo_dto_def)
  have drop: "(if truthy (b_googleEventId ?b)
      then deleteEvent demo_cfg (b_coachId ?b) (the (b_googleEventId ?b)) demo_booked
      else (Inr (), demo_booked)) = (Inr (), demo_booked)" by (simp add: f truthy_def)
  have store: "booking_update (b_id ?b) (cancelled_row CLIENT None) demo_booked =
      (Inr (cancelled_row CLIENT None ?b), race_cancelled)" by (simp add: f race_cancel)
  define th0 where "th0 = race_threads"
  have idle: "th0 2 = Idle" "th0 3 = Idle" by (simp_all add: th0_def race_threads_def)
  have "reachable demo_cfg demo_lx (demo_booked, th0)" unfolding th0_def by (rule demo_race)
  from next_step [OF this move_begin [where th = th0 and t = 2, OF idle(1) moved_prepare]]
  have "reachable demo_cfg demo_lx (demo_booked,
      th0(2 := MoveReady ?tz ?b moved_start moved_end 1))" .
  from next_step [OF this cancel_begin_client [where t = 3 and reason = None, OF _ moved_client]]
  have "reachable demo_cfg demo_lx (demo_booked,
      th0(2 := MoveReady ?tz ?b moved_start moved_end 1, 3 := CancelReady ?b CLIENT None))"
    using idle by simp
  from next_step [OF this cancel_drop [where t = 3, OF _ drop]]
  have "reachable demo_cfg demo_lx (demo_booked,
      th0(2 := MoveReady ?tz ?b moved_start moved_end 1, 3 := CancelDropped ?b CLIENT None))"
    by simp
  from next_step [OF this cancel_store [where t = 3, OF _ store]]
  have "reachable demo_cfg demo_lx (race_cancelled,
      th0(2 := MoveReady ?tz ?b moved_start moved_end 1,
        3 := CancelStored (cancelled_row CLIENT None ?b)))"
    by simp
  from next_step [OF this move_check [where t = 2, OF _ refl]]
  have "reachable demo_cfg demo_lx (race_cancelled,
      th0(3 := CancelStored (cancelled_row CLIENT None ?b),
        2 := MoveChecked ?tz ?b moved_start moved_end 1))"
    by (simp add: f race_schedule fun_upd_twist)
  from next_step [OF this move_store [where t = 2, OF _ race_move]]
  have "reachable demo_cfg demo_lx (race_cancelled\<lparr>bookings := [race_moved]\<rparr>,
      th0(3 := CancelStored (cancelled_row CLIENT None ?b), 2 := MoveStored race_moved))"
    by simp
  from next_step [OF this move_keep [where t = 2]]
  have "reachable demo_cfg demo_lx (race_cancelled\<lparr>bookings := [race_moved]\<rparr>,
      th0(3 := CancelStored (cancelled_row CLIENT None ?b), 2 := MoveFinished race_moved))"
    by (simp add: race_moved_fields)
  from next_step [OF this move_enqueue [where t = 2]]
  have "reachable demo_cfg demo_lx
      (enqueue ''b1'' ''c1'' Rescheduled (race_cancelled\<lparr>bookings := [race_moved]\<rparr>),
       th0(3 := CancelStored (cancelled_row CLIENT None ?b), 2 := Answered (Inr race_moved)))"
    by (simp add: race_moved_fields)
  then show ?thesis by (intro exI conjI) simp_all
qed

section \<open>Properties\<close>

text \<open>
  C1: in every reachable state, whatever requests run and however their steps interleave,
  no two confirmed bookings of one coach overlap, and no two bookings share their id.
\<close>

theorem no_double_booking_ever:
  assumes "reachable cfg lx (w, th)"
  shows "no_double_booking (bookings w) \<and> distinct (map b_id (bookings w))"
  using reachable_safe [OF assms] by (simp add: safe_def)

lemma no_double_booking_ever_witness:
  "reachable demo_cfg demo_lx (demo_booked, race_threads) \<and>
   race_threads 0 = CreateReserved (demo_booking ''b1'' ''t1'') \<and>
   race_threads 1 = Answered (Inl (i18n_error Conflict ''slotJustBooked'' (Some ''hu''))) \<and>
   no_double_booking (bookings demo_booked)"
  using no_double_booking_ever [OF demo_race] demo_race by (simp add: race_threads_def)

text \<open>
  C5: each operation, run on its own, is a run of the interleaved steps: it takes an idle
  thread and the state before it to the state and the answer of the operation.
\<close>

theorem operations_are_runs:
  assumes "th t = Idle"
  shows "steps cfg lx (w, th) (snd (create lx now refused i tok dto org w),
      th(t := Answered (fst (create lx now refused i tok dto org w)))) \<and>
    steps cfg lx (w, th) (snd (cancelByClient cfg lx now token reason w),
      th(t := Answered (fst (cancelByClient cfg lx now token reason w)))) \<and>
    steps cfg lx (w, th) (snd (cancelByCoach cfg given c k w),
      th(t := Answered (fst (cancelByCoach cfg given c k w)))) \<and>
    steps cfg lx (w, th) (snd (rescheduleByClient cfg lx now refused token start w),
      th(t := Answered (fst (rescheduleByClient cfg lx now refused token start w))))"
  by (intro conjI create_run cancelByClient_run cancelByCoach_run reschedule_run assms)

lemma operations_are_runs_witness:
  "steps demo_cfg demo_lx (demo_world, \<lambda>_. Idle)
    (snd (create demo_lx demo_now (\<lambda>_. False) ''b1'' ''t1'' demo_dto None demo_world),
     (\<lambda>_. Idle)(0 := Answered
       (fst (create demo_lx demo_now (\<lambda>_. False) ''b1'' ''t1'' demo_dto None demo_world))))"
  using operations_are_runs [of "\<lambda>_. Idle" 0] by blast

text \<open>
  C13: bookings are never deleted, never change their coach, and a cancelled booking never
  becomes confirmed again, whatever steps follow.
\<close>

theorem bookings_persist:
  assumes "steps cfg lx (w, th) (w', th')" and "b \<in> set (bookings w)"
  shows "\<exists>b' \<in> set (bookings w'). b_id b' = b_id b \<and> b_coachId b' = b_coachId b \<and>
    (b_status b = CANCELLED \<longrightarrow> b_status b' = CANCELLED)"
  using steps_persist [OF assms(1)] assms(2) by simp

lemma bookings_persist_witness:
  "\<exists>b' \<in> set (bookings race_cancelled). b_id b' = ''b1'' \<and> b_status b' = CANCELLED"
proof -
  have "cancelled_row CLIENT None (demo_booking ''b1'' ''t1'') \<in> set (bookings race_cancelled)"
    by (simp add: race_cancelled_def)
  from bookings_persist [where cfg = demo_cfg and lx = demo_lx and th = "\<lambda>_. Idle",
      OF rtranclp.rtrancl_refl this]
  show ?thesis by (auto simp: cancelled_row_def demo_booking_def new_booking_def)
qed

text \<open>
  C32: a reschedule does not notice a cancellation that is stored after it has read the
  booking: there is a reachable state in which a client was told that her booking was
  rescheduled, and the mail that says so is queued, while the booking is cancelled.
\<close>

theorem cancelled_booking_rescheduled:
  "\<exists>w th u. reachable demo_cfg demo_lx (w, th) \<and> th 2 = Answered (Inr u) \<and>
    u \<in> set (bookings w) \<and> b_status u = CANCELLED \<and>
    \<lparr> j_bookingId = b_id u, j_coachId = b_coachId u, j_kind = Rescheduled \<rparr> \<in> set (jobs w)"
proof -
  obtain th where "th 2 = Answered (Inr race_moved)" "reachable demo_cfg demo_lx
      (enqueue ''b1'' ''c1'' Rescheduled (race_cancelled\<lparr>bookings := [race_moved]\<rparr>), th)"
    using race_end by blast
  then show ?thesis
    by (intro exI [of _ "enqueue ''b1'' ''c1'' Rescheduled (race_cancelled\<lparr>bookings := [race_moved]\<rparr>)"]
        exI [of _ th] exI [of _ race_moved]) (simp add: race_moved_fields)
qed

end
