(* ===== verification/ApiDemo.thy ===== *)
theory ApiDemo
  imports Controllers AuthSpecs Demo
begin

text \<open>An instance of the program with two coaches, on which the witnesses of the routes run.\<close>

definition demo_checks :: checks where
  "demo_checks = \<lparr> ck_email = (\<lambda>s. CHR 0x40 \<in> set s), ck_url = (\<lambda>s. s \<noteq> []), ck_phone = (\<lambda>s. s \<noteq> []),
     ck_iso8601 = (\<lambda>s. s \<noteq> []), ck_dateString = (\<lambda>s. s \<noteq> []), ck_timeZone = (\<lambda>s. s \<noteq> []) \<rparr>"

definition demo_api :: apiEnv where
  "demo_api = \<lparr> av_auth = demo_auth, av_config = demo_cfg, av_luxon = demo_lx, av_parse = (\<lambda>_. None),
     av_collate = length, av_checks = demo_checks, av_authUrl = (\<lambda>state. ''https://google/'' @ state) \<rparr>"

text \<open>A request of second six with an Authorization header.\<close>

definition demo_exchange :: "string \<Rightarrow> exchange" where
  "demo_exchange token = \<lparr> rq_authorization = bearer token, rq_origin = None, rq_referer = None,
     rq_clock = (\<lambda>n. 6000 + int n), rq_newId = ''id'', rq_nanoid = ''nano'', rq_salt = [],
     rq_refused = (\<lambda>_. False), rq_iv = [], rq_tokens = Inr None, rq_userInfo = Inr None \<rparr>"

definition demo_berta :: coach where
  "demo_berta = demo_anna\<lparr>c_id := ''c2'', c_email := ''b@b.hu'', c_name := ''Berta'', c_role := ADMIN\<rparr>"

definition two_coaches :: world where
  "two_coaches = empty_world\<lparr>coaches := [demo_anna, demo_berta]\<rparr>"

definition session_token :: "coach \<Rightarrow> string" where
  "session_token c = sign (ae_tokens demo_auth) 5000 (access_claims (c_id c) (c_email c) (c_role c) None)"

definition anna_token :: string where "anna_token = session_token demo_anna"

lemma berta_sel:
  "c_id demo_berta = ''c2''" "c_email demo_berta = ''b@b.hu''" "c_role demo_berta = ADMIN"
  "c_sessionsRevokedAt demo_berta = None" "c_frontendUrl demo_berta = None"
  by (simp_all add: demo_berta_def anna_world_sel)

lemma two_coaches_sel:
  "coaches two_coaches = [demo_anna, demo_berta]" "weeklies two_coaches = []" "eventTypes two_coaches = []"
  "bookings two_coaches = []" "overrides two_coaches = []" "settingsRows two_coaches = []"
  "allowedOrigins two_coaches = []"
  by (simp_all add: two_coaches_def empty_world_def)

lemma two_coaches_ok: "constraints_ok two_coaches"
  by (simp add: constraints_ok_def two_coaches_def empty_world_def sites_unique_def anna_world_sel berta_sel)

lemma demo_api_sel [simp]:
  "av_auth demo_api = demo_auth" "av_config demo_api = demo_cfg" "av_luxon demo_api = demo_lx"
  "av_checks demo_api = demo_checks"
  by (simp_all add: demo_api_def)

lemma demo_exchange_sel [simp]:
  "rq_authorization (demo_exchange t) = bearer t" "rq_clock (demo_exchange t) n = 6000 + int n"
  "rq_newId (demo_exchange t) = ''id''" "rq_salt (demo_exchange t) = []"
  by (simp_all add: demo_exchange_def)

lemma anna_session: "authorize demo_auth 6000 None (bearer anna_token) two_coaches = Inr demo_anna"
  by (simp add: anna_token_def session_token_def authorize_def guard_login [OF demo_auth_laws(1)] issued_access
      session_answer_def TOKEN_TTL_def anna_world_sel two_coaches_sel revoked_before_def roles_canActivate_def)

lemma berta_session:
  "roles \<in> {None, Some [ADMIN]} \<Longrightarrow>
   authorize demo_auth 6000 roles (bearer (session_token demo_berta)) two_coaches = Inr demo_berta"
  by (auto simp: session_token_def authorize_def guard_login [OF demo_auth_laws(1)] issued_access berta_sel
      session_answer_def TOKEN_TTL_def anna_world_sel two_coaches_sel revoked_before_def roles_canActivate_def)

end
