(* ===== verification/System.thy ===== *)
theory System
  imports Frames BookingsRace ApiDemo
begin

text \<open>
  The running system: requests, jobs of the queue, the check of origins and the seeding of
  the administrator, in any order.  Its states keep every constraint of the schema, the
  bounds of every row, the freedom from double bookings and the single administrator.
\<close>

section \<open>The transitions\<close>

text \<open>
  The script that creates the administrator (seed-admin.mjs).  A text counts its characters
  by units of sixteen bits: two for a character of four bytes.
\<close>

definition js_length :: "string \<Rightarrow> nat" where
  "js_length s = text_length s + length (filter (\<lambda>c. 240 \<le> (of_char c :: nat)) s)"

definition seedAdmin ::
  "authEnv \<Rightarrow> string \<Rightarrow> string \<Rightarrow> string \<Rightarrow> string \<Rightarrow> string \<Rightarrow> world \<Rightarrow> (world, unit) outcome" where
  "seedAdmin env new_id salt email name password w =
    (if \<exists>c \<in> set (coaches w). c_role c = ADMIN then (Inr (), w)
     else if js_length password < 8 then (Inl (PlainError ''Password must be at least 8 characters.''), w)
     else andThen (coach_create
         \<lparr> c_id = new_id, c_email = email, c_passwordHash = hashPassword env password salt, c_name = name,
           c_preferredLocale = ''hu'', c_role = ADMIN, c_sessionsRevokedAt = None, c_frontendUrl = None \<rparr> w)
       (\<lambda>_ w. (Inr (), w)))"

inductive running :: "apiEnv \<Rightarrow> origins_state \<Rightarrow> bool" for env where
  boot: "running env (empty_cache, empty_world)"
| restart: "running env (oc, w) \<Longrightarrow> running env (empty_cache, w)"
| seed: "running env (oc, w) \<Longrightarrow> seedAdmin (av_auth env) i salt email name password w = (x, w') \<Longrightarrow>
    running env (oc, w')"
| request: "running env st \<Longrightarrow> api env rq req st = Some (y, st') \<Longrightarrow> running env st'"
| job: "running env (oc, w) \<Longrightarrow> j \<in> set (jobs w) \<Longrightarrow> process (av_config env) a j w = (x, w') \<Longrightarrow>
    running env (oc, w')"
| cors: "running env (oc, w) \<Longrightarrow>
    corsOrigin (av_parse env) now (Inr (origin_rows w)) later origin oc = (z, oc') \<Longrightarrow> running env (oc', w)"

section \<open>The invariant\<close>

definition admins :: "world \<Rightarrow> nat" where
  "admins w = length (filter (\<lambda>(_, _, r). r = ADMIN) (identities (coaches w)))"

definition settings_rows_wf :: "world \<Rightarrow> bool" where
  "settings_rows_wf w \<longleftrightarrow> (\<forall>s \<in> set (settingsRows w). settings_wf s)"

definition bookings_safe :: "world \<Rightarrow> bool" where
  "bookings_safe w \<longleftrightarrow> distinct (map b_id (bookings w)) \<and> no_double_booking (bookings w)"

definition db_ok :: "world \<Rightarrow> bool" where
  "db_ok w \<longleftrightarrow> constraints_ok w \<and> availability_wf w \<and> event_types_wf w \<and> settings_rows_wf w \<and>
     bookings_safe w \<and> admins w \<le> 1"

text \<open>What each part depends on.\<close>

lemma parts_frame:
  "weeklies w' = weeklies w \<Longrightarrow> overrides w' = overrides w \<Longrightarrow> availability_wf w' = availability_wf w"
  "eventTypes w' = eventTypes w \<Longrightarrow> event_types_wf w' = event_types_wf w"
  "settingsRows w' = settingsRows w \<Longrightarrow> settings_rows_wf w' = settings_rows_wf w"
  "bookings w' = bookings w \<Longrightarrow> bookings_safe w' = bookings_safe w"
  "coaches w' = coaches w \<Longrightarrow> admins w' = admins w"
  by (simp_all add: availability_wf_def event_types_wf_def settings_rows_wf_def bookings_safe_def admins_def)

lemma parts_upd [simp]:
  "availability_wf (w\<lparr>coaches := a\<rparr>) = availability_wf w" "availability_wf (w\<lparr>eventTypes := b\<rparr>) = availability_wf w"
  "availability_wf (w\<lparr>settingsRows := c\<rparr>) = availability_wf w" "availability_wf (w\<lparr>externals := d\<rparr>) = availability_wf w"
  "availability_wf (w\<lparr>googleIntegrations := e\<rparr>) = availability_wf w"
  "availability_wf (w\<lparr>allowedOrigins := f\<rparr>) = availability_wf w"
  "event_types_wf (w\<lparr>coaches := a\<rparr>) = event_types_wf w" "event_types_wf (w\<lparr>weeklies := g\<rparr>) = event_types_wf w"
  "event_types_wf (w\<lparr>overrides := h\<rparr>) = event_types_wf w"
  "event_types_wf (w\<lparr>settingsRows := c\<rparr>) = event_types_wf w" "event_types_wf (w\<lparr>externals := d\<rparr>) = event_types_wf w"
  "event_types_wf (w\<lparr>googleIntegrations := e\<rparr>) = event_types_wf w"
  "event_types_wf (w\<lparr>allowedOrigins := f\<rparr>) = event_types_wf w"
  by (simp_all add: availability_wf_def event_types_wf_def)

lemma parts_upd2 [simp]:
  "settings_rows_wf (w\<lparr>coaches := a\<rparr>) = settings_rows_wf w" "settings_rows_wf (w\<lparr>weeklies := g\<rparr>) = settings_rows_wf w"
  "settings_rows_wf (w\<lparr>overrides := h\<rparr>) = settings_rows_wf w" "settings_rows_wf (w\<lparr>eventTypes := b\<rparr>) = settings_rows_wf w"
  "settings_rows_wf (w\<lparr>externals := d\<rparr>) = settings_rows_wf w"
  "settings_rows_wf (w\<lparr>googleIntegrations := e\<rparr>) = settings_rows_wf w"
  "settings_rows_wf (w\<lparr>allowedOrigins := f\<rparr>) = settings_rows_wf w"
  "bookings_safe (w\<lparr>coaches := a\<rparr>) = bookings_safe w" "bookings_safe (w\<lparr>weeklies := g\<rparr>) = bookings_safe w"
  "bookings_safe (w\<lparr>overrides := h\<rparr>) = bookings_safe w" "bookings_safe (w\<lparr>eventTypes := b\<rparr>) = bookings_safe w"
  "bookings_safe (w\<lparr>settingsRows := c\<rparr>) = bookings_safe w" "bookings_safe (w\<lparr>externals := d\<rparr>) = bookings_safe w"
  "bookings_safe (w\<lparr>googleIntegrations := e\<rparr>) = bookings_safe w"
  "bookings_safe (w\<lparr>allowedOrigins := f\<rparr>) = bookings_safe w"
  "admins (w\<lparr>weeklies := g\<rparr>) = admins w" "admins (w\<lparr>overrides := h\<rparr>) = admins w"
  "admins (w\<lparr>eventTypes := b\<rparr>) = admins w" "admins (w\<lparr>settingsRows := c\<rparr>) = admins w"
  "admins (w\<lparr>googleIntegrations := e\<rparr>) = admins w" "admins (w\<lparr>allowedOrigins := f\<rparr>) = admins w"
  by (simp_all add: settings_rows_wf_def bookings_safe_def admins_def)

lemma db_ok_empty: "db_ok empty_world"
  by (simp add: db_ok_def constraints_empty) (simp add: empty_world_def availability_wf_def event_types_wf_def
      settings_rows_wf_def bookings_safe_def no_double_booking_def admins_def identities_def)

text \<open>Writes to the coaches.\<close>

lemma admins_edited: "coaches_edited w w' \<Longrightarrow> admins w' = admins w"
  by (auto simp: coaches_edited_def admins_def)

lemma db_ok_edited:
  assumes "db_ok w" and "coaches_edited w w'" and "constraints_ok w'"
  shows "db_ok w'"
proof -
  have "admins w' = admins w" using assms(2) by (rule admins_edited)
  moreover from assms(2) obtain cs xs where "w' = w\<lparr>coaches := cs, externals := xs\<rparr>"
    by (auto simp: coaches_edited_def)
  ultimately show ?thesis using assms(1,3) by (simp add: db_ok_def)
qed

text \<open>Visits: the booking operations and the reads that create a row of settings.\<close>

lemma db_ok_visit:
  assumes "db_ok w" and "visit w w'" and "constraints_ok w'" and "bookings_safe w'"
  shows "db_ok w'"
proof -
  have s: "static_part w' = static_part w" and g: "settings_grown (settingsRows w) (settingsRows w')"
    using assms(2) by (simp_all add: visit_def)
  have "settings_rows_wf w'"
    using g assms(1) default_settings_wf unfolding settings_grown_def settings_rows_wf_def db_ok_def by metis
  then show ?thesis
    using assms(1,3,4) parts_frame(1,2,5) [of w' w] static_partD [OF s] by (simp add: db_ok_def)
qed

section \<open>Jobs\<close>

lemma createMeetEvent_frame:
  assumes "createMeetEvent cfg uuid answer c input w = (x, w')"
  shows "\<exists>xs. w' = w\<lparr>externals := xs\<rparr>"
proof -
  have "\<exists>xs. w = w\<lparr>externals := xs\<rparr>" by (rule exI [of _ "externals w"]) simp
  with assms show ?thesis
    by (auto simp: createMeetEvent_def Let_def split: sum.splits if_splits)
qed

context booking_invariant
begin

lemma inv_ensureMeetLink:
  assumes "inv w" and "ensureMeetLink cfg a bk w = (x, w')"
  shows "inv w'"
proof (cases "b_location (bw_booking bk) \<noteq> GOOGLE_MEET \<or> truthy (b_meetLink (bw_booking bk))")
  case True
  with assms show ?thesis by (auto simp: ensureMeetLink_def Let_def)
next
  case False
  from assms(2) show ?thesis
    unfolding ensureMeetLink_def Let_def if_not_P [OF False]
  proof (rule inv_andThen)
    show "inv (snd (createMeetEvent cfg (at_uuid a) (at_answer a) (b_coachId (bw_booking bk)) (meet_input bk) w))"
      using createMeetEvent_frame [OF prod.collapse [symmetric]] assms(1) inv_log by metis
  next
    fix m w1
    assume w1: "inv w1" and "andThen (booking_update (b_id (bw_booking bk))
        (\<lambda>r. r\<lparr>b_meetLink := Some (me_meetLink m), b_googleEventId := Some (me_eventId m)\<rparr>) w1)
      (\<lambda>updated w. case with_relations updated w of
         None \<Rightarrow> (Inl inconsistent, w) | Some bk' \<Rightarrow> (Inr bk', w)) = (x, w')"
    from this(2) show "inv w'"
    proof (rule inv_andThen)
      show "inv (snd (booking_update (b_id (bw_booking bk))
          (\<lambda>r. r\<lparr>b_meetLink := Some (me_meetLink m), b_googleEventId := Some (me_eventId m)\<rparr>) w1))"
        by (rule inv_update [OF w1 prod.collapse [symmetric]]) simp_all
    qed (auto split: option.splits)
  qed
qed

lemma inv_notify:
  assumes "inv w" and "notifyBooking nt kind bk w = (x, w')"
  shows "inv w'"
  using assms(2) unfolding notifyBooking_eq
proof (rule inv_andThen)
  show "inv (snd (settings_get (b_coachId (bw_booking bk)) w))"
    by (rule inv_settings [OF assms(1) prod.collapse [symmetric]])
qed (auto simp: Let_def sent_def intro: inv_log split: sum.splits option.splits)

lemma inv_process:
  assumes "inv w" and "process cfg a j w = (x, w')"
  shows "inv w'"
proof (cases "findUnique b_id (j_bookingId j) (bookings w)")
  case None
  with assms show ?thesis by (simp add: process_def)
next
  case (Some b)
  show ?thesis
  proof (cases "with_relations b w")
    case None
    with Some assms show ?thesis by (simp add: process_def)
  next
    case bk: (Some bk)
    from assms(2) have "andThen (if j_kind j \<noteq> Cancelled then ensureMeetLink cfg a bk w else (Inr bk, w))
        (notifyBooking (at_notifier a) (j_kind j)) = (x, w')"
      by (simp only: process_eq Some bk option.case)
    then show ?thesis
    proof (rule inv_andThen)
      show "inv (snd (if j_kind j \<noteq> Cancelled then ensureMeetLink cfg a bk w else (Inr bk, w)))"
        using assms(1) inv_ensureMeetLink [OF assms(1) prod.collapse [symmetric]] by simp
    qed (rule inv_notify)
  qed
qed

end

text \<open>A job changes no key of a booking.\<close>

lemma update_keys:
  "(\<And>b. booking_key (f b) = booking_key b) \<Longrightarrow> booking_update k f w = (x, w') \<Longrightarrow>
   map booking_key (bookings w') = map booking_key (bookings w)"
  by (auto simp: booking_update_def intro: map_updateRow_same split: option.splits)

lemma process_keys:
  assumes "process cfg a j w = (x, w')"
  shows "map booking_key (bookings w') = map booking_key (bookings w)"
proof -
  have e: "map booking_key (bookings w1) = map booking_key (bookings w)"
    if "ensureMeetLink cfg a bk w = (y, w1)" for bk y w1
    using that
    by (auto simp: ensureMeetLink_def Let_def booking_key_def elim!: andThen_cases split: if_splits option.splits
        dest!: createMeetEvent_frame update_keys [rotated])
  have n: "bookings w2 = bookings w1" if "notifyBooking nt k bk w1 = (y, w2)" for nt k bk y w1 w2
    using notify_quiet [OF that] by (simp add: quiet_def)
  have c: "map booking_key (bookings w') = map booking_key (bookings w)"
    if "andThen (if j_kind j \<noteq> Cancelled then ensureMeetLink cfg a bk w else (Inr bk, w))
      (notifyBooking (at_notifier a) (j_kind j)) = (x, w')" for bk
    using that
  proof (cases rule: andThen_cases)
    case (err why)
    then show ?thesis using e by (simp split: if_splits)
  next
    case (ok typed w1)
    have "map booking_key (bookings w1) = map booking_key (bookings w)"
      using ok(1) e by (auto split: if_splits)
    with n [OF ok(2)] show ?thesis by simp
  qed
  show ?thesis
    using assms unfolding process_eq by (auto dest: c simp del: findUnique_None split: option.splits)
qed

section \<open>Each controller keeps the invariant\<close>

lemma constraints_sent [simp]: "constraints_ok (sent m w) = constraints_ok w"
  by (simp add: sent_def)

lemma auth_constraints:
  "constraints_ok w \<Longrightarrow> login a t e p w = (x1, w') \<Longrightarrow> constraints_ok w'"
  "constraints_ok w \<Longrightarrow> auth_forgotPassword parse a t e org ref w = (x2, w') \<Longrightarrow> constraints_ok w'"
  "constraints_ok w \<Longrightarrow> resetPassword a t1 t2 t3 salt tok p w = (x3, w') \<Longrightarrow> constraints_ok w'"
proof -
  show "constraints_ok w \<Longrightarrow> login a t e p w = (x1, w') \<Longrightarrow> constraints_ok w'"
    by (auto simp: login_def split: option.splits if_splits)
  show "constraints_ok w \<Longrightarrow> auth_forgotPassword parse a t e org ref w = (x2, w') \<Longrightarrow> constraints_ok w'"
    by (auto simp: auth_forgotPassword_def forgotPassword_def sendReset_eq Let_def
        split: option.splits if_splits)
  show "constraints_ok w \<Longrightarrow> resetPassword a t1 t2 t3 salt tok p w = (x3, w') \<Longrightarrow> constraints_ok w'"
    by (auto simp: resetPassword_def reset_write_def new_password_def elim!: andThen_cases
        intro: coach_update_ok split: sum.splits)
qed

lemma auth_keeps:
  assumes "db_ok w" and "auth_controller env rq r (oc, w) = Some (x, (oc', w'))"
  shows "db_ok w'"
proof (rule db_ok_edited [OF assms(1)])
  show "coaches_edited w w'" using auth_frame [OF assms(2)] ..
  have "constraints_ok w" using assms(1) by (simp add: db_ok_def)
  with assms(2) show "constraints_ok w'" by (cases r) (auto elim!: on_world_cases intro: auth_constraints)
qed

lemma coaches_keeps:
  assumes "db_ok w" and "coaches_controller env rq me r (oc, w) = Some (x, (oc', w'))"
  shows "db_ok w'"
proof (rule db_ok_edited [OF assms(1)])
  show "coaches_edited w w'" using coaches_frame [OF assms(2)] ..
  have "constraints_ok w" using assms(1) by (simp add: db_ok_def)
  with assms(2) show "constraints_ok w'"
    by (cases r) (auto elim!: on_world_cases reads_cases intro: updateCoach_ok changePassword_ok invite_ok
        acceptInvite_ok revokeSessions_ok setFrontendUrl_ok)
qed

lemma slots_keeps:
  assumes "db_ok w" and "slots_controller env rq q (oc, w) = Some (x, (oc', w'))"
  shows "db_ok w'"
proof -
  from assms(2) obtain y where c: "computeSlots (av_luxon env) (rq_clock rq 1) q w = Some (y, w')"
    by (auto simp: slots_controller_def split: option.splits)
  have "constraints_ok w' \<and> bookings w' = bookings w"
    using c
  proof (cases rule: computeSlots_cases)
    case 1
    with assms(1) show ?thesis by (simp add: db_ok_def)
  next
    case (2 k y)
    then have "bookings w' = bookings w" by (auto simp: settings_get_def split: option.splits)
    moreover have "constraints_ok w" using assms(1) by (simp add: db_ok_def)
    ultimately show ?thesis using settings_get_ok 2 by blast
  qed
  then have "constraints_ok w'" and "bookings_safe w'"
    using parts_frame(4) [of w' w] assms(1) by (simp_all add: db_ok_def)
  moreover have "visit w w'" using slots_frame [OF assms(2)] ..
  ultimately show ?thesis by (intro db_ok_visit [OF assms(1)])
qed

text \<open>An operation that is a run of the steps of concurrent requests keeps the bookings safe.\<close>

lemma steps_safe: "steps cfg lx st st' \<Longrightarrow> safe st \<Longrightarrow> safe st'"
  by (induction rule: rtranclp_induct) (auto intro: step_safe)

lemma run_safe:
  assumes "steps cfg lx (w, \<lambda>_. Idle) (w', th')" and "bookings_safe w"
  shows "bookings_safe w'"
  using steps_safe [OF assms(1)] assms(2) by (simp add: safe_def bookings_safe_def)

lemma bookings_keeps:
  assumes "db_ok w" and "bookings_controller env rq me r (oc, w) = Some (x, (oc', w'))"
  shows "db_ok w'"
proof (rule db_ok_visit [OF assms(1)])
  have c: "constraints_ok w" and s: "bookings_safe w" using assms(1) by (simp_all add: db_ok_def)
  show "visit w w'" using bookings_frame [OF assms(2)] ..
  show "constraints_ok w'" using assms(2) c
    by (cases r) (auto elim!: on_world_cases reads_cases intro: schema.inv_create_booking
        schema.inv_cancelByClient schema.inv_cancelByCoach schema.inv_reschedule)
  show "bookings_safe w'"
  proof (cases r)
    case (CreateBooking dto)
    with assms(2) have "w' = snd (create (av_luxon env) (rq_clock rq 1) (rq_refused rq) (rq_newId rq) (rq_nanoid rq)
        dto (resolveRequestOrigin (av_parse env) (rq_origin rq) (rq_referer rq)) w)"
      by (auto elim!: on_world_cases)
    then show ?thesis using run_safe [OF create_run s] by simp
  next
    case (CancelByClient token reason)
    with assms(2) have "w' = snd (cancelByClient (av_config env) (av_luxon env) (rq_clock rq 1) token reason w)"
      by (auto elim!: on_world_cases)
    then show ?thesis using run_safe [OF cancelByClient_run s] by simp
  next
    case (CancelByCoach k reason)
    with assms(2) have "w' = snd (cancelByCoach (av_config env) reason (the me) k w)"
      by (auto elim!: on_world_cases)
    then show ?thesis using run_safe [OF cancelByCoach_run s] by simp
  next
    case (RescheduleByClient token startAt)
    with assms(2) have "w' = snd (rescheduleByClient (av_config env) (av_luxon env) (rq_clock rq 1) (rq_refused rq)
        token startAt w)"
      by (auto elim!: on_world_cases)
    then show ?thesis using run_safe [OF reschedule_run s] by simp
  qed (use assms(2) s in \<open>auto elim!: reads_cases\<close>)
qed

text \<open>The controllers that write one table.\<close>

lemma event_types_keeps:
  assumes "db_ok w" and "valid_event_types r"
    and "event_types_controller env rq me r (oc, w) = Some (x, (oc', w'))"
  shows "db_ok w'"
proof -
  have c: "constraints_ok w" and t: "event_types_wf w" using assms(1) by (simp_all add: db_ok_def)
  have id: "\<exists>es. w = w\<lparr>eventTypes := es\<rparr>" by (rule exI [of _ "eventTypes w"]) simp
  have "\<exists>es. w' = w\<lparr>eventTypes := es\<rparr>" using assms(3) id
    by (cases r) (auto elim!: on_world_cases reads_cases simp: event_type_ops write_defs reorder_eq [OF c]
        eventTypes_create_def Let_def split: option.splits if_splits sum.splits)
  moreover have "constraints_ok w'" using assms(3) c
    by (cases r) (auto elim!: on_world_cases reads_cases intro: eventTypes_create_ok eventTypes_edit_ok
        eventTypes_archive_ok eventTypes_remove_ok reorder_ok)
  moreover have "event_types_wf w'" using assms(2,3) t
    by (cases r) (auto elim!: on_world_cases reads_cases intro: eventTypes_create_wf eventTypes_edit_wf
        eventTypes_archive_wf eventTypes_remove_wf reorder_wf [OF c])
  ultimately show ?thesis using assms(1) by (auto simp: db_ok_def)
qed

lemma availability_frames:
  "weeklyAvailability_create i c d s e w = (x1, w') \<Longrightarrow> \<exists>ws. w' = w\<lparr>weeklies := ws\<rparr>"
  "weeklyAvailability_update wd c k w = (x1, w') \<Longrightarrow> \<exists>ws. w' = w\<lparr>weeklies := ws\<rparr>"
  "weeklyAvailability_remove c k w = (y, w') \<Longrightarrow> \<exists>ws. w' = w\<lparr>weeklies := ws\<rparr>"
  "availabilityOverride_create i c date od w = (x2, w') \<Longrightarrow> \<exists>os. w' = w\<lparr>overrides := os\<rparr>"
  "availabilityOverride_update od c k w = (x2, w') \<Longrightarrow> \<exists>os. w' = w\<lparr>overrides := os\<rparr>"
  "availabilityOverride_remove c k w = (y, w') \<Longrightarrow> \<exists>os. w' = w\<lparr>overrides := os\<rparr>"
proof -
  have id: "\<exists>ws. w = w\<lparr>weeklies := ws\<rparr>" "\<exists>os. w = w\<lparr>overrides := os\<rparr>"
    by (rule exI [of _ "weeklies w"], simp) (rule exI [of _ "overrides w"], simp)
  note ops = availability_ops Let_def write_defs
  show "weeklyAvailability_create i c d s e w = (x1, w') \<Longrightarrow> \<exists>ws. w' = w\<lparr>weeklies := ws\<rparr>"
    using id(1) by (auto simp: ops split: sum.splits if_splits)
  show "weeklyAvailability_update wd c k w = (x1, w') \<Longrightarrow> \<exists>ws. w' = w\<lparr>weeklies := ws\<rparr>"
    using id(1) by (auto simp: ops split: sum.splits option.splits)
  show "weeklyAvailability_remove c k w = (y, w') \<Longrightarrow> \<exists>ws. w' = w\<lparr>weeklies := ws\<rparr>"
    using id(1) by (auto simp: ops split: sum.splits option.splits)
  show "availabilityOverride_create i c date od w = (x2, w') \<Longrightarrow> \<exists>os. w' = w\<lparr>overrides := os\<rparr>"
    using id(2) by (auto simp: ops split: option.splits if_splits)
  show "availabilityOverride_update od c k w = (x2, w') \<Longrightarrow> \<exists>os. w' = w\<lparr>overrides := os\<rparr>"
    using id(2) by (auto simp: ops split: sum.splits option.splits)
  show "availabilityOverride_remove c k w = (y, w') \<Longrightarrow> \<exists>os. w' = w\<lparr>overrides := os\<rparr>"
    using id(2) by (auto simp: ops split: sum.splits option.splits)
qed

lemma availability_keeps:
  assumes "db_ok w" and "valid_availability ck r"
    and "availability_controller rq me r (oc, w) = Some (x, (oc', w'))"
  shows "db_ok w'"
proof -
  have c: "constraints_ok w" and t: "availability_wf w" using assms(1) by (simp_all add: db_ok_def)
  have "(\<exists>ws. w' = w\<lparr>weeklies := ws\<rparr>) \<or> (\<exists>os. w' = w\<lparr>overrides := os\<rparr>) \<or> w' = w" using assms(3)
    by (cases r) (auto elim!: on_world_cases reads_cases dest: availability_frames)
  moreover have "constraints_ok w'" using assms(3) c
    by (cases r) (auto elim!: on_world_cases reads_cases intro: availability_constraints)
  moreover have "availability_wf w'" using assms(2,3) t
    by (cases r) (auto elim!: on_world_cases reads_cases intro: weekly_create_wf weekly_update_wf
        override_create_wf override_update_wf availability_remove_wf)
  ultimately show ?thesis using assms(1) by (auto simp: db_ok_def)
qed

lemma settings_update_frame:
  assumes "settings_update k dto w = (x, w')"
  shows "\<exists>rs. w' = w\<lparr>settingsRows := rs\<rparr>"
proof -
  have g: "\<exists>rs. w1 = w\<lparr>settingsRows := rs\<rparr>" if "settings_get k w = (y, w1)" for y w1
  proof -
    have "\<exists>rs. w = w\<lparr>settingsRows := rs\<rparr>" by (rule exI [of _ "settingsRows w"]) simp
    then show ?thesis using that by (auto simp: settings_get_def split: option.splits)
  qed
  show ?thesis
    using assms unfolding settings_update_def
    by (auto elim!: andThen_cases dest!: g split: if_splits option.splits)
qed

lemma settings_keeps:
  assumes "db_ok w" and "\<And>dto. r = UpdateSettings dto \<Longrightarrow> valid_settings_dto dto"
    and "settings_controller me r (oc, w) = Some (x, (oc', w'))"
  shows "db_ok w'"
proof (cases r)
  case (GetSettings k)
  with assms(3) obtain y where g: "settings_get k w = (y, w')" by (auto elim!: on_world_cases)
  have "bookings w' = bookings w" using g by (auto simp: settings_get_def split: option.splits)
  moreover have "constraints_ok w'" using g assms(1) settings_get_ok by (auto simp: db_ok_def)
  ultimately show ?thesis
    using assms(1) parts_frame(4) [of w' w]
    by (intro db_ok_visit [OF assms(1) visit_settings_get [OF visit_refl g]]) (simp_all add: db_ok_def)
next
  case (UpdateSettings dto)
  with assms(3) obtain y where u: "settings_update (c_id (the me)) dto w = (y, w')"
    by (auto elim!: on_world_cases)
  from settings_update_frame [OF u] obtain rs where "w' = w\<lparr>settingsRows := rs\<rparr>" ..
  moreover have "constraints_ok w'" using u assms(1) settings_update_ok by (auto simp: db_ok_def)
  moreover have "settings_rows_wf w'"
    using settings_update_wf [OF _ assms(2) [OF UpdateSettings] u] assms(1)
    by (simp add: db_ok_def settings_rows_wf_def)
  ultimately show ?thesis using assms(1) by (simp add: db_ok_def)
qed

lemma google_frame:
  assumes "google_callback env rq code state w = (x, w')"
  shows "\<exists>gs. w' = w\<lparr>googleIntegrations := gs\<rparr>"
proof -
  have id: "\<exists>gs. w = w\<lparr>googleIntegrations := gs\<rparr>" by (rule exI [of _ "googleIntegrations w"]) simp
  have h: "\<exists>gs. w1 = w\<lparr>googleIntegrations := gs\<rparr>"
    if "handleCallback cfg iv now tokens userInfo code k w = (y, w1)" for cfg iv now tokens userInfo k y w1
    using that by (rule handleCallback_cases) (use id in \<open>auto simp: google_upsert_def split: if_splits\<close>)
  show ?thesis
    using assms id unfolding google_callback_def by (auto dest: h split: sum.splits option.splits)
qed

lemma google_keeps:
  assumes "db_ok w" and "google_controller env rq me r (oc, w) = Some (x, (oc', w'))"
  shows "oc' = oc \<and> db_ok w'"
proof (cases r)
  case (Callback code state)
  with assms(2) obtain y where u: "google_callback env rq code state w = (y, w')" and oc: "oc' = oc"
    by (auto elim!: on_world_cases)
  from google_frame [OF u] obtain gs where "w' = w\<lparr>googleIntegrations := gs\<rparr>" ..
  moreover have "constraints_ok w'"
    using u assms(1) handleCallback_ok [of w] unfolding google_callback_def db_ok_def
    by (auto split: sum.splits option.splits)
  ultimately show ?thesis using assms(1) oc by (simp add: db_ok_def)
qed (use assms in \<open>auto elim!: reads_cases\<close>)

lemma origins_keeps:
  assumes "db_ok w" and "origins_controller rq r (oc, w) = Some (x, (oc', w'))"
  shows "db_ok w'"
proof -
  have id: "\<exists>os. w = w\<lparr>allowedOrigins := os\<rparr>" by (rule exI [of _ "allowedOrigins w"]) simp
  have c: "constraints_ok w" using assms(1) by (simp add: db_ok_def)
  have "(\<exists>os. w' = w\<lparr>allowedOrigins := os\<rparr>) \<and> constraints_ok w'"
  proof (cases r)
    case (AddOrigin u l)
    with assms(2) obtain y where a: "origins_add (rq_newId rq) (rq_clock rq 1) u l (oc, w) = (y, (oc', w'))"
      by (auto simp: on_origins_def split: prod.splits)
    then show ?thesis
      using id origins_add_ok [OF c a]
      by (auto simp: origins_add_def origin_create_def split: if_splits)
  next
    case (RemoveOrigin k)
    with assms(2) obtain y where a: "origins_remove k (oc, w) = (y, (oc', w'))"
      by (auto simp: on_origins_def split: prod.splits)
    then show ?thesis
      using id origins_remove_ok [OF c a]
      by (auto simp: origins_remove_def origin_delete_def split: option.splits)
  qed (use assms(2) id c in \<open>auto elim!: reads_cases\<close>)
  then show ?thesis using assms(1) by (auto simp: db_ok_def)
qed

lemma dispatch_keeps:
  assumes "db_ok w" and "valid_body ck req" and "dispatch env rq me req (oc, w) = Some (x, (oc', w'))"
  shows "db_ok w'"
proof (cases req)
  case (SettingsR r)
  have v: "valid_settings_dto dto" if "r = UpdateSettings dto" for dto
    using assms(2) that by (simp add: SettingsR valid_update_settings_def)
  have d: "settings_controller me r (oc, w) = Some (x, (oc', w'))"
    using assms(3) by (simp only: SettingsR dispatch.simps)
  from settings_keeps [OF assms(1) v d] show ?thesis .
next
  case HealthR
  with assms(1,3) show ?thesis by (auto simp: getHealth_def elim!: reads_cases)
qed (use assms in \<open>auto dest: auth_keeps coaches_keeps event_types_keeps availability_keeps slots_keeps
      bookings_keeps google_keeps origins_keeps\<close>)

lemma api_keeps:
  assumes "db_ok w" and "api env rq req (oc, w) = Some (x, (oc', w'))"
  shows "db_ok w'"
  using assms(2)
proof (cases rule: api_cases)
  case (handled me)
  then show ?thesis using dispatch_keeps [OF assms(1)] by blast
qed (use assms(1) in simp_all)

section \<open>The other transitions\<close>

lemma process_db_ok:
  assumes "db_ok w" and "process cfg a j w = (x, w')"
  shows "db_ok w'"
proof (rule db_ok_visit [OF assms(1)])
  show "visit w w'" by (rule visiting.inv_process [OF visit_refl assms(2)])
  show "constraints_ok w'" using schema.inv_process assms by (auto simp: db_ok_def)
  have "map (fst \<circ> booking_key) (bookings w') = map (fst \<circ> booking_key) (bookings w)"
    using arg_cong [OF process_keys [OF assms(2)], of "map fst"] by simp
  moreover have "fst \<circ> booking_key = b_id" by (auto simp: booking_key_def)
  ultimately show "bookings_safe w'"
    using no_double_keys [OF process_keys [OF assms(2)]] assms(1) by (simp add: db_ok_def bookings_safe_def)
qed

lemma seed_db_ok:
  assumes "db_ok w" and "seedAdmin env i salt email name password w = (x, w')"
  shows "db_ok w'"
proof (cases "w' = w")
  case False
  let ?c = "\<lparr> c_id = i, c_email = email, c_passwordHash = hashPassword env password salt, c_name = name,
     c_preferredLocale = ''hu'', c_role = ADMIN, c_sessionsRevokedAt = None, c_frontendUrl = None \<rparr>"
  from False assms(2) obtain y where n: "\<forall>c \<in> set (coaches w). c_role c \<noteq> ADMIN"
    and c: "coach_create ?c w = (y, w')"
    by (auto simp: seedAdmin_def elim!: andThen_cases split: if_splits)
  from False c have w': "w' = w\<lparr>coaches := coaches w @ [?c]\<rparr>"
    by (auto simp: coach_create_def createRow_def split: if_splits)
  have "admins w' = 1"
    using n by (simp add: w' admins_def identities_def filter_map o_def)
  moreover have "constraints_ok w'" using c assms(1) coach_create_ok by (auto simp: db_ok_def)
  ultimately show ?thesis using assms(1) by (simp add: db_ok_def w')
qed (use assms(1) in simp)

lemma running_db_ok: "running env st \<Longrightarrow> db_ok (snd st)"
proof (induction rule: running.induct)
  case (request st rq req y st')
  then show ?case using api_keeps [of "snd st" env rq req "fst st" y "fst st'" "snd st'"] by simp
qed (auto simp: db_ok_empty intro: seed_db_ok process_db_ok)

end
