(* ===== verification/Tenancy.thy ===== *)
theory Tenancy
  imports ApiDemo
begin

text \<open>
  What a coach who is no administrator can reach with her session: her own rows.  Each
  handler leaves what belongs to the other coaches as it was, and its answer names no other
  coach; the laws of the guarded operations (\<open>guarded_op\<close>, \<open>guarded_write\<close>) carry the
  updates and deletions.
\<close>

section \<open>What belongs to the others\<close>

definition others_part :: "string \<Rightarrow> world \<Rightarrow> world" where
  "others_part k w = (without_coach k w)\<lparr>coaches := rowtab.foreign c_id k (coaches w)\<rparr>"

text \<open>The coaches whose data an answer carries.\<close>

fun owners :: "reply \<Rightarrow> string set" where
  "owners (SessionOf _ c) = {c_id c}"
| "owners (ACoach c) = {c_id c}"
| "owners (SomeCoaches cs) = c_id ` set cs"
| "owners (AnEventType e) = {et_coachId e}"
| "owners (SomeEventTypes es) = et_coachId ` set es"
| "owners (AWeekly r) = {w_coachId r}"
| "owners (SomeWeekly rs) = w_coachId ` set rs"
| "owners (AnOverride r) = {o_coachId r}"
| "owners (SomeOverrides rs) = o_coachId ` set rs"
| "owners (SomeSlots ss) = sl_coachId ` set ss"
| "owners (ABooking b) = {b_coachId b}"
| "owners (SomeBookings bs) = b_coachId ` set bs"
| "owners (TheSettings s) = {s_coachId s}"
| "owners _ = {}"

definition own_effect :: "string \<Rightarrow> origins_state \<Rightarrow> answer \<Rightarrow> bool" where
  "own_effect k st r \<longleftrightarrow>
    (case r of None \<Rightarrow> True
     | Some (x, st') \<Rightarrow> fst st' = fst st \<and> others_part k (snd st') = others_part k (snd st) \<and>
         (\<forall>a. x = Inr a \<longrightarrow> owners a \<subseteq> {k}))"

lemma own_reads:
  assumes "\<And>a. f (snd st) = Inr a \<Longrightarrow> owners a \<subseteq> {k}"
  shows "own_effect k st (reads f st)"
  using assms by (simp add: own_effect_def reads_def)

lemma own_on_world:
  assumes "\<And>x w'. op (snd st) = (x, w') \<Longrightarrow> others_part k w' = others_part k (snd st) \<and>
      (\<forall>a. x = Inr a \<longrightarrow> owners (f a) \<subseteq> {k})"
  shows "own_effect k st (on_world f op st)"
proof (cases "op (snd st)")
  case (Pair x w')
  then show ?thesis
    using assms by (cases st; cases x) (simp_all add: own_effect_def on_world_def)
qed

lemma without_coach_others:
  "without_coach k w' = without_coach k w \<Longrightarrow> others_part k w' = others_part k w"
proof -
  assume e: "without_coach k w' = without_coach k w"
  have "coaches w' = coaches w"
    using arg_cong [OF e, of coaches] by (simp add: without_coach_def)
  with e show ?thesis by (simp add: others_part_def)
qed

lemma others_part_create [simp]:
  "et_coachId e = k \<Longrightarrow> others_part k (w\<lparr>eventTypes := createRow e (eventTypes w)\<rparr>) = others_part k w"
  "w_coachId r = k \<Longrightarrow> others_part k (w\<lparr>weeklies := createRow r (weeklies w)\<rparr>) = others_part k w"
  "o_coachId q = k \<Longrightarrow> others_part k (w\<lparr>overrides := createRow q (overrides w)\<rparr>) = others_part k w"
  "s_coachId s = k \<Longrightarrow> others_part k (w\<lparr>settingsRows := createRow s (settingsRows w)\<rparr>) = others_part k w"
  by (simp_all add: others_part_def without_coach_def rowtab.foreign_ins)

text \<open>An update by the key of a table whose owner is the key itself.\<close>

lemma foreign_own_key:
  assumes "\<And>r. owner (f r) = owner r"
  shows "rowtab.foreign owner k (updateRow owner k f t) = rowtab.foreign owner k t"
  unfolding rowtab.foreign_def updateRow_def
  by (induction t) (auto simp: assms)

lemma foreign_map:
  assumes "\<And>r. r \<in> set t \<Longrightarrow> owner (f r) = owner r" and "\<And>r. r \<in> set t \<Longrightarrow> owner r \<noteq> k \<Longrightarrow> f r = r"
  shows "rowtab.foreign owner k (map f t) = rowtab.foreign owner k t"
  using assms unfolding rowtab.foreign_def by (induction t) auto

section \<open>The operations without a guard of their own\<close>

lemma own_coach_update:
  assumes "\<And>c. c_id (f c) = c_id c" and "coach_update k f w = (x, w')"
  shows "others_part k w' = others_part k w \<and> (\<forall>a. x = Inr a \<longrightarrow> c_id a = k)"
proof -
  have "others_part k (w\<lparr>coaches := updateRow c_id k f (coaches w)\<rparr>) = others_part k w"
    by (simp add: others_part_def without_coach_def foreign_own_key [of c_id, OF assms(1)])
  then show ?thesis
    using assms by (auto simp: coach_update_def dest: findUnique_key split: option.splits if_splits)
qed

lemma own_updateCoach:
  assumes "updateCoach k dto w = (x, w')"
  shows "others_part k w' = others_part k w \<and> (\<forall>a. x = Inr a \<longrightarrow> c_id a = k)"
proof (cases "uc_name dto = Null \<or> uc_preferredLocale dto = Null")
  case True
  with assms show ?thesis by (auto simp: updateCoach_def)
next
  case False
  show ?thesis
    using assms unfolding updateCoach_def if_not_P [OF False] by (rule own_coach_update [rotated]) simp
qed

lemma own_changePassword:
  assumes "changePassword env salt c old new w = (x, w')"
  shows "others_part (c_id c) w' = others_part (c_id c) w"
proof (cases "comparePassword env old (c_passwordHash c)")
  case False
  with assms show ?thesis by (simp add: changePassword_def)
next
  case True
  then obtain y where "coach_update (c_id c) (\<lambda>c. c\<lparr>c_passwordHash := hashPassword env new salt\<rparr>) w = (y, w')"
    using assms by (auto simp: changePassword_def elim!: andThen_cases)
  then have "others_part (c_id c) w' = others_part (c_id c) w \<and> (\<forall>a. y = Inr a \<longrightarrow> c_id a = c_id c)"
    by (rule own_coach_update [rotated]) simp
  then show ?thesis ..
qed

lemma own_settings_get:
  assumes "settings_get k w = (x, w')"
  shows "others_part k w' = others_part k w"
  using assms by (auto simp: settings_get_def default_settings_def split: option.splits)

lemma own_settings_update:
  assumes "settings_update k dto w = (x, w')"
  shows "others_part k w' = others_part k w \<and> (\<forall>a. x = Inr a \<longrightarrow> s_coachId a = k)"
proof -
  have "others_part k (w1\<lparr>settingsRows := updateRow s_coachId k (apply_settings_dto dto) (settingsRows w1)\<rparr>) =
      others_part k w1" for w1
    by (simp add: others_part_def without_coach_def foreign_own_key)
  note upd = this
  show ?thesis
    using assms unfolding settings_update_def
  proof (cases rule: andThen_cases)
    case (err e)
    then show ?thesis by (simp add: own_settings_get)
  next
    case (ok s w1)
    from ok(2) own_settings_get [OF ok(1)] show ?thesis
      by (auto simp: upd dest: findUnique_key
          simp del: findUnique_None split: if_splits option.splits)
  qed
qed

lemma own_reorder:
  assumes "constraints_ok w" and "reorder c ids w = (x, w')"
  shows "others_part (c_id c) w' = others_part (c_id c) w"
proof (cases "distinct ids \<and> (\<forall>k \<in> set ids. \<exists>e \<in> set (eventTypes w). et_id e = k \<and> et_coachId e = c_id c)")
  case False
  with assms(2) show ?thesis unfolding reorder_eq [OF assms(1)] by (simp only: if_False prod.inject)
next
  case True
  have u: "distinct (map et_id (eventTypes w))" using assms(1) by (simp add: constraints_ok_def)
  have "reordered 0 ids e = e" if "e \<in> set (eventTypes w)" "et_coachId e \<noteq> c_id c" for e
  proof -
    have "et_id e \<notin> set ids"
    proof
      assume "et_id e \<in> set ids"
      with True obtain e' where "e' \<in> set (eventTypes w)" "et_id e' = et_id e" "et_coachId e' = c_id c" by blast
      with u that show False by (metis distinct_map inj_onD)
    qed
    then show ?thesis by (simp add: reordered_def)
  qed
  then have "rowtab.foreign et_coachId (c_id c) (map (reordered 0 ids) (eventTypes w)) =
      rowtab.foreign et_coachId (c_id c) (eventTypes w)"
    by (intro foreign_map) (simp_all add: reordered_def)
  moreover have "w' = w\<lparr>eventTypes := map (reordered 0 ids) (eventTypes w)\<rparr>"
    using assms(2) unfolding reorder_eq [OF assms(1)] if_P [OF True] by simp
  ultimately show ?thesis by (simp add: others_part_def without_coach_def)
qed

section \<open>The handlers\<close>

lemma others_own:
  "without_coach k w' = without_coach k w \<and> Q \<Longrightarrow> others_part k w' = others_part k w \<and> Q"
  by (blast intro: without_coach_others)

lemmas own_writes =
  event_type_upd.own_write [THEN others_own] event_type_arch.own_write [THEN others_own]
  weekly_upd.own_write [THEN others_own] override_upd.own_write [THEN others_own]
  booking_cancel.own_write [THEN others_own]

lemmas own_removes =
  event_type_rem.isolation [THEN without_coach_others] weekly_rem.isolation [THEN without_coach_others]
  override_rem.isolation [THEN without_coach_others]

lemma own_creates:
  shows "eventTypes_create i c dto w = (x1, w') \<Longrightarrow> others_part (c_id c) w' = others_part (c_id c) w \<and>
      (\<forall>a. x1 = Inr a \<longrightarrow> et_coachId a = c_id c)"
    and "weeklyAvailability_create i c d s e w = (x2, w') \<Longrightarrow> others_part (c_id c) w' = others_part (c_id c) w \<and>
      (\<forall>a. x2 = Inr a \<longrightarrow> w_coachId a = c_id c)"
    and "availabilityOverride_create i c date od w = (x3, w') \<Longrightarrow> others_part (c_id c) w' = others_part (c_id c) w \<and>
      (\<forall>a. x3 = Inr a \<longrightarrow> o_coachId a = c_id c)"
  by (auto simp: eventTypes_create_def eventType_create_def weeklyAvailability_create_def weekly_create_def
      availabilityOverride_create_def override_create_def Let_def split: if_splits sum.splits option.splits)

lemma scope_own:
  assumes "c_role c \<noteq> ADMIN" and "resolveCoachScope c q = Inr k"
  shows "k = c_id c"
  using assms by (cases "c_role c") (auto dest: resolve_scope_coach)

lemma own_row:
  assumes "\<And>a. owners (f a) = {g a}"
    and "\<And>x w'. op (snd st) = (x, w') \<Longrightarrow> others_part k w' = others_part k (snd st) \<and> (\<forall>a. x = Inr a \<longrightarrow> g a = k)"
  shows "own_effect k st (on_world f op st)"
proof (rule own_on_world)
  fix x w' assume "op (snd st) = (x, w')"
  from assms(2) [OF this] assms(1)
  show "others_part k w' = others_part k (snd st) \<and> (\<forall>a. x = Inr a \<longrightarrow> owners (f a) \<subseteq> {k})" by simp
qed

lemma own_unit:
  assumes "\<And>a. owners (f a) = {}"
    and "\<And>x w'. op (snd st) = (x, w') \<Longrightarrow> others_part k w' = others_part k (snd st)"
  shows "own_effect k st (on_world f op st)"
  using assms by (auto intro: own_on_world)

lemma own_coaches:
  assumes "coaches_access r = Session"
  shows "own_effect (c_id c) st (coaches_controller env rq (Some c) r st)"
proof (cases r)
  case Me
  then show ?thesis by (auto intro: own_reads)
next
  case (UpdateMe dto)
  show ?thesis unfolding UpdateMe coaches_controller.simps option.sel
    by (rule own_row, simp) (rule own_updateCoach)
next
  case (ChangePassword old new)
  show ?thesis unfolding ChangePassword coaches_controller.simps option.sel
    by (rule own_unit, simp) (rule own_changePassword)
qed (use assms in simp_all)

lemma own_event_types:
  assumes "constraints_ok (snd st)" and "c_role c \<noteq> ADMIN" and "access_of (EventTypesR r) = Session"
  shows "own_effect (c_id c) st (event_types_controller env rq (Some c) r st)"
proof (cases r)
  case (MyEventTypes q)
  show ?thesis unfolding MyEventTypes event_types_controller.simps option.sel
    using scope_own [OF assms(2), of q]
    by (intro own_reads; cases "resolveCoachScope c q") (auto simp: findMine_def in_order_def findMany_def)
next
  case (CreateEventType dto)
  show ?thesis unfolding CreateEventType event_types_controller.simps option.sel
    by (rule own_row, simp) (rule own_creates)
next
  case (ReorderEventTypes ids)
  show ?thesis unfolding ReorderEventTypes event_types_controller.simps option.sel
    by (rule own_unit, simp) (rule own_reorder [OF assms(1)])
next
  case (UpdateEventType k dto)
  show ?thesis unfolding UpdateEventType event_types_controller.simps option.sel
    by (rule own_row, simp) (rule own_writes [OF assms(1,2)])
next
  case (ArchiveEventType k)
  show ?thesis unfolding ArchiveEventType event_types_controller.simps option.sel
    by (rule own_row, simp) (rule own_writes [OF assms(1,2)])
next
  case (RemoveEventType k)
  show ?thesis unfolding RemoveEventType event_types_controller.simps option.sel
    by (rule own_unit, simp) (rule own_removes [OF assms(1,2)])
qed (use assms(3) in simp_all)

lemma own_availability:
  assumes "constraints_ok (snd st)" and "c_role c \<noteq> ADMIN"
  shows "own_effect (c_id c) st (availability_controller rq (Some c) r st)"
proof (cases r)
  case (MyWeekly q)
  show ?thesis unfolding MyWeekly availability_controller.simps option.sel
    using scope_own [OF assms(2), of q]
    by (intro own_reads; cases "resolveCoachScope c q") (auto simp: weekly_findForCoach_def findMany_def)
next
  case (MyOverrides q)
  show ?thesis unfolding MyOverrides availability_controller.simps option.sel
    using scope_own [OF assms(2), of q]
    by (intro own_reads; cases "resolveCoachScope c q") (auto simp: override_findForCoach_def findMany_def)
next
  case (CreateWeekly d s e)
  show ?thesis unfolding CreateWeekly availability_controller.simps option.sel
    by (rule own_row, simp) (rule own_creates)
next
  case (CreateOverride date dto)
  show ?thesis unfolding CreateOverride availability_controller.simps option.sel
    by (rule own_row, simp) (rule own_creates)
next
  case (UpdateWeekly k dto)
  show ?thesis unfolding UpdateWeekly availability_controller.simps option.sel
    by (rule own_row, simp) (rule own_writes [OF assms])
next
  case (UpdateOverride k dto)
  show ?thesis unfolding UpdateOverride availability_controller.simps option.sel
    by (rule own_row, simp) (rule own_writes [OF assms])
next
  case (RemoveWeekly k)
  show ?thesis unfolding RemoveWeekly availability_controller.simps option.sel
    by (rule own_unit, simp) (rule own_removes [OF assms])
next
  case (RemoveOverride k)
  show ?thesis unfolding RemoveOverride availability_controller.simps option.sel
    by (rule own_unit, simp) (rule own_removes [OF assms])
qed

lemma findAll_own:
  assumes "c_role c \<noteq> ADMIN" and "c_id c \<noteq> []" and "findAll c q w = Inr bs"
  shows "b_coachId ` set bs \<subseteq> {c_id c}"
proof (cases "resolveCoachScope c q")
  case (Inl e)
  with assms(1,3) show ?thesis by (simp add: findAll_def)
next
  case (Inr k)
  from scope_own [OF assms(1) this] Inr assms show ?thesis
    by (auto simp: findAll_def findMany_def truthy_def)
qed

lemma own_bookings:
  assumes "constraints_ok (snd st)" and "c_role c \<noteq> ADMIN" and "c_id c \<noteq> []" and "bookings_access r = Session"
  shows "own_effect (c_id c) st (bookings_controller env rq (Some c) r st)"
proof (cases r)
  case (ListBookings q)
  show ?thesis unfolding ListBookings bookings_controller.simps option.sel
    using findAll_own [OF assms(2,3), of q "snd st"]
    by (intro own_reads; cases "findAll c q (snd st)") (auto simp: image_subset_iff)
next
  case (CancelByCoach k reason)
  show ?thesis unfolding CancelByCoach bookings_controller.simps option.sel
    by (rule own_row, simp) (rule own_writes [OF assms(1,2)])
qed (use assms(4) in simp_all)

lemma own_settings:
  "own_effect (c_id c) st (settings_controller (Some c) (UpdateSettings dto) st)"
  unfolding settings_controller.simps option.sel by (rule own_row, simp) (rule own_settings_update)

text \<open>A session of a coach who is no administrator, on any route that asks for a session.\<close>

lemma own_dispatch:
  assumes "constraints_ok (snd st)" and "c_role c \<noteq> ADMIN" and "c_id c \<noteq> []" and "access_of req = Session"
  shows "own_effect (c_id c) st (dispatch env rq (Some c) req st)"
proof (cases req)
  case (CoachesR r)
  with assms(4) show ?thesis by (simp add: own_coaches)
next
  case (EventTypesR r)
  with assms show ?thesis by (simp add: own_event_types)
next
  case (AvailabilityR r)
  with assms show ?thesis by (simp add: own_availability)
next
  case (BookingsR r)
  with assms show ?thesis by (simp add: own_bookings)
next
  case (SettingsR r)
  with assms(4) show ?thesis by (cases r) (simp_all add: own_settings del: settings_controller.simps)
next
  case (GoogleR r)
  with assms(4) show ?thesis by (cases r) (auto intro: own_reads)
qed (use assms(4) in simp_all)

lemma authorize_roles:
  "authorize a now roles h w = Inr c \<Longrightarrow> authorize a now None h w = Inr c"
  "authorize a now None h w = Inr c \<Longrightarrow> c_role c \<noteq> ADMIN \<Longrightarrow>
   authorize a now (Some [ADMIN]) h w = Inl (Forbidden (Text ''Insufficient role''))"
  by (auto simp: authorize_def roles_canActivate_def split: sum.splits)

section \<open>Properties\<close>



end
