(* ===== verification/SystemSpecs.thy ===== *)
theory SystemSpecs
  imports System Tenancy SlotSpecs
begin

text \<open>What holds in every state of the running system, and what a visitor can do to it.\<close>

section \<open>A running instance\<close>

definition berta_row :: coach where
  "berta_row = \<lparr> c_id = ''c2'', c_email = ''b@b.hu'', c_passwordHash = ''password'', c_name = ''Berta'',
     c_preferredLocale = ''hu'', c_role = ADMIN, c_sessionsRevokedAt = None, c_frontendUrl = None \<rparr>"

definition seeded_world :: world where "seeded_world = empty_world\<lparr>coaches := [berta_row]\<rparr>"

definition berta_type :: createEventTypeDto where
  "berta_type = \<lparr> ce_title = ''Talk'', ce_description = None, ce_durationMinutes = 60, ce_locations = [PHONE],
     ce_price = None, ce_position = None \<rparr>"

definition berta_event :: eventType where
  "berta_event = \<lparr> et_id = ''id'', et_coachId = ''c2'', et_title = ''Talk'', et_description = None,
     et_durationMinutes = 60, et_locations = [PHONE], et_price = None, et_position = 0, et_isActive = True \<rparr>"

definition open_world :: world where "open_world = seeded_world\<lparr>eventTypes := [berta_event]\<rparr>"

lemma berta_row_sel:
  "c_id berta_row = ''c2''" "c_email berta_row = ''b@b.hu''" "c_role berta_row = ADMIN"
  "c_sessionsRevokedAt berta_row = None" "c_frontendUrl berta_row = None"
  by (simp_all add: berta_row_def)

lemma seeded_sel:
  "coaches seeded_world = [berta_row]" "eventTypes seeded_world = []" "coaches open_world = [berta_row]"
  "eventTypes open_world = [berta_event]" "settingsRows open_world = []" "overrides open_world = []"
  by (simp_all add: seeded_world_def open_world_def empty_world_def)

lemma running_seeded: "running demo_api (empty_cache, seeded_world)"
proof (rule running.seed [OF running.boot])
  show "seedAdmin (av_auth demo_api) ''c2'' [] ''b@b.hu'' ''Berta'' ''password'' empty_world =
      (Inr (), seeded_world)"
    by (simp add: seedAdmin_def empty_world_def seeded_world_def coach_create_def createRow_def berta_row_def
        hashPassword_def demo_auth_def demo_hasher_def js_length_def text_length_def)
qed

lemma berta_row_session:
  "authorize demo_auth 6000 None (bearer (session_token berta_row)) seeded_world = Inr berta_row"
  by (simp add: session_token_def authorize_def guard_login [OF demo_auth_laws(1)] issued_access berta_row_sel
      session_answer_def TOKEN_TTL_def seeded_sel revoked_before_def roles_canActivate_def)

lemma running_open: "running demo_api (empty_cache, open_world)"
proof (rule running.request [OF running_seeded])
  show "api demo_api (demo_exchange (session_token berta_row)) (EventTypesR (CreateEventType berta_type))
      (empty_cache, seeded_world) = Some (Inr (AnEventType berta_event), (empty_cache, open_world))"
    by (simp add: api_def guards_def berta_row_session valid_create_event_type_def berta_type_def on_world_def
        eventTypes_create_def nextPosition_def max_position_def findMany_def eventType_create_def seeded_sel
        coach_exists_def berta_row_sel berta_event_def open_world_def createRow_def)
qed

text \<open>The same coach with colours of her own.\<close>

definition demo_colours :: json where
  "demo_colours = JObj (map (\<lambda>k. (k, JStr ''#0aB9fF'')) PALETTE_KEYS)"

definition demo_palette :: json where
  "demo_palette = JObj [(''light'', demo_colours), (''dark'', demo_colours)]"

definition themed_dto :: updateSettingsDto where
  "themed_dto = \<lparr> us_businessAddress = Undef, us_cancellationNoticeHours = Val 24, us_businessTimezone = Undef,
     us_emailFrom = Undef, us_brandName = Undef, us_brandTagline = Undef, us_emailBrandPalette = demo_palette \<rparr>"

definition themed_settings :: settings where
  "themed_settings = (default_settings ''c2'')\<lparr>s_cancellationNoticeHours := 24, s_emailBrandPalette := Some demo_palette\<rparr>"

definition themed_world :: world where "themed_world = seeded_world\<lparr>settingsRows := [themed_settings]\<rparr>"

lemma demo_palette_valid: "isValidEmailBrandPalette demo_palette" "\<exists>kvs. demo_palette = JObj kvs"
proof -
  have "isValidPalette demo_colours" unfolding demo_colours_def by code_simp
  then show "isValidEmailBrandPalette demo_palette"
    by (simp add: isValidEmailBrandPalette_def demo_palette_def)
qed (simp add: demo_palette_def)

lemma themed_update: "settings_update ''c2'' themed_dto seeded_world = (Inr themed_settings, themed_world)"
proof -
  obtain kvs where p: "demo_palette = JObj kvs" using demo_palette_valid(2) by blast
  have g: "settings_get ''c2'' seeded_world =
      (Inr (default_settings ''c2''), seeded_world\<lparr>settingsRows := [default_settings ''c2'']\<rparr>)"
    by (simp add: settings_get_def seeded_world_def empty_world_def berta_row_sel createRow_def)
  show ?thesis
    using demo_palette_valid(1)
    by (simp add: settings_update_def g themed_dto_def themed_settings_def themed_world_def apply_settings_dto_def
        default_settings_def p updateRow_def)
qed

lemma running_themed: "running demo_api (empty_cache, themed_world)"
proof (rule running.request [OF running_seeded])
  obtain kvs where p: "demo_palette = JObj kvs" using demo_palette_valid(2) by blast
  have v: "valid_update_settings demo_checks themed_dto"
    by (simp add: valid_update_settings_def valid_settings_dto_def themed_dto_def p)
  show "api demo_api (demo_exchange (session_token berta_row)) (SettingsR (UpdateSettings themed_dto))
      (empty_cache, seeded_world) = Some (Inr (TheSettings themed_settings), (empty_cache, themed_world))"
    by (simp add: api_def guards_def berta_row_session v on_world_def themed_update berta_row_sel)
qed

section \<open>Properties\<close>

text \<open>
  C2: in every state the running system can reach, from the empty database through any
  requests, jobs, origin checks, restarts and runs of the seeding script: all constraints of
  the schema hold; every range of a schedule and every override is inside its day and not
  empty; every event type has a title, a place and a duration between five minutes and a day;
  every row of settings has its notice window in bounds and a palette of hex colours; no two
  confirmed bookings of a coach overlap; and there is at most one administrator.
\<close>

theorem system_invariant:
  assumes "running env (oc, w)"
  shows "constraints_ok w \<and>
    (\<forall>r \<in> set (weeklies w). weekly_wf r) \<and> (\<forall>r \<in> set (overrides w). override_wf r) \<and>
    (\<forall>e \<in> set (eventTypes w). event_type_wf e) \<and> (\<forall>s \<in> set (settingsRows w). settings_wf s) \<and>
    no_double_booking (bookings w) \<and> length (filter (\<lambda>c. c_role c = ADMIN) (coaches w)) \<le> 1"
  using running_db_ok [OF assms]
  by (simp add: db_ok_def availability_wf_def event_types_wf_def settings_rows_wf_def bookings_safe_def
      admins_def identities_def filter_map o_def)

lemma system_invariant_witness:
  "running demo_api (empty_cache, open_world) \<and> eventTypes open_world = [berta_event] \<and>
   event_type_wf berta_event \<and> length (filter (\<lambda>c. c_role c = ADMIN) (coaches open_world)) = 1"
  using system_invariant [OF running_open] running_open by (simp add: seeded_sel berta_row_sel)

text \<open>
  C24: whatever colours a coach has stored, the style sheet of her mails has the structure of
  the default one: the same braces, quotes, colons, semicolons, commas, brackets and line
  ends in the same order, so that a palette can change colours and nothing else.
\<close>

theorem palette_cannot_inject:
  assumes "running env (oc, w)" and "s \<in> set (settingsRows w)"
  shows "filter structural (buildFontAndDarkModeCss (brand_palette (s_emailBrandPalette s))) =
    filter structural (buildFontAndDarkModeCss DEFAULT_EMAIL_PALETTE)"
proof (rule css_structure)
  have "settings_wf s"
    using running_db_ok [OF assms(1)] assms(2) by (simp add: db_ok_def settings_rows_wf_def)
  then show "hex_palette (bp_dark (brand_palette (s_emailBrandPalette s)))" by (rule brand_palette_hex)
qed (rule default_palette_hex)

lemma palette_cannot_inject_witness:
  "running demo_api (empty_cache, themed_world) \<and> s_emailBrandPalette themed_settings = Some demo_palette \<and>
   filter structural (buildFontAndDarkModeCss (brand_palette (Some demo_palette))) =
     filter structural (buildFontAndDarkModeCss DEFAULT_EMAIL_PALETTE)"
  using palette_cannot_inject [OF running_themed, of themed_settings] running_themed
  by (simp add: themed_world_def themed_settings_def)

text \<open>What a request of a visitor may change.\<close>

definition visitor_effect :: "apiEnv \<Rightarrow> exchange \<Rightarrow> apiRequest \<Rightarrow> world \<Rightarrow> world \<Rightarrow> bool" where
  "visitor_effect env rq req w w' \<longleftrightarrow>
    (let ts = ae_tokens (av_auth env); t = rq_clock rq in
     eventTypes w' = eventTypes w \<and> weeklies w' = weeklies w \<and> overrides w' = overrides w \<and>
     allowedOrigins w' = allowedOrigins w \<and> settings_grown (settingsRows w) (settingsRows w') \<and>
     (identities (coaches w') = identities (coaches w) \<or>
      (\<exists>i e. identities (coaches w') = identities (coaches w) @ [(i, e, COACH)])) \<and>
     (coaches w' \<noteq> coaches w \<longrightarrow>
       (\<exists>tok p u. req = AuthR (ResetPassword tok p) \<and> verifyPasswordResetToken ts (t 1) tok = Inr u) \<or>
       (\<exists>tok p i. req = CoachesR (AcceptInvite tok p) \<and> verifyCoachInviteToken ts (t 1) tok = Inr i)) \<and>
     (bookings w' \<noteq> bookings w \<longrightarrow> (\<exists>r. req = BookingsR r)) \<and>
     (googleIntegrations w' \<noteq> googleIntegrations w \<longrightarrow>
       (\<exists>code state k. req = GoogleR (Callback code state) \<and> verifyGoogleConnectState ts (t 0) state = Inr (Some k) \<and>
         rowtab.foreign g_coachId k (googleIntegrations w') = rowtab.foreign g_coachId k (googleIntegrations w))))"

lemma visitor_same: "visitor_effect env rq req w w"
  by (simp add: visitor_effect_def Let_def)

lemma visitor_visit:
  assumes "visit w w'" and "bookings w' = bookings w \<or> (\<exists>r. req = BookingsR r)"
  shows "visitor_effect env rq req w w'"
proof -
  have s: "static_part w' = static_part w" and g: "settings_grown (settingsRows w) (settingsRows w')"
    using assms(1) by (simp_all add: visit_def)
  show ?thesis
    using assms(2) g unfolding visitor_effect_def Let_def static_partD [OF s] by blast
qed

lemma visitor_edited:
  assumes "coaches_edited w w'"
    and "coaches w' = coaches w \<or>
      (\<exists>tok p u. req = AuthR (ResetPassword tok p) \<and>
         verifyPasswordResetToken (ae_tokens (av_auth env)) (rq_clock rq 1) tok = Inr u) \<or>
      (\<exists>tok p i. req = CoachesR (AcceptInvite tok p) \<and>
         verifyCoachInviteToken (ae_tokens (av_auth env)) (rq_clock rq 1) tok = Inr i)"
  shows "visitor_effect env rq req w w'"
proof -
  from assms(1) obtain cs xs where "w' = w\<lparr>coaches := cs, externals := xs\<rparr>"
    "identities cs = identities (coaches w) \<or> (\<exists>i e. identities cs = identities (coaches w) @ [(i, e, COACH)])"
    by (auto simp: coaches_edited_def)
  with assms(2) show ?thesis by (auto simp: visitor_effect_def Let_def)
qed

lemma visitor_auth:
  assumes "auth_controller env rq r (oc, w) = Some (x, (oc', w'))"
  shows "oc' = oc \<and> visitor_effect env rq (AuthR r) w w'"
proof -
  note f = auth_frame [OF assms]
  have "coaches w' = coaches w \<or> (\<exists>tok p u. AuthR r = AuthR (ResetPassword tok p) \<and>
      verifyPasswordResetToken (ae_tokens (av_auth env)) (rq_clock rq 1) tok = Inr u)"
  proof (cases r)
    case (Login email password)
    with assms show ?thesis
      by (auto elim!: on_world_cases simp: login_def split: option.splits if_splits)
  next
    case (ForgotPassword email)
    with assms show ?thesis
      by (auto elim!: on_world_cases simp: auth_forgotPassword_def forgotPassword_def sendReset_eq Let_def sent_def
          split: option.splits if_splits)
  next
    case (ResetPassword token p)
    with assms show ?thesis
      by (cases "verifyPasswordResetToken (ae_tokens (av_auth env)) (rq_clock rq 1) token")
        (auto elim!: on_world_cases simp: resetPassword_def reset_check_def)
  qed
  with f show ?thesis by (blast intro: visitor_edited)
qed

lemma visitor_accept:
  assumes "coaches_controller env rq me (AcceptInvite tok p) (oc, w) = Some (x, (oc', w'))"
  shows "oc' = oc \<and> visitor_effect env rq (CoachesR (AcceptInvite tok p)) w w'"
proof -
  have "coaches w' = coaches w \<or> (\<exists>i. verifyCoachInviteToken (ae_tokens (av_auth env)) (rq_clock rq 1) tok = Inr i)"
    using assms by (cases "verifyCoachInviteToken (ae_tokens (av_auth env)) (rq_clock rq 1) tok")
      (auto elim!: on_world_cases simp: acceptInvite_def)
  with coaches_frame [OF assms] show ?thesis by (blast intro: visitor_edited)
qed

lemma visitor_callback:
  assumes "google_callback env rq code state w = (x, w')"
  shows "visitor_effect env rq (GoogleR (Callback code state)) w w'"
proof -
  obtain gs where w': "w' = w\<lparr>googleIntegrations := gs\<rparr>" using google_frame [OF assms] ..
  have "gs = googleIntegrations w \<or> (\<exists>k. verifyGoogleConnectState (ae_tokens (av_auth env)) (rq_clock rq 0) state =
      Inr (Some k) \<and> rowtab.foreign g_coachId k gs = rowtab.foreign g_coachId k (googleIntegrations w))"
  proof (cases "\<exists>k. verifyGoogleConnectState (ae_tokens (av_auth env)) (rq_clock rq 0) state = Inr (Some k)")
    case True
    then obtain k where k: "verifyGoogleConnectState (ae_tokens (av_auth env)) (rq_clock rq 0) state = Inr (Some k)" ..
    with assms have "handleCallback (av_config env) (rq_iv rq) (rq_clock rq 1) (rq_tokens rq) (rq_userInfo rq) code k w =
        (x, w')" by (simp add: google_callback_def)
    then have "rowtab.foreign g_coachId k (googleIntegrations w') = rowtab.foreign g_coachId k (googleIntegrations w)"
      by (rule handleCallback_cases)
        (auto simp: google_upsert_def foreign_own_key rowtab.foreign_ins split: if_splits)
    with k show ?thesis by (simp add: w')
  next
    case False
    with assms have "w' = w" by (auto simp: google_callback_def split: sum.splits option.splits)
    then have "googleIntegrations w' = googleIntegrations w" by simp
    then show ?thesis by (simp add: w')
  qed
  then show ?thesis by (auto simp: visitor_effect_def Let_def w')
qed

lemma visitor_dispatch:
  assumes "access_of req = Public" and "dispatch env rq me req (oc, w) = Some (x, (oc', w'))"
  shows "oc' = oc \<and> visitor_effect env rq req w w'"
proof (cases req)
  case (AuthR r)
  with assms(2) show ?thesis by (simp add: visitor_auth)
next
  case (CoachesR r)
  with assms show ?thesis by (cases r) (auto dest: visitor_accept simp del: coaches_controller.simps)
next
  case (EventTypesR r)
  with assms show ?thesis by (cases r) (auto elim!: reads_cases simp: visitor_same)
next
  case (SlotsR q)
  with assms(2) have s: "slots_controller env rq q (oc, w) = Some (x, (oc', w'))" by simp
  then obtain y where "computeSlots (av_luxon env) (rq_clock rq 1) q w = Some (y, w')"
    by (auto simp: slots_controller_def split: option.splits)
  then have "bookings w' = bookings w"
    by (rule computeSlots_cases) (auto simp: settings_get_def split: option.splits)
  with slots_frame [OF s] show ?thesis by (blast intro: visitor_visit)
next
  case (BookingsR r)
  with assms(2) have "bookings_controller env rq me r (oc, w) = Some (x, (oc', w'))" by simp
  from bookings_frame [OF this] show ?thesis unfolding BookingsR by (blast intro: visitor_visit)
next
  case (SettingsR r)
  with assms obtain k y where "settings_get k w = (y, w')" "oc' = oc"
    by (cases r) (auto elim!: on_world_cases)
  then have "visit w w'" "bookings w' = bookings w"
    by (auto intro: visit_settings_get [OF visit_refl]) (auto simp: settings_get_def split: option.splits)
  with \<open>oc' = oc\<close> show ?thesis by (blast intro: visitor_visit)
next
  case (GoogleR r)
  with assms show ?thesis
    by (cases r) (auto elim!: on_world_cases reads_cases simp: visitor_same visitor_callback)
next
  case HealthR
  with assms(2) show ?thesis by (auto simp: getHealth_def visitor_same elim!: reads_cases)
qed (use assms(1) in simp_all)

text \<open>
  C4: a request without a session, on any route and with any headers, leaves the catalogues,
  the schedules and the allowed origins of every coach as they were, and changes no row of
  settings; it creates no administrator and gives no coach another identity; a row of a coach
  changes only by a reset or an accepted invitation whose token verifies, and a Google
  account only by a callback whose state verifies, and then that coach's alone; bookings
  change only through the routes of the bookings.  A route that asks for a session is
  refused and changes nothing at all.
\<close>

theorem visitor_confined:
  assumes "authorize (av_auth env) (rq_clock rq 0) None (rq_authorization rq) w = Inl e"
    and "api env rq req (oc, w) = Some (x, (oc', w'))"
  shows "oc' = oc \<and> visitor_effect env rq req w w' \<and> (access_of req \<noteq> Public \<longrightarrow> x = Inl e \<and> w' = w)"
proof (cases "access_of req = Public")
  case True
  from assms(2) show ?thesis
  proof (cases rule: api_cases)
    case (handled me)
    then show ?thesis using visitor_dispatch [OF True] True by blast
  qed (simp_all add: visitor_same True)
next
  case False
  have "canActivate (av_auth env) (rq_clock rq 0) (rq_authorization rq) w = Inl e"
    using assms(1) by (simp add: authorize_def roles_canActivate_def split: sum.splits)
  then have "guards env rq (access_of req) w = Inl e"
    using False by (cases "access_of req") (simp_all add: guards_def authorize_def)
  with assms(2) show ?thesis by (auto simp: api_def visitor_same)
qed

text \<open>A visitor who makes the first query of a coach's settings.\<close>

lemma visitor_confined_witness:
  "authorize demo_auth 6000 None (bearer []) open_world = Inl (Unauthorized (Text ''Missing bearer token'')) \<and>
   (\<exists>s w'. api demo_api (demo_exchange []) (SettingsR (GetSettings ''c2'')) (empty_cache, open_world) =
      Some (Inr (TheSettings s), (empty_cache, w')) \<and> w' \<noteq> open_world \<and>
      visitor_effect demo_api (demo_exchange []) (SettingsR (GetSettings ''c2'')) open_world w')"
proof -
  have a: "authorize demo_auth 6000 None (bearer []) open_world =
      Inl (Unauthorized (Text ''Missing bearer token''))"
    by (simp add: authorize_def canActivate_def bearer_def extractToken_def truthy_def)
  have r: "api demo_api (demo_exchange []) (SettingsR (GetSettings ''c2'')) (empty_cache, open_world) =
      Some (Inr (TheSettings (default_settings ''c2'')),
        (empty_cache, open_world\<lparr>settingsRows := [default_settings ''c2'']\<rparr>))"
    by (simp add: api_def guards_def on_world_def settings_get_def seeded_sel berta_row_sel createRow_def)
  have n: "open_world\<lparr>settingsRows := [default_settings ''c2'']\<rparr> \<noteq> open_world"
  proof
    assume "open_world\<lparr>settingsRows := [default_settings ''c2'']\<rparr> = open_world"
    from arg_cong [OF this, of settingsRows] show False by (simp add: seeded_sel)
  qed
  have g: "authorize (av_auth demo_api) (rq_clock (demo_exchange []) 0) None (rq_authorization (demo_exchange []))
      open_world = Inl (Unauthorized (Text ''Missing bearer token''))" by (simp add: a)
  show ?thesis
    by (intro conjI a exI [of _ "default_settings ''c2''"] exI [of _ "open_world\<lparr>settingsRows := [default_settings ''c2'']\<rparr>"]
        r n) (use visitor_confined [OF g r] in blast)
qed

text \<open>The zone of a coach: the stored one, or the default before her first settings.\<close>

definition zone_of :: "string \<Rightarrow> world \<Rightarrow> string" where
  "zone_of k w = s_businessTimezone
     (case findUnique s_coachId k (settingsRows w) of None \<Rightarrow> default_settings k | Some s \<Rightarrow> s)"

lemma settings_get_zone: "settings_get k w = (Inr s, w') \<Longrightarrow> s_businessTimezone s = zone_of k w"
  by (auto simp: settings_get_def zone_of_def simp del: findUnique_None split: option.splits)



end
