(* ===== verification/Config.thy ===== *)
theory Config
  imports Api
begin

text \<open>
  The configuration read at the start (env.validation.ts, configuration.ts) and the connection
  strings of the database client, the queue and the migrations.  The environment maps names
  to texts; the validation and the configuration read the same environment each for itself.
  The texts of the validation library's messages are not modelled.
\<close>

section \<open>Numbers in texts\<close>

definition js_space :: "char \<Rightarrow> bool" where
  "js_space c \<longleftrightarrow> c \<in> set '' '' \<or> c \<in> {CHR 0x09, CHR 0x0A, CHR 0x0B, CHR 0x0C, CHR 0x0D}"

definition js_trim :: "string \<Rightarrow> string" where
  "js_trim s = rev (dropWhile js_space (rev (dropWhile js_space s)))"

definition digit_of :: "char \<Rightarrow> nat" where
  "digit_of c = (let n = of_char c in
     if 48 \<le> n \<and> n \<le> 57 then n - 48 else if 97 \<le> n \<and> n \<le> 102 then n - 87
     else if 65 \<le> n \<and> n \<le> 70 then n - 55 else 99)"

definition digits_value :: "nat \<Rightarrow> string \<Rightarrow> nat" where
  "digits_value base s = foldl (\<lambda>a c. a * base + digit_of c) 0 s"

definition all_digits :: "nat \<Rightarrow> string \<Rightarrow> bool" where
  "all_digits base s \<longleftrightarrow> list_all (\<lambda>c. digit_of c < base) s"

definition read_digits :: "nat \<Rightarrow> string \<Rightarrow> rat option" where
  "read_digits base s = (if s = [] \<or> \<not> all_digits base s then None else Some (of_nat (digits_value base s)))"

fun read_signed :: "(string \<Rightarrow> rat option) \<Rightarrow> string \<Rightarrow> rat option" where
  "read_signed rd [] = rd []"
| "read_signed rd (c # s) =
    (if c = CHR ''-'' then map_option uminus (rd s) else if c = CHR ''+'' then rd s else rd (c # s))"

text \<open>The part before the first character of a set, and the part after it, if there is one.\<close>

definition cut :: "char set \<Rightarrow> string \<Rightarrow> string \<times> string option" where
  "cut cs s = (case dropWhile (\<lambda>c. c \<notin> cs) s of [] \<Rightarrow> (s, None) | _ # t \<Rightarrow> (takeWhile (\<lambda>c. c \<notin> cs) s, Some t))"

definition read_mantissa :: "string \<Rightarrow> rat option" where
  "read_mantissa s =
    (case cut {CHR ''.''} s of
       (i, None) \<Rightarrow> read_digits 10 i
     | (i, Some f) \<Rightarrow>
         if i @ f = [] \<or> \<not> all_digits 10 (i @ f) then None
         else Some (of_nat (digits_value 10 (i @ f)) / 10 ^ length f))"

definition ten_to :: "rat \<Rightarrow> rat" where
  "ten_to e = (if 0 \<le> e then 10 ^ nat (floor e) else 1 / 10 ^ nat (floor (- e)))"

definition read_decimal :: "string \<Rightarrow> rat option" where
  "read_decimal s =
    (case cut {CHR ''e'', CHR ''E''} s of
       (m, None) \<Rightarrow> read_mantissa m
     | (m, Some e) \<Rightarrow>
         (case (read_mantissa m, read_signed (read_digits 10) e) of
            (Some x, Some y) \<Rightarrow> Some (x * ten_to y) | _ \<Rightarrow> None))"

text \<open>
  \<open>Number\<close> of a text, by its exact value (a literal of more than fifteen digits would be
  rounded); \<open>None\<close> stands for NaN and for the infinities.
\<close>

definition js_Number :: "string \<Rightarrow> rat option" where
  "js_Number text =
    (let s = js_trim text; radix = take 2 s in
     if s = [] then Some 0
     else if radix \<in> {''0x'', ''0X''} then read_digits 16 (drop 2 s)
     else if radix \<in> {''0o'', ''0O''} then read_digits 8 (drop 2 s)
     else if radix \<in> {''0b'', ''0B''} then read_digits 2 (drop 2 s)
     else read_signed read_decimal s)"

text \<open>\<open>parseInt(text, 10)\<close> takes the longest run of digits at the front; \<open>None\<close> is NaN.\<close>

definition js_parseInt10 :: "string \<Rightarrow> rat option" where
  "js_parseInt10 text = read_signed (\<lambda>s. read_digits 10 (takeWhile (\<lambda>c. digit_of c < 10) s)) (dropWhile js_space text)"

text \<open>Evaluation of literals.\<close>

lemmas number_defs = js_Number_def js_parseInt10_def js_trim_def js_space_def read_decimal_def
  read_mantissa_def cut_def read_digits_def all_digits_def digits_value_def digit_of_def ten_to_def Let_def

lemma number_examples:
  "js_Number ''8080'' = Some 8080" "js_Number ''1e3'' = Some 1000" "js_Number '' 0x1F '' = Some 31"
  "js_Number ''-.5'' = Some (- 1 / 2)" "js_Number [] = Some 0" "js_Number ''80a'' = None"
  "js_parseInt10 ''8080'' = Some 8080" "js_parseInt10 ''1e3'' = Some 1" "js_parseInt10 ''a'' = None"
  by (simp_all add: number_defs)

section \<open>The validation of the environment\<close>

type_synonym environment = "string \<Rightarrow> string option"

record environmentVariables =
  ev_DATABASE_URL :: "string option"
  ev_DATABASE_POOLER_URL :: "string option"
  ev_DATABASE_DIRECT_URL :: "string option"
  ev_PORT :: "rat option"
  ev_BUSINESS_TIMEZONE :: "string option"
  ev_JWT_SECRET :: "string option"
  ev_GMAIL_USER :: "string option"
  ev_GMAIL_APP_PASSWORD :: "string option"
  ev_EMAIL_FROM :: "string option"
  ev_RESEND_API_KEY :: "string option"
  ev_GOOGLE_CLIENT_ID :: "string option"
  ev_GOOGLE_CLIENT_SECRET :: "string option"
  ev_GOOGLE_OAUTH_REDIRECT_URI :: "string option"
  ev_ENCRYPTION_KEY :: "string option"
  ev_NODE_ENV :: string

definition plainToInstance :: "environment \<Rightarrow> environmentVariables" where
  "plainToInstance env =
    \<lparr> ev_DATABASE_URL = env ''DATABASE_URL'', ev_DATABASE_POOLER_URL = env ''DATABASE_POOLER_URL'',
      ev_DATABASE_DIRECT_URL = env ''DATABASE_DIRECT_URL'',
      ev_PORT = Option.bind (env ''PORT'') js_Number, ev_BUSINESS_TIMEZONE = env ''BUSINESS_TIMEZONE'',
      ev_JWT_SECRET = env ''JWT_SECRET'', ev_GMAIL_USER = env ''GMAIL_USER'',
      ev_GMAIL_APP_PASSWORD = env ''GMAIL_APP_PASSWORD'', ev_EMAIL_FROM = env ''EMAIL_FROM'',
      ev_RESEND_API_KEY = env ''RESEND_API_KEY'', ev_GOOGLE_CLIENT_ID = env ''GOOGLE_CLIENT_ID'',
      ev_GOOGLE_CLIENT_SECRET = env ''GOOGLE_CLIENT_SECRET'',
      ev_GOOGLE_OAUTH_REDIRECT_URI = env ''GOOGLE_OAUTH_REDIRECT_URI'',
      ev_ENCRYPTION_KEY = env ''ENCRYPTION_KEY'',
      ev_NODE_ENV = (case env ''NODE_ENV'' of None \<Rightarrow> ''development'' | Some e \<Rightarrow> e) \<rparr>"

definition present :: "(string \<Rightarrow> bool) \<Rightarrow> string option \<Rightarrow> bool" where
  "present p v = (case v of None \<Rightarrow> False | Some s \<Rightarrow> p s)"

definition is_port :: "rat option \<Rightarrow> bool" where
  "is_port v = (case v of None \<Rightarrow> False | Some r \<Rightarrow> of_int (floor r) = r \<and> 1 \<le> r \<and> r \<le> 65535)"

text \<open>The decorators of the class: no violation is found.\<close>

definition validateSync :: "checks \<Rightarrow> environmentVariables \<Rightarrow> bool" where
  "validateSync ck v \<longleftrightarrow>
     is_port (ev_PORT v) \<and> present (\<lambda>_. True) (ev_BUSINESS_TIMEZONE v) \<and>
     present (\<lambda>s. 32 \<le> text_length s) (ev_JWT_SECRET v) \<and> present (ck_email ck) (ev_GMAIL_USER v) \<and>
     present (\<lambda>s. 16 \<le> text_length s) (ev_GMAIL_APP_PASSWORD v) \<and> present (\<lambda>_. True) (ev_EMAIL_FROM v) \<and>
     present (\<lambda>_. True) (ev_GOOGLE_CLIENT_ID v) \<and> present (\<lambda>_. True) (ev_GOOGLE_CLIENT_SECRET v) \<and>
     present (ck_url ck) (ev_GOOGLE_OAUTH_REDIRECT_URI v) \<and> present (\<lambda>_. True) (ev_ENCRYPTION_KEY v) \<and>
     ev_NODE_ENV v \<in> {''development'', ''production'', ''test''}"

datatype bootError = Violations | NoPoolerUrl | NoDirectUrl | KeyBytes nat

definition validateEnv :: "checks \<Rightarrow> environment \<Rightarrow> bootError + environmentVariables" where
  "validateEnv ck env =
    (let validated = plainToInstance env in
     if \<not> validateSync ck validated then Inl Violations
     else if \<not> truthy (ev_DATABASE_POOLER_URL validated) \<and> \<not> truthy (ev_DATABASE_URL validated)
     then Inl NoPoolerUrl
     else if \<not> truthy (ev_DATABASE_DIRECT_URL validated) \<and> \<not> truthy (ev_DATABASE_URL validated)
     then Inl NoDirectUrl
     else (let keyBytes = length (from_base64 (case ev_ENCRYPTION_KEY validated of None \<Rightarrow> [] | Some k \<Rightarrow> k)) in
       if keyBytes \<noteq> 32 then Inl (KeyBytes keyBytes) else Inr validated))"

section \<open>The configuration\<close>

record appConfig =
  ac_port :: "rat option"
  ac_businessTimezone :: string
  ac_jwtSecret :: string
  ac_emailFrom :: string
  ac_gmail_user :: string
  ac_gmail_appPassword :: string
  ac_resendApiKey :: "string option"
  ac_google_clientId :: string
  ac_google_clientSecret :: string
  ac_google_redirectUri :: string
  ac_encryptionKey :: string

definition env_or :: "environment \<Rightarrow> string \<Rightarrow> string \<Rightarrow> string" where
  "env_or env name d = (case env name of None \<Rightarrow> d | Some v \<Rightarrow> v)"

definition configuration :: "environment \<Rightarrow> appConfig" where
  "configuration env =
    \<lparr> ac_port = js_parseInt10 (env_or env ''PORT'' ''3000''),
      ac_businessTimezone = env_or env ''BUSINESS_TIMEZONE'' ''Europe/Budapest'',
      ac_jwtSecret = env_or env ''JWT_SECRET'' [], ac_emailFrom = env_or env ''EMAIL_FROM'' [],
      ac_gmail_user = env_or env ''GMAIL_USER'' [],
      ac_gmail_appPassword = env_or env ''GMAIL_APP_PASSWORD'' [],
      ac_resendApiKey = env ''RESEND_API_KEY'',
      ac_google_clientId = env_or env ''GOOGLE_CLIENT_ID'' [],
      ac_google_clientSecret = env_or env ''GOOGLE_CLIENT_SECRET'' [],
      ac_google_redirectUri = env_or env ''GOOGLE_OAUTH_REDIRECT_URI'' [],
      ac_encryptionKey = env_or env ''ENCRYPTION_KEY'' [] \<rparr>"

text \<open>The connection strings: of the database client, of the queue, and of the migrations.\<close>

definition prisma_connectionString :: "environment \<Rightarrow> string option" where
  "prisma_connectionString env = (case env ''DATABASE_POOLER_URL'' of None \<Rightarrow> env ''DATABASE_URL'' | v \<Rightarrow> v)"

definition boss_connectionString :: "environment \<Rightarrow> string option" where
  "boss_connectionString env = (case env ''DATABASE_POOLER_URL'' of None \<Rightarrow> env ''DATABASE_URL'' | v \<Rightarrow> v)"

definition migration_url :: "environment \<Rightarrow> string option" where
  "migration_url env = (case env ''DATABASE_DIRECT_URL'' of None \<Rightarrow> env ''DATABASE_URL'' | v \<Rightarrow> v)"

end
