(* ===== verification/ConfigSpecs.thy ===== *)
theory ConfigSpecs
  imports Config ApiDemo
begin

text \<open>What the check at the start guarantees to the running program, and what it leaves open.\<close>

section \<open>An environment\<close>

definition demo_env :: "(string \<times> string) list" where
  "demo_env = [(''PORT'', ''8080''), (''BUSINESS_TIMEZONE'', ''Europe/Budapest''),
     (''JWT_SECRET'', replicate 32 CHR ''s''), (''GMAIL_USER'', ''a@b.hu''),
     (''GMAIL_APP_PASSWORD'', replicate 16 CHR ''p''), (''EMAIL_FROM'', ''a@b.hu''),
     (''GOOGLE_CLIENT_ID'', ''id''), (''GOOGLE_CLIENT_SECRET'', ''secret''),
     (''GOOGLE_OAUTH_REDIRECT_URI'', ''https://api.hu''),
     (''ENCRYPTION_KEY'', cf_encryptionKey demo_cfg), (''DATABASE_URL'', ''postgresql://local'')]"

text \<open>The same environment with one more variable, or one replaced.\<close>

lemma replicate_text: "text_length (replicate n CHR ''s'') = n" "text_length (replicate n CHR ''p'') = n"
  by (simp_all add: text_length_def)

lemmas demo_env_eval = validateEnv_def plainToInstance_def validateSync_def present_def is_port_def demo_env_def
  replicate_text demo_checks_def number_examples truthy_def demo_key Let_def

lemma demo_env_ok:
  "validateEnv demo_checks (map_of demo_env) = Inr (plainToInstance (map_of demo_env))"
  "validateEnv demo_checks (map_of ((''PORT'', ''1e3'') # demo_env)) =
     Inr (plainToInstance (map_of ((''PORT'', ''1e3'') # demo_env)))"
  "validateEnv demo_checks (map_of ((''DATABASE_POOLER_URL'', []) # demo_env)) =
     Inr (plainToInstance (map_of ((''DATABASE_POOLER_URL'', []) # demo_env)))"
  by (simp_all add: demo_env_eval)

lemma demo_env_key: "ac_encryptionKey (configuration (map_of demo_env)) = cf_encryptionKey demo_cfg"
  by (simp add: configuration_def env_or_def demo_env_def)

section \<open>What an accepted environment has\<close>

definition required_names :: "string list" where
  "required_names = [''PORT'', ''BUSINESS_TIMEZONE'', ''JWT_SECRET'', ''GMAIL_USER'', ''GMAIL_APP_PASSWORD'',
     ''EMAIL_FROM'', ''GOOGLE_CLIENT_ID'', ''GOOGLE_CLIENT_SECRET'', ''GOOGLE_OAUTH_REDIRECT_URI'',
     ''ENCRYPTION_KEY'']"

lemma present_Some: "present p v \<longleftrightarrow> (\<exists>s. v = Some s \<and> p s)"
  by (cases v) (simp_all add: present_def)

lemma validateEnv_InrD:
  assumes "validateEnv ck env = Inr v"
  shows "v = plainToInstance env" "validateSync ck v"
    "truthy (ev_DATABASE_POOLER_URL v) \<or> truthy (ev_DATABASE_URL v)"
    "truthy (ev_DATABASE_DIRECT_URL v) \<or> truthy (ev_DATABASE_URL v)"
    "length (from_base64 (env_or env ''ENCRYPTION_KEY'' [])) = 32"
  using assms
  by (auto simp: validateEnv_def Let_def env_or_def plainToInstance_def split: if_splits)

lemma accepted_key:
  "validateEnv ck env = Inr v \<Longrightarrow> length (from_base64 (ac_encryptionKey (configuration env))) = 32"
  by (simp add: configuration_def validateEnv_InrD(5))

section \<open>Properties\<close>

text \<open>
  C29: an environment the check accepts gives the configuration every value it needs from the
  environment itself, never from a default: a signing secret of at least 32 characters, an
  encryption key of exactly 32 bytes, the mail account's address and a password of at least 16
  characters, a redirect URL; the port it read is a whole number between 1 and 65535; and the
  client of the database, the queue and the migrations each have a connection string.
\<close>

theorem boot_check:
  assumes "validateEnv ck env = Inr v"
  shows "(\<forall>name \<in> set required_names. env name \<noteq> None) \<and>
    (let c = configuration env in
     length (from_base64 (ac_encryptionKey c)) = 32 \<and> 32 \<le> text_length (ac_jwtSecret c) \<and>
     ck_email ck (ac_gmail_user c) \<and> 16 \<le> text_length (ac_gmail_appPassword c) \<and>
     ck_url ck (ac_google_redirectUri c)) \<and>
    (\<exists>p :: int. ev_PORT v = Some (of_int p) \<and> 1 \<le> p \<and> p \<le> 65535) \<and>
    prisma_connectionString env \<noteq> None \<and> boss_connectionString env = prisma_connectionString env \<and>
    migration_url env \<noteq> None"
proof -
  note v = validateEnv_InrD [OF assms]
  have s: "validateSync ck (plainToInstance env)" using v(1,2) by simp
  then have ip: "is_port (Option.bind (env ''PORT'') js_Number)"
    unfolding validateSync_def plainToInstance_def by simp
  have port: "env ''PORT'' \<noteq> None"
  proof
    assume "env ''PORT'' = None"
    with ip show False by (simp add: is_port_def)
  qed
  have "is_port (ev_PORT v)" using v(2) by (simp add: validateSync_def)
  then obtain r where r: "ev_PORT v = Some r" "of_int (floor r) = r" "1 \<le> r" "r \<le> 65535"
    by (auto simp: is_port_def split: option.splits)
  then have "1 \<le> floor r" "floor r \<le> 65535" by (simp_all add: le_floor_iff floor_le_iff)
  with r(1,2) have p: "\<exists>p :: int. ev_PORT v = Some (of_int p) \<and> 1 \<le> p \<and> p \<le> 65535" by metis
  have names: "\<forall>name \<in> set required_names. env name \<noteq> None"
    using s port unfolding required_names_def
    by (simp add: validateSync_def plainToInstance_def present_Some) blast
  have urls: "prisma_connectionString env \<noteq> None" "migration_url env \<noteq> None"
    using v(3,4) unfolding v(1)
    by (auto simp: plainToInstance_def prisma_connectionString_def migration_url_def truthy_def
        split: option.splits)
  show ?thesis
    using names p urls accepted_key [OF assms] s
    by (auto simp: validateSync_def plainToInstance_def present_Some configuration_def env_or_def
        boss_connectionString_def prisma_connectionString_def Let_def)
qed

lemma boot_check_witness:
  "validateEnv demo_checks (map_of demo_env) = Inr (plainToInstance (map_of demo_env)) \<and>
   length (from_base64 (ac_encryptionKey (configuration (map_of demo_env)))) = 32"
  using boot_check [OF demo_env_ok(1)] demo_env_ok(1) by (simp add: Let_def)

text \<open>The cipher documents that a key of 32 bytes is the key it takes.\<close>

definition gcm_takes_keys :: "gcm \<Rightarrow> bool" where
  "gcm_takes_keys g \<longleftrightarrow> (\<forall>k iv p. length k = 32 \<longrightarrow> gcm_seal g k iv p \<noteq> None)"

text \<open>
  C20: with the key of an accepted environment a Google connection cannot fail for want of a
  key: once Google has answered with a refresh token and the account, the callback of an
  existing coach stores the token encrypted, and every later use of the connection decrypts
  the same token, under the address Google gave.
\<close>

theorem google_connects_after_boot:
  assumes "validateEnv ck env = Inr v" and "cf_encryptionKey cfg = ac_encryptionKey (configuration env)"
    and "gcm_laws (cf_gcm cfg)" and "gcm_takes_keys (cf_gcm cfg)" and "length iv = IV_LENGTH"
    and "code \<noteq> []" and "token \<noteq> []" and "coach_exists k w"
  shows "\<exists>w'. handleCallback cfg iv now (Inr (Some token)) (Inr email) code k w = (Inr (), w') \<and>
    getAuthenticatedClient cfg k w' = Inr token \<and>
    googleStatus k w' = Some (case email of None \<Rightarrow> ''unknown'' | Some m \<Rightarrow> m, now) \<and>
    w' = w\<lparr>googleIntegrations := googleIntegrations w'\<rparr>"
proof -
  have "length (from_base64 (cf_encryptionKey cfg)) = 32" using accepted_key [OF assms(1)] assms(2) by simp
  then obtain enc where "encrypt (cf_gcm cfg) iv token (cf_encryptionKey cfg) = Some enc"
    using assms(4) by (fastforce simp: encrypt_def gcm_takes_keys_def split: option.splits)
  then have "handleCallback cfg iv now (Inr (Some token)) (Inr email) code k w =
      google_upsert k enc (case email of None \<Rightarrow> ''unknown'' | Some m \<Rightarrow> m) now w"
    using assms(6,7) by (simp add: handleCallback_def truthy_def)
  moreover have "\<exists>w'. google_upsert k enc m now w = (Inr (), w') \<and> w' = w\<lparr>googleIntegrations := googleIntegrations w'\<rparr>" for m
    using assms(8) by (simp add: google_upsert_def)
  ultimately obtain w' where h: "handleCallback cfg iv now (Inr (Some token)) (Inr email) code k w = (Inr (), w')"
    and f: "w' = w\<lparr>googleIntegrations := googleIntegrations w'\<rparr>" by metis
  show ?thesis using handleCallback_connects [OF assms(3,5) h] h f by blast
qed

lemma google_connects_after_boot_witness:
  "\<exists>w'. handleCallback demo_cfg (replicate 12 CHR ''i'') 7 (Inr (Some ''refresh'')) (Inr None) ''code'' ''c1'' anna_world =
      (Inr (), w') \<and> getAuthenticatedClient demo_cfg ''c1'' w' = Inr ''refresh''"
proof -
  have g: "gcm_laws (cf_gcm demo_cfg)" "gcm_takes_keys (cf_gcm demo_cfg)"
    by (simp add: demo_cfg_def toy_gcm_laws) (simp add: demo_cfg_def gcm_takes_keys_def toy_gcm_def)
  have k: "cf_encryptionKey demo_cfg = ac_encryptionKey (configuration (map_of demo_env))" by (simp add: demo_env_key)
  have c: "coach_exists ''c1'' anna_world" by (simp add: coach_exists_def anna_world_sel)
  show ?thesis
    using google_connects_after_boot [OF demo_env_ok(1) k g _ _ _ c, of "replicate 12 CHR ''i''" "''code''" "''refresh''" 7 None]
    by (auto simp: IV_LENGTH_def)
qed

text \<open>
  Two environments the check accepts and the program misreads.  A port written 1e3 is
  checked as 1000 and opened as 1, because the check reads numbers one way and the
  configuration another; and an empty pooler URL beside a good URL passes the check, which
  treats it as missing, while the client of the database connects with the empty string.
\<close>

theorem boot_gaps:
  "\<exists>env v env' v'. validateEnv demo_checks env = Inr v \<and> ev_PORT v = Some 1000 \<and>
      ac_port (configuration env) = Some 1 \<and>
    validateEnv demo_checks env' = Inr v' \<and> env' ''DATABASE_URL'' = Some ''postgresql://local'' \<and>
      prisma_connectionString env' = Some [] \<and> boss_connectionString env' = Some []"
proof (intro exI conjI)
  let ?e = "map_of ((''PORT'', ''1e3'') # demo_env)" and ?e' = "map_of ((''DATABASE_POOLER_URL'', []) # demo_env)"
  show "validateEnv demo_checks ?e = Inr (plainToInstance ?e)" by (rule demo_env_ok)
  show "ev_PORT (plainToInstance ?e) = Some 1000" by (simp add: plainToInstance_def number_examples)
  show "ac_port (configuration ?e) = Some 1" by (simp add: configuration_def env_or_def number_examples)
  show "validateEnv demo_checks ?e' = Inr (plainToInstance ?e')" by (rule demo_env_ok)
qed (simp_all add: demo_env_def prisma_connectionString_def boss_connectionString_def)

end
