(* ===== verification/Spec2Isabelle.thy ===== *)
theory Spec2Isabelle
  imports OfferSpecs SystemSpecs ConfigSpecs
begin

text \<open>
  A model of the booking and calendar backend of the coaching platform (the TypeScript under
  src/src, a NestJS application over PostgreSQL) and the theorems about it.

  The program.  Coaches publish event types and availability; clients without an account
  query the free slots, book one, and cancel or move the booking with a token that is mailed
  to them.  Bookings queue notification jobs; a worker creates the Google Meet event of an
  online booking and sends the client and the coach their mails.  An administrator invites
  coaches and maintains the list of origins that may call the program from a browser.

  State and effects.  The tables, the queue and what is sent outside form the record
  \<open>world\<close> (Schema, after prisma/schema.prisma); the cache of allowed origins belongs to an
  instance of the program (AllowedOrigins).  An operation takes the state and gives an error
  or a value together with the new state (\<open>outcome\<close>, \<open>andThen\<close> in Prelude), so that what has
  been written before an exception stays written.  Unique columns, foreign keys and missing
  rows are guards of the writes with the error codes of the database client.  Transactions
  with their retries are \<open>runSerializable\<close> (Common).

  The theories, in the order in which they build on each other:

  \<^item> Prelude: errors, outcomes, tables of rows, the locales \<open>table\<close> and \<open>owned_table\<close>.
  \<^item> JsDate, Luxon: the calendar and ISO texts of the language's dates; the date library
    as a parameter with its documented laws, and an instance of them.
  \<^item> Schema, Common, Response, Crypto, Queue: prisma/schema.prisma; src/common
    (ownership, serializable transactions, exception filter; HTML escaping, removal of password
    hashes, origins; encryption); the queue as its producers see it.  The locales
    \<open>guarded_op\<close> and \<open>guarded_write\<close> state what every operation behind an ownership check
    promises, and are interpreted on each of them.
  \<^item> Settings, Availability, Slots, EventTypes, Bookings, Google, Coaches, AllowedOrigins:
    one theory per service.  \<open>lazy_row\<close> is the contract of settings that are created by their
    first read.
  \<^item> Tokens, Auth: token.service.ts, auth.service.ts and the guards.
  \<^item> Email, EmailContent, MailTemplate, Notifications, NotificationJobs: delivery, texts,
    the tree of the mail template and its style sheet, the two mails of an event, the worker.
  \<^item> Api, Controllers: the routes: guards, validation of bodies, handlers; \<open>api\<close> is a request
    from end to end.  Config: the check of the environment and the configuration.
  \<^item> BookingSpecs, SlotSpecs, OfferSpecs, AuthSpecs, ConfigSpecs: what single components and
    pairs of them promise.  BookingInvariant: the locale \<open>booking_invariant\<close>, under which every
    booking operation keeps an invariant that its writes keep.
  \<^item> BookingsRace: the booking requests as threads whose phases interleave; AllowedOrigins has
    such a relation for instances and their caches.
  \<^item> Tenancy, Frames, System, SystemSpecs: what a coach's session reaches, which tables a
    route writes, the running system and what holds in all its states.
  \<^item> Demo, ApiDemo: data on which the witnesses run.

  What the groups of lemmas show.  No interleaving of requests books a coach twice, and each
  operation run alone is a run of the interleaved steps, so the sequential facts and the
  concurrent ones speak of the same code.  In every reachable state of the running system the
  schema's constraints and the bounds of all rows hold, and there is at most one
  administrator.  A coach's session stays inside her own data; a visitor changes only what
  the public routes are for.  The offer of slots equals a comprehension over days, ranges and
  minutes, always returns in reachable states, and each offered slot can be booked, with the
  exceptions that are stated and proved (slots that end at midnight, days on which the clocks
  change).  Jobs make at most one meeting and get through when one of four attempts can.
  Tokens, links, encrypted tokens and mails read back as what they were made from, and names
  or colours stored by users cannot add markup or style rules.

  Parameters.  Code that is not in the repository is an argument: the date library
  (\<open>luxon\<close>), signed tokens, bcrypt, the cipher, the URL parser, the mail services, Google's
  answers, i18next, the renderer of the mails, the checks of formats of the validation
  library, the collation of the database, and fresh ids and clock readings.  What a theorem
  needs of them is a named predicate (\<open>luxon_zone\<close>, \<open>luxon_instants\<close>, \<open>jwt_laws\<close>,
  \<open>bcrypt_laws\<close>, \<open>gcm_laws\<close>, \<open>gcm_takes_keys\<close>), and an instance that satisfies it is proved.

  Loops.  The loops over days and minutes of the offer are partial functions into option, so
  that not returning is a value: that they return is proved where they do, and that one of
  them does not (a range ending on 9999-12-31) as well.  There is no fuel.  Retries have the
  bounds of the code: three attempts of a transaction, four of a job.

  Numbers and texts.  The program's integers are unbounded integers here; database columns
  of 32 bits and the rounding of doubles are not modelled, and no bound of the validation
  comes near them.  Texts are lists of bytes in UTF-8; lengths count characters where the
  code's check does.  Dates are milliseconds since 1970.

  Not modelled.  The wiring of modules, rate limits, the API documentation and request
  logging (declarations and output, without state of the program's own); the parsing of
  HTTP and JSON (requests are typed, a body of another shape fails the validation); the
  backoff delays of the queue; the SQL of the migrations, which is generated from the
  schema; tests and the scripts that prepare test data.  Requests of \<open>api\<close> are atomic: what
  interleaves is modelled for the bookings (BookingsRace) and the cache of origins.
\<close>

end
